theory Spec2Isabelle
  imports Main "HOL-Library.Sublist"
begin

section \<open>Python values, dictionaries and string helpers\<close>

text \<open>
  The script \<open>setup-llvm-repos.py\<close> is Python 2. Its configuration table maps flavor
  names to dictionaries whose values are \<open>None\<close>, integers or strings. A dictionary is an
  association list; the order of the list is the order in which Python iterates it.
\<close>

datatype pyval = PNone | PInt int | PStr string

datatype pykey = KStr string | KInt int

type_synonym pydict = "(pykey \<times> pyval) list"

definition nl :: string where
  "nl = [CHR 0x0A]"

text \<open>Truth value of a Python object (\<open>if not x\<close>).\<close>

fun truthy :: "pyval \<Rightarrow> bool" where
  "truthy PNone = False"
| "truthy (PInt i) = (i \<noteq> 0)"
| "truthy (PStr s) = (s \<noteq> [])"

fun show_nat :: "nat \<Rightarrow> string" where
  "show_nat n = (if n < 10 then [char_of (48 + n)]
                 else show_nat (n div 10) @ [char_of (48 + n mod 10)])"

declare show_nat.simps [simp del]

definition show_int :: "int \<Rightarrow> string" where
  "show_int i = (if i < 0 then CHR ''-'' # show_nat (nat (- i)) else show_nat (nat i))"

text \<open>\<open>"%s" % x\<close> for the values the script formats.\<close>

fun py_str :: "pyval \<Rightarrow> string" where
  "py_str PNone = ''None''"
| "py_str (PInt i) = show_int i"
| "py_str (PStr s) = s"

definition fmt :: "string option \<Rightarrow> string" where
  "fmt x = (case x of None \<Rightarrow> ''None'' | Some s \<Rightarrow> s)"

text \<open>Whitespace as \<open>\s\<close> and \<open>str.strip()\<close> see it on byte strings.\<close>

definition is_space :: "char \<Rightarrow> bool" where
  "is_space c = (c = CHR 0x20 \<or> c = CHR 0x09 \<or> c = CHR 0x0A \<or> c = CHR 0x0D
                 \<or> c = CHR 0x0C \<or> c = CHR 0x0B)"

definition strip :: "string \<Rightarrow> string" where
  "strip s = rev (dropWhile is_space (rev (dropWhile is_space s)))"

text \<open>\<open>os.path.basename\<close>: what follows the last slash.\<close>

definition basename :: "string \<Rightarrow> string" where
  "basename p = rev (takeWhile (\<lambda>c. c \<noteq> CHR ''/'') (rev p))"

section \<open>The process, its effects and the outside world\<close>

text \<open>
  Everything the process does to the outside is an event of its trace, in program order:
  writes to the two output streams, calls into the helper module \<open>script_utils\<close> (imported
  as \<open>u\<close>), \<open>os.chdir\<close>, file writes and the worker pool.
\<close>

datatype event =
    Stderr string
  | Stdout string
  | Exec string
  | ExecS string bool
  | ExecLines string
  | Chdir string
  | WriteFile string string
  | LibVerbose nat string
  | LibWarning string
  | IncVerbosity
  | SetLocale
  | SsdrootQuery string
  | PoolCreate nat
  | ApplyAsync string string
  | GetResult nat nat

text \<open>How a run of the process can end before its last statement.\<close>

datatype error =
    SysExit nat
  | Fatal string
  | KeyError pykey
  | IndexError
  | TypeError
  | AttributeError
  | ValueError
  | TimeoutError
  | ReError

text \<open>
  Modelled from the spec: \<open>u.error\<close> is not among the sources. The spec says that fatal
  errors terminate the process through one error path that prints the message to the
  diagnostic stream and exits non-zero, and that the exit code of any failure is 1. An
  uncaught Python exception ends the interpreter with status 1 as well.
\<close>

fun exit_status :: "error \<Rightarrow> nat" where
  "exit_status (SysExit n) = n"
| "exit_status _ = 1"

record world =
  cwd :: string
  trace :: "event list"

text \<open>
  The outside world answers every call that leaves the script. Each answer may depend on
  the whole history (the world at the time of the call). The helper functions of
  \<open>script_utils\<close> are parameters here: a command either returns or ends the process
  with a fatal error whose message the helper chooses.
\<close>

record env =
  chdir_err :: "world \<Rightarrow> string \<Rightarrow> string option"
  docmd_fail :: "world \<Rightarrow> string \<Rightarrow> string option"
  doscmd_fail :: "world \<Rightarrow> string \<Rightarrow> string option"
  doscmd_nf :: "world \<Rightarrow> string \<Rightarrow> bool"
  docmdlines_out :: "world \<Rightarrow> string \<Rightarrow> string + string list"
  write_fails :: "world \<Rightarrow> string \<Rightarrow> bool"
  btrfs_ssdroot :: "string \<Rightarrow> string + string"
  result_ready :: "nat \<Rightarrow> nat \<Rightarrow> bool"
  re_template :: "string \<Rightarrow> string option"
  argv0 :: string

type_synonym 'a prog = "world \<Rightarrow> (error + 'a) \<times> world"

definition return :: "'a \<Rightarrow> 'a prog" where
  "return x w = (Inr x, w)"

definition raise :: "error \<Rightarrow> 'a prog" where
  "raise err w = (Inl err, w)"

definition bind :: "'a prog \<Rightarrow> ('a \<Rightarrow> 'b prog) \<Rightarrow> 'b prog" where
  "bind p f w = (case p w of (Inl err, w') \<Rightarrow> (Inl err, w') | (Inr x, w') \<Rightarrow> f x w')"

text \<open>A block of statements: run them in order, stop at the first that raises.\<close>

fun seq :: "unit prog list \<Rightarrow> unit prog" where
  "seq [] = return ()"
| "seq (p # ps) = bind p (\<lambda>_. seq ps)"

definition emit :: "event \<Rightarrow> unit prog" where
  "emit ev w = (Inr (), w\<lparr>trace := trace w @ [ev]\<rparr>)"

definition getcwd :: "string prog" where
  "getcwd w = (Inr (cwd w), w)"

text \<open>
  Where a directory change leads: an absolute path replaces the working directory,
  \<open>..\<close> goes to the parent, any other path is appended.
\<close>

definition dirname :: "string \<Rightarrow> string" where
  "dirname p = (let d = rev (drop 1 (dropWhile (\<lambda>c. c \<noteq> CHR ''/'') (rev p)))
                in if d = [] then ''/'' else d)"

definition is_abs :: "string \<Rightarrow> bool" where
  "is_abs p = (p \<noteq> [] \<and> hd p = CHR ''/'')"

definition path_join :: "string \<Rightarrow> string \<Rightarrow> string" where
  "path_join base d = (if is_abs d then d
                       else if d = ''..'' then dirname base
                       else base @ ''/'' @ d)"

text \<open>\<open>os.chdir\<close>: raises \<open>OSError\<close> (here: returns its text) or moves the process.\<close>

definition os_chdir :: "env \<Rightarrow> string \<Rightarrow> (string option) prog" where
  "os_chdir e d w =
     (case chdir_err e w d of
        Some txt \<Rightarrow> (Inr (Some txt), w\<lparr>trace := trace w @ [Chdir d]\<rparr>)
      | None \<Rightarrow> (Inr None, w\<lparr>cwd := path_join (cwd w) d, trace := trace w @ [Chdir d]\<rparr>))"

text \<open>
  Modelled from the spec: \<open>u.error\<close>, \<open>u.docmd\<close>, \<open>u.doscmd\<close>, \<open>u.docmdlines\<close>,
  \<open>u.verbose\<close>, \<open>u.warning\<close>, \<open>u.increment_verbosity\<close>, \<open>u.setdeflanglocale\<close> and
  \<open>u.determine_btrfs_ssdroot\<close> live in \<open>script_utils\<close>, which is not among the sources.
  The spec describes run-command (a failing command is swallowed with a warning or is
  fatal), run-command-capturing-output-lines, and the single fatal error path. Each call
  is an event; whether it returns is the world's answer.
\<close>

definition u_error :: "string \<Rightarrow> 'a prog" where
  "u_error msg = raise (Fatal msg)"

definition u_docmd :: "env \<Rightarrow> string \<Rightarrow> unit prog" where
  "u_docmd e cmd w =
     (case docmd_fail e w cmd of
        None \<Rightarrow> (Inr (), w\<lparr>trace := trace w @ [Exec cmd]\<rparr>)
      | Some msg \<Rightarrow> (Inl (Fatal msg), w\<lparr>trace := trace w @ [Exec cmd]\<rparr>))"

definition u_doscmd :: "env \<Rightarrow> string \<Rightarrow> unit prog" where
  "u_doscmd e cmd w =
     (case doscmd_fail e w cmd of
        None \<Rightarrow> (Inr (), w\<lparr>trace := trace w @ [ExecS cmd False]\<rparr>)
      | Some msg \<Rightarrow> (Inl (Fatal msg), w\<lparr>trace := trace w @ [ExecS cmd False]\<rparr>))"

definition u_doscmd_nf :: "env \<Rightarrow> string \<Rightarrow> bool prog" where
  "u_doscmd_nf e cmd w = (Inr (doscmd_nf e w cmd), w\<lparr>trace := trace w @ [ExecS cmd True]\<rparr>)"

definition u_docmdlines :: "env \<Rightarrow> string \<Rightarrow> (string list) prog" where
  "u_docmdlines e cmd w =
     (case docmdlines_out e w cmd of
        Inr lines \<Rightarrow> (Inr lines, w\<lparr>trace := trace w @ [ExecLines cmd]\<rparr>)
      | Inl msg \<Rightarrow> (Inl (Fatal msg), w\<lparr>trace := trace w @ [ExecLines cmd]\<rparr>))"

definition u_verbose :: "nat \<Rightarrow> string \<Rightarrow> unit prog" where
  "u_verbose level msg = emit (LibVerbose level msg)"

definition u_warning :: "string \<Rightarrow> unit prog" where
  "u_warning msg = emit (LibWarning msg)"

definition u_determine_btrfs_ssdroot :: "env \<Rightarrow> string \<Rightarrow> string prog" where
  "u_determine_btrfs_ssdroot e here w =
     (case btrfs_ssdroot e here of
        Inr root \<Rightarrow> (Inr root, w\<lparr>trace := trace w @ [SsdrootQuery here]\<rparr>)
      | Inl msg \<Rightarrow> (Inl (Fatal msg), w\<lparr>trace := trace w @ [SsdrootQuery here]\<rparr>))"

section \<open>Global flags and tables of the script\<close>

record globals =
  flag_subvol :: "string option"
  flag_snapshot :: "string option"
  flag_user :: "string option"
  flag_binutils_build :: bool
  flag_run_ninja :: bool
  flag_echo :: bool
  flag_dryrun :: bool
  flag_scm_flavor :: string
  flag_cmake_type :: string
  flag_do_fetch :: bool
  flag_include_tools :: bool
  flag_include_llgo :: bool
  flag_parallel :: bool
  ssdroot :: "string option"
  llvm_rw_svn :: string
  cmake_flavors :: "(string \<times> pydict) list"

definition llvm_git_on_svn :: string where
  "llvm_git_on_svn = ''https://llvm.org/svn/llvm-project''"

definition llvm_ro_svn :: string where
  "llvm_ro_svn = ''http://llvm.org/svn/llvm-project''"

definition binutils_git :: string where
  "binutils_git = ''git://sourceware.org/git/binutils-gdb.git''"

definition llvm_git :: string where
  "llvm_git = ''http://llvm.org/git/llvm.git''"

definition clang_git :: string where
  "clang_git = ''http://llvm.org/git/clang.git''"

definition clang_tools_git :: string where
  "clang_tools_git = ''http://llvm.org/git/clang-tools-extra.git''"

definition compiler_rt_git :: string where
  "compiler_rt_git = ''http://llvm.org/git/compiler-rt.git''"

definition llgo_git :: string where
  "llgo_git = ''http://llvm.org/git/llgo.git''"

definition clang_c_compiler :: string where
  "clang_c_compiler = ''/usr/bin/clang-3.6''"

definition clang_cxx_compiler :: string where
  "clang_cxx_compiler = ''/usr/bin/clang++-3.6''"

definition gcc_c_compiler :: string where
  "gcc_c_compiler = ''/usr/bin/gcc-4.8''"

definition gcc_cxx_compiler :: string where
  "gcc_cxx_compiler = ''/usr/bin/g++-4.8''"

definition covopt :: string where
  "covopt = ''--coverage''"

definition legal_tags :: pydict where
  "legal_tags = [(KStr ''cmflav'', PInt 1), (KStr ''ccflav'', PInt 1),
                 (KStr ''extra'', PInt 1), (KStr ''early'', PInt 1)]"

text \<open>The table as the source writes it; a single quote is \<open>CHR 0x27\<close>.\<close>

definition q :: string where
  "q = [CHR 0x27]"

definition cmake_flavors_src :: "(string \<times> pydict) list" where
  "cmake_flavors_src =
    [(''opt'', [(KStr ''cmflav'', PNone), (KStr ''early'', PInt 1),
               (KStr ''ccflav'', PStr ''clang''), (KStr ''extra'', PNone)]),
     (''dbg'', [(KStr ''cmflav'', PNone), (KStr ''early'', PInt 1),
               (KStr ''ccflav'', PStr ''clang''),
               (KStr ''extra'', PStr (''-DCXX_SUPPORTS_COVERED_SWITCH_DEFAULT_FLAG=0 ''
                   @ ''-DCMAKE_C_FLAGS='' @ q @ ''-g -O0'' @ q @ '' ''
                   @ ''-DCMAKE_CXX_FLAGS='' @ q @ ''-g -O0'' @ q))]),
     (''rel'', [(KStr ''cmflav'', PStr ''Release''), (KStr ''early'', PInt 1),
               (KStr ''ccflav'', PStr ''gcc''), (KStr ''extra'', PNone)]),
     (''cov'', [(KStr ''cmflav'', PNone), (KStr ''ccflav'', PStr ''def''),
               (KStr ''extra'', PStr (''-DCMAKE_C_FLAGS='' @ q @ covopt @ q @ '' ''
                   @ ''-DCMAKE_CXX_FLAGS='' @ q @ covopt @ q))]),
     (''clbootstrap.rel'', [(KStr ''cmflav'', PStr ''Release''),
               (KStr ''ccflav'', PStr ''gcc''),
               (KStr ''extra'', PStr ''-DCLANG_ENABLE_BOOTSTRAP=On'')]),
     (''bootstrap.reldb'', [(KStr ''cmflav'', PStr ''RelWithDebInfo''),
               (KStr ''ccflav'', PStr ''bootstrap=build.opt''),
               (KStr ''extra'', PStr (''-DLLVM_BUILD_EXAMPLES=Off ''
                   @ ''-DCOMPILER_RT_BUILD_BUILTINS=Off ''))])]"

text \<open>The module-level initial values of the globals.\<close>

definition globals0 :: globals where
  "globals0 =
    \<lparr>flag_subvol = None, flag_snapshot = None, flag_user = None,
     flag_binutils_build = True, flag_run_ninja = True, flag_echo = True,
     flag_dryrun = False, flag_scm_flavor = ''git-svn'', flag_cmake_type = ''Debug'',
     flag_do_fetch = False, flag_include_tools = True, flag_include_llgo = False,
     flag_parallel = True, ssdroot = None,
     llvm_rw_svn = ''https://REPLACE_WITH_USER@llvm.org/svn/llvm-project'',
     cmake_flavors = cmake_flavors_src\<rparr>"

section \<open>The command execution facade: docmd, doscmd, dochdir\<close>

definition docmd :: "globals \<Rightarrow> env \<Rightarrow> string \<Rightarrow> unit prog" where
  "docmd g e cmd =
     seq [if flag_echo g then emit (Stderr (''executing: '' @ cmd @ nl)) else return (),
          if flag_dryrun g then return () else u_docmd e cmd]"

definition doscmd :: "globals \<Rightarrow> env \<Rightarrow> string \<Rightarrow> unit prog" where
  "doscmd g e cmd =
     seq [if flag_echo g then emit (Stderr (''executing: '' @ cmd @ nl)) else return (),
          if flag_dryrun g then return () else u_doscmd e cmd]"

definition dochdir :: "globals \<Rightarrow> env \<Rightarrow> string \<Rightarrow> unit prog" where
  "dochdir g e thedir =
     seq [if flag_echo g \<or> flag_dryrun g then emit (Stderr (''cd '' @ thedir @ nl))
          else return (),
          if flag_dryrun g then return ()
          else bind (os_chdir e thedir)
                 (\<lambda>err. case err of None \<Rightarrow> return ()
                         | Some txt \<Rightarrow> u_error (''chdir failed: '' @ txt))]"

text \<open>
  \<open>dochdir(x)\<close> where \<open>x\<close> is a global that may still be \<open>None\<close>: both the string
  concatenation and \<open>os.chdir(None)\<close> raise \<open>TypeError\<close>.
\<close>

definition dochdir_opt :: "globals \<Rightarrow> env \<Rightarrow> string option \<Rightarrow> unit prog" where
  "dochdir_opt g e d = (case d of None \<Rightarrow> raise TypeError | Some s \<Rightarrow> dochdir g e s)"

section \<open>Volume provisioning and repository refresh\<close>

text \<open>\<open>do_subvol_create\<close>: create the subvolume and check out the repositories.\<close>

definition do_subvol_create :: "globals \<Rightarrow> env \<Rightarrow> unit prog" where
  "do_subvol_create g e =
     bind getcwd (\<lambda>here.
       let top = fmt (ssdroot g) @ ''/'' @ fmt (flag_subvol g) in
       seq [docmd g e (''snapshotutil.py mkvol '' @ fmt (flag_subvol g)),
            dochdir_opt g e (ssdroot g),
            dochdir_opt g e (flag_subvol g),
            if flag_scm_flavor g = ''svn''
            then doscmd g e (''svn co '' @ llvm_rw_svn g @ ''/llvm/trunk llvm'')
            else seq [doscmd g e (''git clone '' @ llvm_git),
                      if flag_scm_flavor g = ''git-svn''
                      then seq [dochdir g e ''llvm'',
                                doscmd g e (''git svn init '' @ llvm_git_on_svn @ ''/llvm/trunk ''
                                            @ ''--username='' @ fmt (flag_user g)),
                                doscmd g e ''git config svn-remote.svn.fetch :refs/remotes/origin/master'',
                                doscmd g e ''git svn rebase -l'']
                      else return ()],
            dochdir g e (top @ ''/llvm/tools''),
            if flag_scm_flavor g = ''svn''
            then doscmd g e (''svn co '' @ llvm_ro_svn @ ''/cfe/trunk clang'')
            else seq [doscmd g e (''git clone '' @ clang_git),
                      if flag_scm_flavor g = ''git-svn''
                      then seq [dochdir g e ''clang'',
                                doscmd g e (''git svn init '' @ llvm_git_on_svn @ ''/cfe/trunk ''
                                            @ ''--username='' @ fmt (flag_user g)),
                                doscmd g e ''git config svn-remote.svn.fetch :refs/remotes/origin/master'',
                                doscmd g e ''git svn rebase -l'']
                      else return ()],
            if flag_include_tools g
            then seq [dochdir g e (top @ ''/llvm/tools/clang/tools''),
                      if flag_scm_flavor g = ''git''
                      then doscmd g e (''svn co '' @ llvm_ro_svn @ ''/clang-tools-extra/trunk extra'')
                      else seq [doscmd g e (''git clone '' @ clang_tools_git @ '' extra''),
                                if flag_scm_flavor g = ''git-svn''
                                then seq [dochdir g e ''extra'',
                                          doscmd g e (''git svn init '' @ llvm_git_on_svn
                                                      @ ''/clang-tools-extra/trunk ''
                                                      @ ''--username='' @ fmt (flag_user g)),
                                          doscmd g e ''git config svn-remote.svn.fetch :refs/remotes/origin/master'',
                                          doscmd g e ''git svn rebase -l'']
                                else return ()]]
            else return (),
            if flag_include_llgo g
            then seq [dochdir g e (top @ ''/llvm/tools''),
                      if flag_scm_flavor g = ''git''
                      then doscmd g e (''svn co '' @ llvm_ro_svn @ ''/llgo/trunk llgo'')
                      else seq [doscmd g e (''git clone '' @ llgo_git @ '' llgo''),
                                if flag_scm_flavor g = ''git-svn''
                                then seq [dochdir g e ''llgo'',
                                          doscmd g e (''git svn init '' @ llvm_git_on_svn
                                                      @ ''/llgo/trunk ''
                                                      @ ''--username='' @ fmt (flag_user g)),
                                          doscmd g e ''git config svn-remote.svn.fetch :refs/remotes/origin/master'',
                                          doscmd g e ''git svn rebase -l'']
                                else return ()]]
            else return (),
            dochdir g e (top @ ''/llvm/projects''),
            if flag_scm_flavor g = ''svn''
            then doscmd g e (''svn co '' @ llvm_ro_svn @ ''/compiler-rt/trunk compiler-rt'')
            else seq [doscmd g e (''git clone '' @ compiler_rt_git),
                      if flag_scm_flavor g = ''git-svn''
                      then seq [dochdir g e ''compiler-rt'',
                                doscmd g e (''git svn init '' @ llvm_git_on_svn
                                            @ ''/compiler-rt/trunk ''
                                            @ ''--username='' @ fmt (flag_user g)),
                                doscmd g e ''git config svn-remote.svn.fetch :refs/remotes/origin/master'',
                                doscmd g e ''git svn rebase -l'']
                      else return ()],
            dochdir g e top,
            doscmd g e (''git clone '' @ binutils_git @ '' binutils''),
            dochdir g e here])"

text \<open>\<open>do_fetch\<close>: update one working copy with svn or git.\<close>

definition do_fetch :: "globals \<Rightarrow> env \<Rightarrow> string \<Rightarrow> string \<Rightarrow> unit prog" where
  "do_fetch g e flavor wher =
     bind getcwd (\<lambda>here.
       seq [dochdir g e wher,
            if flavor = ''git'' then docmd g e ''git fetch''
            else if flavor = ''git-svn''
            then seq [docmd g e ''git fetch'', docmd g e ''git svn rebase -l'']
            else docmd g e ''svn update'',
            dochdir g e here])"

text \<open>
  \<open>fetch_in_volume\<close>: the list of working copies comes from \<open>u.docmdlines\<close>, which is
  called directly, not through the facade.
\<close>

definition fetch_in_volume :: "globals \<Rightarrow> env \<Rightarrow> unit prog" where
  "fetch_in_volume g e =
     (let top = fmt (ssdroot g) @ ''/'' @ fmt (flag_subvol g);
          tofind = (if flag_scm_flavor g = ''svn'' then ''.svn'' else ''.git'')
      in seq [dochdir g e top,
              do_fetch g e ''git'' ''binutils'',
              dochdir g e ''llvm'',
              bind (u_docmdlines e (''find . -depth -name '' @ tofind @ '' -print''))
                (\<lambda>lines. seq (map (\<lambda>line. do_fetch g e (flag_scm_flavor g) (strip line)) lines)),
              dochdir g e top])"

section \<open>Build configurations\<close>

definition lift :: "error + 'a \<Rightarrow> 'a prog" where
  "lift r = (case r of Inl err \<Rightarrow> raise err | Inr x \<Rightarrow> return x)"

text \<open>
  \<open>re.compile(r"^bootstrap\.(\S+)$").match(s)\<close>: the text after \<open>bootstrap.\<close> must be
  one or more non-whitespace characters up to the end of the string; \<open>$\<close> also matches
  just before one final newline. The result is group 1.
\<close>

definition rx_bootstrap :: "string \<Rightarrow> string option" where
  "rx_bootstrap s =
     (if take 10 s = ''bootstrap.''
      then let rest = drop 10 s;
               body = (if rest \<noteq> [] \<and> last rest = CHR 0x0A then butlast rest else rest)
           in if body \<noteq> [] \<and> list_all (\<lambda>c. \<not> is_space c) body then Some body else None
      else None)"

definition bootstrap_tooldir :: "globals \<Rightarrow> string \<Rightarrow> error + string option" where
  "bootstrap_tooldir g flav =
     (case map_of (cmake_flavors g) flav of
        None \<Rightarrow> Inl (KeyError (KStr flav))
      | Some fd \<Rightarrow>
         (case map_of fd (KStr ''ccflav'') of
            None \<Rightarrow> Inl (KeyError (KStr ''ccflav''))
          | Some (PStr ccflav) \<Rightarrow>
             (case rx_bootstrap ccflav of
                None \<Rightarrow> Inr None
              | Some tb \<Rightarrow> Inr (Some (fmt (ssdroot g) @ ''/'' @ fmt (flag_subvol g) @ ''/'' @ tb)))
          | Some _ \<Rightarrow> Inl TypeError))"

definition select_cmake_type :: "globals \<Rightarrow> string \<Rightarrow> error + pyval" where
  "select_cmake_type g flav =
     (case map_of (cmake_flavors g) flav of
        None \<Rightarrow> Inl (KeyError (KStr flav))
      | Some fd \<Rightarrow>
         (case map_of fd (KStr ''cmflav'') of
            None \<Rightarrow> Inl (Fatal (''internal error: build flavor '' @ flav @ '' has no cmflav setting''))
          | Some cmflav \<Rightarrow> Inr (if \<not> truthy cmflav then PStr (flag_cmake_type g) else cmflav)))"

definition select_cmake_extras :: "globals \<Rightarrow> string \<Rightarrow> error + pyval" where
  "select_cmake_extras g flav =
     (case map_of (cmake_flavors g) flav of
        None \<Rightarrow> Inl (KeyError (KStr flav))
      | Some fd \<Rightarrow>
         (case map_of fd (KStr ''extra'') of
            None \<Rightarrow> Inr (PStr '''')
          | Some cmflav \<Rightarrow> Inr (if \<not> truthy cmflav then PStr '''' else cmflav)))"

definition select_dyld_library_path :: "globals \<Rightarrow> string \<Rightarrow> error + string" where
  "select_dyld_library_path g flav =
     (case bootstrap_tooldir g flav of
        Inl err \<Rightarrow> Inl err
      | Inr None \<Rightarrow> Inr ''''
      | Inr (Some tbdir) \<Rightarrow>
          if tbdir = [] then Inr '''' else Inr (''env DYLD_LIBRARY_PATH='' @ tbdir @ ''/lib''))"

text \<open>\<open>select_compiler_flavor\<close>: the cmake arguments that choose the compilers.\<close>

definition compiler_setup :: "string \<Rightarrow> string \<Rightarrow> string \<Rightarrow> string" where
  "compiler_setup extrastuff build_c_compiler build_cxx_compiler =
     extrastuff @ ''-DCMAKE_C_COMPILER='' @ build_c_compiler
       @ '' -DCMAKE_CXX_COMPILER='' @ build_cxx_compiler"

definition select_compiler_flavor :: "globals \<Rightarrow> string \<Rightarrow> error + string" where
  "select_compiler_flavor g flav =
     (case map_of (cmake_flavors g) flav of
        None \<Rightarrow> Inl (Fatal (''internal error -- flavor '' @ flav @ '' not in cmake_flavors''))
      | Some fd \<Rightarrow>
         (case map_of fd (KStr ''ccflav'') of
            None \<Rightarrow> Inl (Fatal (''internal error: build flavor '' @ flav @ '' has no ccflav setting''))
          | Some ccflav \<Rightarrow>
             (case bootstrap_tooldir g flav of
                Inl err \<Rightarrow> Inl err
              | Inr tbdir \<Rightarrow>
                  if ccflav = PStr ''gcc''
                  then Inr (compiler_setup '''' gcc_c_compiler gcc_cxx_compiler)
                  else if ccflav = PStr ''clang''
                  then Inr (compiler_setup '''' clang_c_compiler clang_cxx_compiler)
                  else if ccflav = PStr ''def'' then Inr ''''
                  else (case tbdir of
                          Some d \<Rightarrow>
                            if d \<noteq> []
                            then Inr (compiler_setup
                                       (''-DCMAKE_RANLIB='' @ d @ ''/bin/llvm-ranlib ''
                                        @ ''-DCMAKE_AR='' @ d @ ''/bin/llvm-ar '')
                                       (d @ ''/bin/clang'') (d @ ''/bin/clang++''))
                            else Inl (Fatal (''internal error -- bad ccflav setting '' @ py_str ccflav))
                        | None \<Rightarrow>
                            Inl (Fatal (''internal error -- bad ccflav setting '' @ py_str ccflav))))))"

text \<open>
  Writing a file inside \<open>try ... except IOError: u.error(msg)\<close>. The event records the
  attempt.
\<close>

definition write_file :: "env \<Rightarrow> string \<Rightarrow> string \<Rightarrow> string \<Rightarrow> unit prog" where
  "write_file e path content msg w =
     (if write_fails e w path
      then (Inl (Fatal msg), w\<lparr>trace := trace w @ [WriteFile path content]\<rparr>)
      else (Inr (), w\<lparr>trace := trace w @ [WriteFile path content]\<rparr>))"

text \<open>
  \<open>emit_cmake_cmd_script\<close>: \<open>tup\<close> is the flavor's dictionary, and \<open>extra = tup[2]\<close>
  looks up the integer key 2 in it.
\<close>

definition emit_cmake_cmd_script :: "globals \<Rightarrow> env \<Rightarrow> string \<Rightarrow> string prog" where
  "emit_cmake_cmd_script g e flav =
     (let bpath = ''LLVM_BINUTILS_INCDIR='' @ fmt (ssdroot g) @ ''/'' @ fmt (flag_snapshot g)
                  @ ''/binutils/include''
      in bind (lift (case map_of (cmake_flavors g) flav of
                       None \<Rightarrow> Inl (KeyError (KStr flav)) | Some tup \<Rightarrow> Inr tup)) (\<lambda>tup.
         bind (lift (select_dyld_library_path g flav)) (\<lambda>dyldsetting.
         bind (lift (select_compiler_flavor g flav)) (\<lambda>ccomp.
         bind (lift (select_cmake_type g flav)) (\<lambda>cmake_type.
         bind (lift (case map_of tup (KInt 2) of
                       None \<Rightarrow> Inl (KeyError (KInt 2)) | Some extra \<Rightarrow> Inr extra)) (\<lambda>extra.
           let cmake_cmd = dyldsetting @ '' cmake -DCMAKE_BUILD_TYPE='' @ py_str cmake_type
                           @ '' -D'' @ bpath @ '' '' @ ccomp @ '' '' @ py_str extra
                           @ '' -G Ninja ../llvm''
           in bind (if flag_dryrun g
                    then emit (Stdout (''+++ archiving cmake cmd: '' @ cmake_cmd @ nl))
                    else write_file e ''./.cmake_cmd'' (cmake_cmd @ nl)
                           ''open/write failed for .cmake_cmd'')
                (\<lambda>_. return cmake_cmd)))))))"

text \<open>\<open>emit_rebuild_scripts\<close>: the clean, build-all and clean-and-build-all scripts.\<close>

definition emit_rebuild_scripts :: "globals \<Rightarrow> env \<Rightarrow> string \<Rightarrow> unit prog" where
  "emit_rebuild_scripts g e flav =
     (let bpath = fmt (ssdroot g) @ ''/'' @ fmt (flag_snapshot g) @ ''/build.'' @ flav
      in if flag_dryrun g then emit (Stdout (''+++ archiving clean + build cmds'' @ nl))
         else seq [
           write_file e ''./.clean.sh''
             (''#!/bin/sh'' @ nl @
              ''set -e'' @ nl @
              ''cd '' @ bpath @ '' || exit 9'' @ nl @
              ''cd ../binutils-build'' @ nl @
              ''echo ... cleaning binutils-build'' @ nl @
              ''make clean 1> ../build.'' @ flav @ ''/.clean.err 2>&1'' @ nl @
              ''echo ... cleaning llvm'' @ nl @
              ''cd ../build.'' @ flav @ nl @
              ''ninja clean 1>> .clean.err 2>&1'' @ nl @
              ''exit 0'' @ nl)
             ''open/write failed for .clean.sh'',
           write_file e ''./.build-all.sh''
             (''#!/bin/sh'' @ nl @
              ''set -e'' @ nl @
              ''cd '' @ bpath @ '' || exit 9'' @ nl @
              ''cd ../binutils-build'' @ nl @
              ''echo ... running make in binutils-build'' @ nl @
              ''make -j40 1> ../build.'' @ flav @ ''/.binutils-build.err 2>&1'' @ nl @
              ''make -j40 all-gold 1> ../build.'' @ flav @ ''/.binutils-build.err 2>&1'' @ nl @
              ''cd ../build.'' @ flav @ nl @
              ''echo ... running ninja build'' @ nl @
              ''ninja'' @ nl @
              ''exit 0'' @ nl)
             ''open/write failed for .build-all.sh'',
           write_file e ''./.clean-and-build-all.sh''
             (''#!/bin/sh'' @ nl @
              ''set -e'' @ nl @
              ''cd '' @ bpath @ '' || exit 9'' @ nl @
              ''sh ./.clean.sh'' @ nl @
              ''sh ./.build-all.sh'' @ nl @
              ''exit 0'' @ nl)
             ''open/write failed for .cmake_cmd''])"

definition do_configure_binutils :: "globals \<Rightarrow> env \<Rightarrow> unit prog" where
  "do_configure_binutils g e =
     seq [docmd g e ''mkdir binutils-build'',
          dochdir g e ''binutils-build'',
          doscmd g e (''../binutils/configure --enable-gold ''
                      @ ''--enable-plugins --disable-werror''),
          dochdir g e ''..'']"

text \<open>\<open>run_cmake\<close> runs in a worker process: 1 on failure, 0 on success.\<close>

definition run_cmake :: "env \<Rightarrow> string \<Rightarrow> string \<Rightarrow> int prog" where
  "run_cmake e builddir cmake_cmd =
     bind (os_chdir e builddir) (\<lambda>err.
       case err of
         Some txt \<Rightarrow> bind (u_warning (''chdir failed: '' @ txt)) (\<lambda>_. return 1)
       | None \<Rightarrow>
           bind (u_doscmd_nf e cmake_cmd) (\<lambda>rv.
             if \<not> rv
             then bind (u_warning (''cmd command returned bad status: '' @ cmake_cmd))
                    (\<lambda>_. return 1)
             else return 0))"

text \<open>
  The worker pool. \<open>apply_async\<close> hands a job to the pool and returns a handle; the worker
  runs the job in its own process, forked when the pool was made. \<open>r.get(timeout=t)\<close>
  returns the job's value, or raises \<open>TimeoutError\<close> when the world does not deliver the
  result in time.
\<close>

record async_result =
  ar_builddir :: string
  ar_cmd :: string
  ar_world :: world

definition pool_create :: "nat \<Rightarrow> world prog" where
  "pool_create processes w =
     (if processes < 1 then (Inl ValueError, w)
      else (Inr (w\<lparr>trace := []\<rparr>), w\<lparr>trace := trace w @ [PoolCreate processes]\<rparr>))"

definition apply_async :: "world \<Rightarrow> string \<Rightarrow> string \<Rightarrow> async_result prog" where
  "apply_async pool builddir cmake_cmd w =
     (Inr \<lparr>ar_builddir = builddir, ar_cmd = cmake_cmd, ar_world = pool\<rparr>,
      w\<lparr>trace := trace w @ [ApplyAsync builddir cmake_cmd]\<rparr>)"

definition result_get :: "env \<Rightarrow> nat \<Rightarrow> async_result \<Rightarrow> nat \<Rightarrow> int prog" where
  "result_get e idx r timeout w =
     (if result_ready e idx timeout
      then (fst (run_cmake e (ar_builddir r) (ar_cmd r) (ar_world r)),
            w\<lparr>trace := trace w @ [GetResult idx timeout]\<rparr>)
      else (Inl TimeoutError, w\<lparr>trace := trace w @ [GetResult idx timeout]\<rparr>))"

text \<open>The body of the loop over the flavors in \<open>do_setup_cmake\<close>.\<close>

definition setup_flavor ::
  "globals \<Rightarrow> env \<Rightarrow> world option \<Rightarrow> async_result list \<Rightarrow> string \<Rightarrow> (async_result list) prog" where
  "setup_flavor g e pool results flav =
     bind (docmd g e (''mkdir build.'' @ flav)) (\<lambda>_.
     bind (dochdir g e (''build.'' @ flav)) (\<lambda>_.
     bind (emit_rebuild_scripts g e flav) (\<lambda>_.
     bind (emit_cmake_cmd_script g e flav) (\<lambda>cmake_cmd.
     bind (if flag_parallel g \<and> \<not> flag_dryrun g
           then bind (u_verbose 0 (''...kicking off cmake for '' @ flav @ '' in parallel...'')) (\<lambda>_.
                let builddir = fmt (ssdroot g) @ ''/'' @ fmt (flag_snapshot g) @ ''/build.'' @ flav
                in case pool of
                     None \<Rightarrow> raise AttributeError
                   | Some p \<Rightarrow> bind (apply_async p builddir cmake_cmd) (\<lambda>r. return (results @ [r])))
           else bind (doscmd g e cmake_cmd) (\<lambda>_. return results)) (\<lambda>results'.
     bind (dochdir g e ''..'') (\<lambda>_. return results'))))))"

fun setup_loop ::
  "globals \<Rightarrow> env \<Rightarrow> world option \<Rightarrow> async_result list \<Rightarrow> string list \<Rightarrow> (async_result list) prog" where
  "setup_loop g e pool results [] = return results"
| "setup_loop g e pool results (flav # flavs) =
     bind (setup_flavor g e pool results flav) (\<lambda>results'. setup_loop g e pool results' flavs)"

text \<open>The loop that waits for the results: \<open>rc\<close> becomes 1 once a result is not 0.\<close>

fun wait_results :: "env \<Rightarrow> nat \<Rightarrow> int \<Rightarrow> async_result list \<Rightarrow> int prog" where
  "wait_results e idx rc [] = return rc"
| "wait_results e idx rc (r # rs) =
     bind (u_verbose 1 (''waiting on result '' @ show_nat idx)) (\<lambda>_.
     bind (result_get e idx r 600) (\<lambda>res.
       wait_results e (Suc idx) (if res \<noteq> 0 then 1 else rc) rs))"

text \<open>The end of \<open>do_setup_cmake\<close>: wait for every result, then report.\<close>

definition await_results :: "env \<Rightarrow> async_result list \<Rightarrow> unit prog" where
  "await_results e results =
     bind (wait_results e 0 0 results) (\<lambda>rc.
       if rc \<noteq> 0 then u_error ''one or more cmake cmds failed'' else return ())"

definition do_setup_cmake :: "globals \<Rightarrow> env \<Rightarrow> unit prog" where
  "do_setup_cmake g e =
     bind (if flag_parallel g
           then bind (pool_create (length (cmake_flavors g))) (\<lambda>p. return (Some p))
           else return None) (\<lambda>pool.
     bind (setup_loop g e pool [] (map fst (cmake_flavors g))) (\<lambda>results.
       await_results e results))"

section \<open>Snapshot creation and build\<close>

definition do_snapshot_create :: "globals \<Rightarrow> env \<Rightarrow> unit prog" where
  "do_snapshot_create g e =
     seq [if flag_do_fetch g then fetch_in_volume g e else return (),
          docmd g e (''snapshotutil.py mksnap '' @ fmt (flag_subvol g) @ '' '' @ fmt (flag_snapshot g)),
          dochdir_opt g e (ssdroot g),
          dochdir_opt g e (flag_snapshot g),
          do_configure_binutils g e,
          do_setup_cmake g e]"

definition do_snapshot_build :: "globals \<Rightarrow> env \<Rightarrow> unit prog" where
  "do_snapshot_build g e =
     seq [dochdir_opt g e (ssdroot g),
          dochdir_opt g e (flag_snapshot g),
          if flag_binutils_build g
          then seq [dochdir g e ''binutils-build'',
                    doscmd g e ''make -j40'',
                    doscmd g e ''make -j40 all-gold'',
                    dochdir g e ''..'']
          else u_verbose 0 ''... binutils build stubbed out'',
          if flag_run_ninja g
          then seq [dochdir g e ''build.opt'',
                    docmd g e ''ninja'',
                    dochdir g e ''..'']
          else u_verbose 0 ''... ninja build stubbed out'']"

section \<open>Command line\<close>

text \<open>
  \<open>getopt.getopt(args, shortopts)\<close> of the Python 2 standard library, with no long
  options declared: \<open>short_has_arg\<close>, \<open>do_shorts\<close> and the main loop. An error is the
  text of the \<open>GetoptError\<close>.
\<close>

fun short_has_arg :: "char \<Rightarrow> string \<Rightarrow> string + bool" where
  "short_has_arg opt [] = Inl (''option -'' @ [opt] @ '' not recognized'')"
| "short_has_arg opt (c # cs) =
     (if opt = c \<and> c \<noteq> CHR '':'' then Inr (take 1 cs = '':'')
      else short_has_arg opt cs)"

fun do_shorts ::
  "(string \<times> string) list \<Rightarrow> string \<Rightarrow> string \<Rightarrow> string list
     \<Rightarrow> string + (string \<times> string) list \<times> string list" where
  "do_shorts opts [] shortopts args = Inr (opts, args)"
| "do_shorts opts (opt # optstring) shortopts args =
     (case short_has_arg opt shortopts of
        Inl err \<Rightarrow> Inl err
      | Inr True \<Rightarrow>
          (if optstring = []
           then (case args of
                   [] \<Rightarrow> Inl (''option -'' @ [opt] @ '' requires argument'')
                 | a # args' \<Rightarrow> Inr (opts @ [(CHR ''-'' # [opt], a)], args'))
           else Inr (opts @ [(CHR ''-'' # [opt], optstring)], args))
      | Inr False \<Rightarrow> do_shorts (opts @ [(CHR ''-'' # [opt], [])]) optstring shortopts args)"

function getopt_loop ::
  "(string \<times> string) list \<Rightarrow> string list \<Rightarrow> string
     \<Rightarrow> string + (string \<times> string) list \<times> string list" where
  "getopt_loop opts [] shortopts = Inr (opts, [])"
| "getopt_loop opts (a # args) shortopts =
     (if \<not> (take 1 a = ''-'' \<and> a \<noteq> ''-'') then Inr (opts, a # args)
      else if a = ''--'' then Inr (opts, args)
      else if take 2 a = ''--''
      then Inl (''option --'' @ takeWhile (\<lambda>c. c \<noteq> CHR ''='') (drop 2 a) @ '' not recognized'')
      else (case do_shorts opts (drop 1 a) shortopts args of
              Inl err \<Rightarrow> Inl err
            | Inr (opts', args') \<Rightarrow> getopt_loop opts' args' shortopts))"
  by pat_completeness auto

termination
proof (relation "measure (\<lambda>(opts, args, shortopts). length args)")
  show "wf (measure (\<lambda>(opts, args, shortopts). length args))"
    by simp
next
  fix opts :: "(string \<times> string) list" and a :: string and args :: "string list"
    and shortopts :: string and x2 :: "(string \<times> string) list \<times> string list"
    and opts' :: "(string \<times> string) list" and args' :: "string list"
  assume run: "do_shorts opts (drop 1 a) shortopts args = Inr x2" and x2: "(opts', args') = x2"
  have len: "length ar' \<le> length ar"
    if "do_shorts ops s so ar = Inr (ops', ar')" for ops s so ar ops' ar'
    using that
    by (induction ops s so ar rule: do_shorts.induct)
       (auto split: sum.splits bool.splits if_splits list.splits)
  from run x2 have "length args' \<le> length args"
    using len [of opts "drop 1 a" shortopts args opts' args'] by simp
  then show "((opts', args', shortopts), (opts, a # args, shortopts))
               \<in> measure (\<lambda>(opts, args, shortopts). length args)"
    by simp
qed

definition getopt :: "string list \<Rightarrow> string \<Rightarrow> string + (string \<times> string) list \<times> string list" where
  "getopt args shortopts = getopt_loop [] args shortopts"

definition usage_text :: "string \<Rightarrow> string" where
  "usage_text me =
     ''    usage:  '' @ me @ '' [options]'' @ nl @
     nl @
     ''    options:'' @ nl @
     ''    -d    increase debug msg verbosity level'' @ nl @
     ''    -r R  root subvolume is R'' @ nl @
     ''    -s S  snapshot is S'' @ nl @
     ''    -n    stub out ninja build after snapshot creation'' @ nl @
     ''    -N    stub out binutils build after snapshot creation'' @ nl @
     ''    -q    quiet mode (do not echo commands before executing)'' @ nl @
     ''    -S X  use SCM flavor X (either git, svn, or git-svn). Def: git-svn'' @ nl @
     ''    -D    dryrun mode (echo commands but do not execute)'' @ nl @
     ''    -X    set default build type to RelWithDebInfo'' @ nl @
     ''    -T    avoid setting up clang tools'' @ nl @
     ''    -J    run cmake steps serially (default is in parallel)'' @ nl @
     ''    -G    include llgo when setting up repo'' @ nl @
     ''    -F    run '' @ q @ ''git fetch'' @ q @ '' or '' @ q @ ''svn update'' @ q @ '' in subvolume'' @ nl @
     ''          before creating snapshot'' @ nl @
     nl @
     ''    Example 1: creates new subvolume '' @ q @ ''llvm-trunk'' @ q @ nl @
     nl @
     ''      '' @ me @ '' -r llvm-trunk'' @ nl @
     nl @
     ''    Example 2: snapshot subvol '' @ q @ ''llvm-trunk'' @ q @ '' to create '' @ q @ ''llvm-trunk-snap'' @ q @ nl @
     nl @
     ''      '' @ me @ '' -r llvm-trunk -s llvm-snap'' @ nl @
     nl @
     ''    Example 2: snapshot subvol '' @ q @ ''llvm-trunk'' @ q @ '' to create '' @ q @ ''llvm-gronk'' @ q @ '','' @ nl @
     ''               stubbing out ninja build'' @ nl @
     nl @
     ''      '' @ me @ '' -n -r llvm-trunk -s llvm-gronk'' @ nl @
     nl @
     ''    ''"

text \<open>\<open>usage\<close>: print the message and the usage text, then \<open>sys.exit(1)\<close>.\<close>

definition usage :: "env \<Rightarrow> string \<Rightarrow> 'a prog" where
  "usage e msgarg =
     (let me = basename (argv0 e)
      in bind (if msgarg \<noteq> [] then emit (Stderr (''error: '' @ msgarg @ nl)) else return ()) (\<lambda>_.
         bind (emit (Stdout (usage_text me @ nl))) (\<lambda>_.
         raise (SysExit 1))))"

text \<open>One round of the loop over the parsed options in \<open>parse_args\<close>.\<close>

definition apply_opt :: "env \<Rightarrow> globals \<Rightarrow> string \<times> string \<Rightarrow> globals prog" where
  "apply_opt e g oa =
     (let opt = fst oa; arg = snd oa in
      if opt = ''-d'' then bind (emit IncVerbosity) (\<lambda>_. return g)
      else if opt = ''-N'' then return (g\<lparr>flag_binutils_build := False\<rparr>)
      else if opt = ''-n'' then return (g\<lparr>flag_run_ninja := False\<rparr>)
      else if opt = ''-S''
      then (if arg \<noteq> ''git'' \<and> arg \<noteq> ''svn'' \<and> arg \<noteq> ''git-svn''
            then usage e (''illegal SCM flavor '' @ arg)
            else return (g\<lparr>flag_scm_flavor := arg\<rparr>))
      else if opt = ''-q'' then return (g\<lparr>flag_echo := False\<rparr>)
      else if opt = ''-D'' then return (g\<lparr>flag_dryrun := True\<rparr>)
      else if opt = ''-G'' then return (g\<lparr>flag_include_llgo := True\<rparr>)
      else if opt = ''-F'' then return (g\<lparr>flag_do_fetch := True\<rparr>)
      else if opt = ''-J'' then return (g\<lparr>flag_parallel := True\<rparr>)
      else if opt = ''-X'' then return (g\<lparr>flag_cmake_type := ''RelWithDebInfo''\<rparr>)
      else if opt = ''-T'' then return (g\<lparr>flag_include_tools := False\<rparr>)
      else if opt = ''-r'' then return (g\<lparr>flag_subvol := Some arg\<rparr>)
      else if opt = ''-s'' then return (g\<lparr>flag_snapshot := Some arg\<rparr>)
      else return g)"

fun apply_opts :: "env \<Rightarrow> globals \<Rightarrow> (string \<times> string) list \<Rightarrow> globals prog" where
  "apply_opts e g [] = return g"
| "apply_opts e g (oa # optlist) = bind (apply_opt e g oa) (\<lambda>g'. apply_opts e g' optlist)"

text \<open>Truth value of a global that is \<open>None\<close> or a string.\<close>

definition is_set :: "string option \<Rightarrow> bool" where
  "is_set x = (case x of None \<Rightarrow> False | Some s \<Rightarrow> s \<noteq> [])"

text \<open>
  \<open>re.sub("REPLACE_WITH_USER", flag_user, llvm_rw_svn)\<close>: every occurrence of the
  pattern is replaced. A replacement text without backslash stands for itself; the
  expansion of one with backslashes is the world's answer (\<open>None\<close>: \<open>re.error\<close>).
\<close>

function replace_all :: "string \<Rightarrow> string \<Rightarrow> string \<Rightarrow> string" where
  "replace_all pat r s =
     (if s = [] \<or> pat = [] then s
      else if take (length pat) s = pat then r @ replace_all pat r (drop (length pat) s)
      else hd s # replace_all pat r (tl s))"
  by pat_completeness auto

termination
  by (relation "measure (\<lambda>(pat, r, s). length s)") auto

declare replace_all.simps [simp del]

definition re_sub :: "env \<Rightarrow> string \<Rightarrow> string \<Rightarrow> string \<Rightarrow> error + string" where
  "re_sub e pat repl s =
     (case (if CHR 0x5C \<in> set repl then re_template e repl else Some repl) of
        None \<Rightarrow> Inl ReError
      | Some r \<Rightarrow> Inr (replace_all pat r s))"

text \<open>The check of the table's tags at the end of \<open>parse_args\<close>.\<close>

definition key_str :: "pykey \<Rightarrow> string" where
  "key_str k = (case k of KStr s \<Rightarrow> s | KInt i \<Rightarrow> show_int i)"

definition validate_flavors :: "globals \<Rightarrow> unit prog" where
  "validate_flavors g =
     seq (map (\<lambda>(tag, d).
            seq (map (\<lambda>(subtag, v).
                   if map_of legal_tags subtag = None
                   then u_error (''internal error: cmake_flavors entry '' @ tag
                                 @ '' has unknown tag '' @ key_str subtag)
                   else return ()) d))
          (cmake_flavors g))"

definition shortopts :: string where
  "shortopts = ''DGJS:FTXqdnNs:r:''"

definition parse_args :: "globals \<Rightarrow> env \<Rightarrow> string list \<Rightarrow> globals prog" where
  "parse_args g0 e argv =
     bind (case getopt argv shortopts of
             Inl err \<Rightarrow> usage e err
           | Inr oa \<Rightarrow> return oa) (\<lambda>(optlist, args).
     bind (apply_opts e g0 optlist) (\<lambda>g1.
     bind (if args \<noteq> [] then usage e ''unknown extra args'' else return ()) (\<lambda>_.
     bind (if \<not> is_set (flag_subvol g1) then usage e ''specify subvol name with -r''
           else return ()) (\<lambda>_.
     bind (if is_set (flag_snapshot g1) \<and> \<not> is_set (flag_subvol g1)
           then usage e ''specify subvol name with -r'' else return ()) (\<lambda>_.
     bind (u_docmdlines e ''whoami'') (\<lambda>lines.
     bind (case lines of [] \<Rightarrow> raise IndexError | l # _ \<Rightarrow> return l) (\<lambda>user.
     bind (if user = ''root'' then u_error (''please don'' @ q @ ''t run this script as root'')
           else return ()) (\<lambda>_.
     bind (lift (re_sub e ''REPLACE_WITH_USER'' user (llvm_rw_svn g1))) (\<lambda>rw.
     bind (u_verbose 2 (''llvm_rw_svn is: '' @ rw)) (\<lambda>_.
     let g2 = g1\<lparr>flag_user := Some user, llvm_rw_svn := rw\<rparr> in
     bind (validate_flavors g2) (\<lambda>_.
     bind getcwd (\<lambda>here.
     bind (u_determine_btrfs_ssdroot e here) (\<lambda>root.
       return (g2\<lparr>ssdroot := Some root\<rparr>))))))))))))))"

section \<open>The main portion of the script\<close>

definition main :: "globals \<Rightarrow> env \<Rightarrow> string list \<Rightarrow> unit prog" where
  "main g0 e argv =
     bind (parse_args g0 e argv) (\<lambda>g.
     seq [emit SetLocale,
          if is_set (flag_snapshot g)
          then seq [do_snapshot_create g e, do_snapshot_build g e]
          else do_subvol_create g e,
          raise (SysExit 0)])"

section \<open>Sequences of facade calls\<close>

text \<open>
  A command sequence is a list of calls to the three facade primitives, each with the
  text it is called with.
\<close>

datatype facade_call = Docmd string | Doscmd string | Dochdir string

fun facade :: "globals \<Rightarrow> env \<Rightarrow> facade_call \<Rightarrow> unit prog" where
  "facade g e (Docmd cmd) = docmd g e cmd"
| "facade g e (Doscmd cmd) = doscmd g e cmd"
| "facade g e (Dochdir d) = dochdir g e d"

definition run_calls :: "globals \<Rightarrow> env \<Rightarrow> facade_call list \<Rightarrow> unit prog" where
  "run_calls g e calls = seq (map (facade g e) calls)"

text \<open>The action text written to the diagnostic stream, and the effects that leave the process.\<close>

fun stderr_text :: "event \<Rightarrow> string" where
  "stderr_text (Stderr s) = s"
| "stderr_text _ = []"

definition logged :: "event list \<Rightarrow> string" where
  "logged tr = concat (map stderr_text tr)"

fun external :: "event \<Rightarrow> bool" where
  "external (Exec _) = True"
| "external (ExecS _ _) = True"
| "external (ExecLines _) = True"
| "external (Chdir _) = True"
| "external (WriteFile _ _) = True"
| "external (PoolCreate _) = True"
| "external (ApplyAsync _ _) = True"
| "external _ = False"

text \<open>A world in which every command and every directory change succeeds.\<close>

definition env_ok :: env where
  "env_ok =
    \<lparr>chdir_err = (\<lambda>_ _. None), docmd_fail = (\<lambda>_ _. None), doscmd_fail = (\<lambda>_ _. None),
     doscmd_nf = (\<lambda>_ _. True), docmdlines_out = (\<lambda>_ cmd. Inr (if cmd = ''whoami'' then [''dev''] else [])),
     write_fails = (\<lambda>_ _. False), btrfs_ssdroot = (\<lambda>_. Inr ''/ssd''),
     result_ready = (\<lambda>_ _. True), re_template = (\<lambda>_. None),
     argv0 = ''./setup-llvm-repos.py''\<rparr>"

definition world0 :: world where
  "world0 = \<lparr>cwd = ''/home/dev'', trace = []\<rparr>"

text \<open>Whether \<open>getopt\<close> finds the option \<open>name\<close> on the command line.\<close>

definition has_opt :: "string \<Rightarrow> string list \<Rightarrow> bool" where
  "has_opt name argv =
     (case getopt argv shortopts of
        Inl err \<Rightarrow> False
      | Inr (optlist, args) \<Rightarrow> name \<in> set (map fst optlist))"

section \<open>Notions used in the statements and proofs\<close>

text \<open>
  \<open>emits P p\<close>: whatever the world, \<open>p\<close> only appends events to the trace, and every
  event it appends satisfies \<open>P\<close>.
\<close>

definition emits :: "(event \<Rightarrow> bool) \<Rightarrow> 'a prog \<Rightarrow> bool" where
  "emits P p = (\<forall>w. \<exists>evs. trace (snd (p w)) = trace w @ evs \<and> list_all P evs)"

text \<open>
  \<open>errs1 p\<close>: when \<open>p\<close> ends the run, the exit status is 1.
  \<open>fails1 p\<close>: \<open>p\<close> always ends the run, with exit status 1.
\<close>

definition errs1 :: "'a prog \<Rightarrow> bool" where
  "errs1 p = (\<forall>w err w'. p w = (Inl err, w') \<longrightarrow> exit_status err = 1)"

definition fails1 :: "'a prog \<Rightarrow> bool" where
  "fails1 p = (\<forall>w. \<exists>err w'. p w = (Inl err, w') \<and> exit_status err = 1)"

fun call_text :: "facade_call \<Rightarrow> string" where
  "call_text (Docmd cmd) = ''executing: '' @ cmd @ nl"
| "call_text (Doscmd cmd) = ''executing: '' @ cmd @ nl"
| "call_text (Dochdir d) = ''cd '' @ d @ nl"

fun dry_events :: "globals \<Rightarrow> facade_call \<Rightarrow> event list" where
  "dry_events g (Dochdir d) = [Stderr (call_text (Dochdir d))]"
| "dry_events g c = (if flag_echo g then [Stderr (call_text c)] else [])"

text \<open>A run that ends in \<open>usage\<close> after events that all stay inside the process.\<close>

definition usage_exit :: "env \<Rightarrow> world \<Rightarrow> (error + 'a) \<times> world \<Rightarrow> bool" where
  "usage_exit e w r =
     (\<exists>evs. r = (Inl (SysExit 1), w\<lparr>trace := trace w @ evs\<rparr>)
            \<and> list_all (\<lambda>ev. \<not> external ev) evs
            \<and> Stdout (usage_text (basename (argv0 e)) @ nl) \<in> set evs)"



text \<open>The table without any \<open>early\<close> tag.\<close>

definition drop_early :: "(string \<times> pydict) list \<Rightarrow> (string \<times> pydict) list" where
  "drop_early tbl = map (\<lambda>(flav, fd). (flav, filter (\<lambda>(tag, v). tag \<noteq> KStr ''early'') fd)) tbl"

text \<open>Whether the job behind a handle ends with a flag other than 0.\<close>

definition job_failed :: "env \<Rightarrow> async_result \<Rightarrow> bool" where
  "job_failed e r = (fst (run_cmake e (ar_builddir r) (ar_cmd r) (ar_world r)) \<noteq> Inr 0)"

text \<open>What waiting for the results \<open>idx, ..., idx + n - 1\<close> adds to the trace.\<close>

definition wait_events :: "nat \<Rightarrow> nat \<Rightarrow> event list" where
  "wait_events idx n =
     concat (map (\<lambda>k. [LibVerbose 1 (''waiting on result '' @ show_nat k), GetResult k 600])
                 [idx ..< idx + n])"

text \<open>The events of the worker pool's jobs: a dispatch and the wait for a result.\<close>

fun pool_job :: "event \<Rightarrow> bool" where
  "pool_job (ApplyAsync _ _) = True"
| "pool_job (GetResult _ _) = True"
| "pool_job _ = False"

text \<open>A table in which every tag of every entry is one of the legal tags.\<close>

definition legal_table :: "(string \<times> pydict) list \<Rightarrow> bool" where
  "legal_table tbl =
     list_all (\<lambda>(tag, d). list_all (\<lambda>(subtag, v). map_of legal_tags subtag \<noteq> None) d) tbl"

text \<open>\<open>keeps_cwd p\<close>: \<open>p\<close> leaves the working directory where it was.\<close>

definition keeps_cwd :: "'a prog \<Rightarrow> bool" where
  "keeps_cwd p = (\<forall>w. cwd (snd (p w)) = cwd w)"

text \<open>The globals after \<open>-r demo-vol\<close>, run by user \<open>dev\<close> with the ssd root \<open>/ssd\<close>.\<close>

definition globals_vol :: globals where
  "globals_vol = globals0\<lparr>flag_subvol := Some ''demo-vol'', flag_user := Some ''dev'',
                           ssdroot := Some ''/ssd'',
                           llvm_rw_svn := ''https://dev@llvm.org/svn/llvm-project''\<rparr>"

text \<open>\<open>returns p\<close>: \<open>p\<close> never raises.\<close>

definition returns :: "unit prog \<Rightarrow> bool" where
  "returns p = (\<forall>w. \<exists>w'. p w = (Inr (), w'))"

text \<open>The snapshot command, and what issuing a command through \<open>docmd\<close> adds to the trace.\<close>

definition snap_cmd :: "globals \<Rightarrow> string" where
  "snap_cmd g = ''snapshotutil.py mksnap '' @ fmt (flag_subvol g) @ '' '' @ fmt (flag_snapshot g)"

definition docmd_events :: "globals \<Rightarrow> string \<Rightarrow> event list" where
  "docmd_events g cmd =
     (if flag_echo g then [Stderr (''executing: '' @ cmd @ nl)] else [])
     @ (if flag_dryrun g then [] else [Exec cmd])"

definition is_snapshot_event :: "globals \<Rightarrow> event \<Rightarrow> bool" where
  "is_snapshot_event g ev =
     (ev = Exec (snap_cmd g) \<or> ev = Stderr (''executing: '' @ snap_cmd g @ nl))"

text \<open>
  The events of a refresh: the \<open>find\<close> that lists the working copies, and an update
  command of \<open>do_fetch\<close>, run or logged.
\<close>

definition find_cmd :: "globals \<Rightarrow> string" where
  "find_cmd g = ''find . -depth -name ''
                @ (if flag_scm_flavor g = ''svn'' then ''.svn'' else ''.git'') @ '' -print''"

definition update_cmds :: "string list" where
  "update_cmds = [''git fetch'', ''git svn rebase -l'', ''svn update'']"

fun refresh_event :: "event \<Rightarrow> bool" where
  "refresh_event (Exec cmd) = (cmd \<in> set update_cmds)"
| "refresh_event (Stderr txt) = (txt \<in> set (map (\<lambda>cmd. ''executing: '' @ cmd @ nl) update_cmds))"
| "refresh_event (ExecLines cmd) =
     (cmd = ''find . -depth -name .svn -print'' \<or> cmd = ''find . -depth -name .git -print'')"
| "refresh_event _ = False"

text \<open>The globals after \<open>-r demo-vol -s demo-snap -F\<close>, and the same without \<open>-F\<close>.\<close>

definition globals_refresh :: globals where
  "globals_refresh = globals0\<lparr>flag_subvol := Some ''demo-vol'', flag_snapshot := Some ''demo-snap'',
                               flag_user := Some ''dev'', flag_do_fetch := True,
                               ssdroot := Some ''/ssd'',
                               llvm_rw_svn := ''https://dev@llvm.org/svn/llvm-project''\<rparr>"

text \<open>\<open>must Q p\<close>: a run of \<open>p\<close> that returns has added an event that satisfies \<open>Q\<close>.\<close>

definition must :: "(event \<Rightarrow> bool) \<Rightarrow> unit prog \<Rightarrow> bool" where
  "must Q p = (\<forall>w w'. p w = (Inr (), w') \<longrightarrow>
                 (\<exists>evs. trace w' = trace w @ evs \<and> (\<exists>ev \<in> set evs. Q ev)))"

text \<open>A command issued through \<open>doscmd\<close>, as it shows in the trace.\<close>

definition issue_of :: "string \<Rightarrow> event \<Rightarrow> bool" where
  "issue_of cmd ev = (ev = Stderr (''executing: '' @ cmd @ nl) \<or> ev = ExecS cmd False)"

text \<open>\<open>avoids c p\<close>: no event of \<open>p\<close> is the issue of the command \<open>c\<close>.\<close>

definition avoids :: "string \<Rightarrow> 'a prog \<Rightarrow> bool" where
  "avoids c p = emits (\<lambda>ev. \<not> issue_of c ev) p"

text \<open>
  The five repository blocks of \<open>do_subvol_create\<close> have one shape: a test of the flavor
  that selects \<open>svn co\<close>, otherwise \<open>git clone\<close>, followed under \<open>git-svn\<close> by the
  bridge initialisation.
\<close>

definition checkout ::
  "globals \<Rightarrow> env \<Rightarrow> bool \<Rightarrow> string \<Rightarrow> string \<Rightarrow> string \<Rightarrow> string \<Rightarrow> unit prog" where
  "checkout g e use_svn svn_cmd git_cmd dir trunk =
     (if use_svn then doscmd g e svn_cmd
      else seq [doscmd g e git_cmd,
                if flag_scm_flavor g = ''git-svn''
                then seq [dochdir g e dir,
                          doscmd g e (''git svn init '' @ llvm_git_on_svn @ trunk
                                      @ ''--username='' @ fmt (flag_user g)),
                          doscmd g e ''git config svn-remote.svn.fetch :refs/remotes/origin/master'',
                          doscmd g e ''git svn rebase -l'']
                else return ()])"

definition llvm_svn :: "globals \<Rightarrow> string" where
  "llvm_svn g = ''svn co '' @ llvm_rw_svn g @ ''/llvm/trunk llvm''"

definition llvm_clone :: string where
  "llvm_clone = ''git clone '' @ llvm_git"

definition clang_svn :: string where
  "clang_svn = ''svn co '' @ llvm_ro_svn @ ''/cfe/trunk clang''"

definition clang_clone :: string where
  "clang_clone = ''git clone '' @ clang_git"

definition tools_svn :: string where
  "tools_svn = ''svn co '' @ llvm_ro_svn @ ''/clang-tools-extra/trunk extra''"

definition tools_clone :: string where
  "tools_clone = ''git clone '' @ clang_tools_git @ '' extra''"

definition llgo_svn :: string where
  "llgo_svn = ''svn co '' @ llvm_ro_svn @ ''/llgo/trunk llgo''"

definition llgo_clone :: string where
  "llgo_clone = ''git clone '' @ llgo_git @ '' llgo''"

definition rt_svn :: string where
  "rt_svn = ''svn co '' @ llvm_ro_svn @ ''/compiler-rt/trunk compiler-rt''"

definition rt_clone :: string where
  "rt_clone = ''git clone '' @ compiler_rt_git"

definition subvol_steps :: "globals \<Rightarrow> env \<Rightarrow> string \<Rightarrow> unit prog list" where
  "subvol_steps g e here =
     [docmd g e (''snapshotutil.py mkvol '' @ fmt (flag_subvol g)),
      dochdir_opt g e (ssdroot g),
      dochdir_opt g e (flag_subvol g),
      checkout g e (flag_scm_flavor g = ''svn'') (llvm_svn g) llvm_clone ''llvm'' ''/llvm/trunk '',
      dochdir g e (fmt (ssdroot g) @ ''/'' @ fmt (flag_subvol g) @ ''/llvm/tools''),
      checkout g e (flag_scm_flavor g = ''svn'') clang_svn clang_clone ''clang'' ''/cfe/trunk '',
      if flag_include_tools g
      then seq [dochdir g e (fmt (ssdroot g) @ ''/'' @ fmt (flag_subvol g) @ ''/llvm/tools/clang/tools''),
                checkout g e (flag_scm_flavor g = ''git'') tools_svn tools_clone ''extra''
                  ''/clang-tools-extra/trunk '']
      else return (),
      if flag_include_llgo g
      then seq [dochdir g e (fmt (ssdroot g) @ ''/'' @ fmt (flag_subvol g) @ ''/llvm/tools''),
                checkout g e (flag_scm_flavor g = ''git'') llgo_svn llgo_clone ''llgo''
                  ''/llgo/trunk '']
      else return (),
      dochdir g e (fmt (ssdroot g) @ ''/'' @ fmt (flag_subvol g) @ ''/llvm/projects''),
      checkout g e (flag_scm_flavor g = ''svn'') rt_svn rt_clone ''compiler-rt''
        ''/compiler-rt/trunk '',
      dochdir g e (fmt (ssdroot g) @ ''/'' @ fmt (flag_subvol g)),
      doscmd g e (''git clone '' @ binutils_git @ '' binutils''),
      dochdir g e here]"

definition is_checkout_cmd :: "string \<Rightarrow> bool" where
  "is_checkout_cmd c = (take 7 c = ''svn co '' \<or> take 10 c = ''git clone '')"

text \<open>
  \<open>chosen a b evs\<close>: among the events \<open>evs\<close> the command \<open>a\<close> was issued and the command
  \<open>b\<close> was not. \<open>new_events w w'\<close>: what a run from \<open>w\<close> to \<open>w'\<close> added to the trace.
\<close>

definition chosen :: "string \<Rightarrow> string \<Rightarrow> event list \<Rightarrow> bool" where
  "chosen a b evs = ((\<exists>ev \<in> set evs. issue_of a ev) \<and> (\<forall>ev \<in> set evs. \<not> issue_of b ev))"

definition new_events :: "world \<Rightarrow> world \<Rightarrow> event list" where
  "new_events w w' = drop (length (trace w)) (trace w')"

text \<open>The globals after \<open>-r demo-vol -S git -G\<close>.\<close>

definition globals_git :: globals where
  "globals_git = globals_vol\<lparr>flag_scm_flavor := ''git'', flag_include_llgo := True\<rparr>"

section \<open>Reasoning about traces\<close>

lemma emitsI: "(\<And>w. \<exists>evs. trace (snd (p w)) = trace w @ evs \<and> list_all P evs) \<Longrightarrow> emits P p"
  by (simp add: emits_def)

lemma emitsD: "emits P p \<Longrightarrow> \<exists>evs. trace (snd (p w)) = trace w @ evs \<and> list_all P evs"
  by (simp add: emits_def)

lemma emits_mono: "emits P p \<Longrightarrow> (\<And>ev. P ev \<Longrightarrow> Q ev) \<Longrightarrow> emits Q p"
  unfolding emits_def list_all_iff by blast

lemma emits_return: "emits P (return x)"
  by (simp add: emits_def return_def)

lemma emits_raise: "emits P (raise err)"
  by (simp add: emits_def raise_def)

lemma emits_u_error: "emits P (u_error msg)"
  by (simp add: u_error_def emits_raise)

lemma emits_lift: "emits P (lift r)"
  by (cases r) (simp_all add: lift_def emits_raise emits_return)

lemma emits_getcwd: "emits P getcwd"
  by (simp add: emits_def getcwd_def)

lemma emits_emit: "P ev \<Longrightarrow> emits P (emit ev)"
  by (simp add: emits_def emit_def)

lemma emits_bind:
  assumes "emits P p" and "\<And>x. emits P (f x)"
  shows "emits P (bind p f)"
proof (rule emitsI)
  fix w
  obtain r w1 where pw: "p w = (r, w1)" by (cases "p w")
  from emitsD [OF assms(1), of w] pw obtain evs
    where evs: "trace w1 = trace w @ evs" "list_all P evs" by auto
  show "\<exists>evs. trace (snd (bind p f w)) = trace w @ evs \<and> list_all P evs"
  proof (cases r)
    case (Inl err)
    then show ?thesis using pw evs by (auto simp: bind_def)
  next
    case (Inr x)
    from emitsD [OF assms(2), of x w1] obtain evs'
      where "trace (snd (f x w1)) = trace w1 @ evs'" "list_all P evs'" by auto
    then show ?thesis using Inr pw evs
      by (intro exI [of _ "evs @ evs'"]) (simp add: bind_def)
  qed
qed

lemma emits_seq_Nil: "emits P (seq [])"
  by (simp add: emits_return)

lemma emits_seq_Cons: "emits P p \<Longrightarrow> emits P (seq ps) \<Longrightarrow> emits P (seq (p # ps))"
  by (simp add: emits_bind)

lemma emits_seq: "(\<And>p. p \<in> set ps \<Longrightarrow> emits P p) \<Longrightarrow> emits P (seq ps)"
  by (induction ps) (simp_all add: emits_return emits_bind)

lemma emits_if: "(c \<Longrightarrow> emits P a) \<Longrightarrow> (\<not> c \<Longrightarrow> emits P b) \<Longrightarrow> emits P (if c then a else b)"
  by simp

lemma emits_os_chdir: "P (Chdir d) \<Longrightarrow> emits P (os_chdir e d)"
  by (auto simp: emits_def os_chdir_def split: option.splits)

lemma emits_u_docmd: "P (Exec cmd) \<Longrightarrow> emits P (u_docmd e cmd)"
  by (auto simp: emits_def u_docmd_def split: option.splits)

lemma emits_u_doscmd: "P (ExecS cmd False) \<Longrightarrow> emits P (u_doscmd e cmd)"
  by (auto simp: emits_def u_doscmd_def split: option.splits)

lemma emits_u_doscmd_nf: "P (ExecS cmd True) \<Longrightarrow> emits P (u_doscmd_nf e cmd)"
  by (auto simp: emits_def u_doscmd_nf_def)

lemma emits_u_docmdlines: "P (ExecLines cmd) \<Longrightarrow> emits P (u_docmdlines e cmd)"
  by (auto simp: emits_def u_docmdlines_def split: sum.splits)

lemma emits_u_verbose: "P (LibVerbose n msg) \<Longrightarrow> emits P (u_verbose n msg)"
  by (simp add: u_verbose_def emits_emit)

lemma emits_u_warning: "P (LibWarning msg) \<Longrightarrow> emits P (u_warning msg)"
  by (simp add: u_warning_def emits_emit)

lemma emits_ssdroot: "P (SsdrootQuery here) \<Longrightarrow> emits P (u_determine_btrfs_ssdroot e here)"
  by (auto simp: emits_def u_determine_btrfs_ssdroot_def split: sum.splits)

lemma emits_write_file: "P (WriteFile path content) \<Longrightarrow> emits P (write_file e path content msg)"
  by (auto simp: emits_def write_file_def)

lemma emits_docmd:
  assumes "flag_echo g \<Longrightarrow> P (Stderr (''executing: '' @ cmd @ nl))"
    and "\<not> flag_dryrun g \<Longrightarrow> P (Exec cmd)"
  shows "emits P (docmd g e cmd)"
  unfolding docmd_def using assms
  by (intro emits_seq_Cons emits_seq_Nil emits_if emits_emit emits_return emits_u_docmd)

lemma emits_doscmd:
  assumes "flag_echo g \<Longrightarrow> P (Stderr (''executing: '' @ cmd @ nl))"
    and "\<not> flag_dryrun g \<Longrightarrow> P (ExecS cmd False)"
  shows "emits P (doscmd g e cmd)"
  unfolding doscmd_def using assms
  by (intro emits_seq_Cons emits_seq_Nil emits_if emits_emit emits_return emits_u_doscmd)

lemma emits_dochdir:
  assumes "flag_echo g \<or> flag_dryrun g \<Longrightarrow> P (Stderr (''cd '' @ d @ nl))"
    and "\<not> flag_dryrun g \<Longrightarrow> P (Chdir d)"
  shows "emits P (dochdir g e d)"
  unfolding dochdir_def using assms
  by (intro emits_seq_Cons emits_seq_Nil emits_if emits_emit emits_return emits_bind
            emits_os_chdir)
     (auto simp: emits_return emits_u_error split: option.splits)

lemma emits_dochdir_opt:
  assumes "\<And>s. d = Some s \<Longrightarrow> flag_echo g \<or> flag_dryrun g \<Longrightarrow> P (Stderr (''cd '' @ s @ nl))"
    and "\<And>s. d = Some s \<Longrightarrow> \<not> flag_dryrun g \<Longrightarrow> P (Chdir s)"
  shows "emits P (dochdir_opt g e d)"
  using assms by (cases d) (simp_all add: dochdir_opt_def emits_raise emits_dochdir)

text \<open>Laws of sequencing.\<close>

lemma bind_return: "bind (return x) f = f x"
  by (rule ext) (simp add: bind_def return_def)

lemma bind_raise: "bind (raise err) f = raise err"
  by (rule ext) (simp add: bind_def raise_def)

lemma bind_assoc: "bind (bind p f) k = bind p (\<lambda>x. bind (f x) k)"
  by (rule ext) (simp add: bind_def split: prod.splits sum.splits)

lemma emits_seq_map: "(\<And>x. emits P (f x)) \<Longrightarrow> emits P (seq (map f xs))"
  by (rule emits_seq) auto

section \<open>Reasoning about how a run ends\<close>

lemma errs1_return: "errs1 (return x)"
  by (simp add: errs1_def return_def)

lemma errs1_raise: "exit_status err = 1 \<Longrightarrow> errs1 (raise err)"
  by (simp add: errs1_def raise_def)

lemma errs1_emit: "errs1 (emit ev)"
  by (simp add: errs1_def emit_def)

lemma errs1_getcwd: "errs1 getcwd"
  by (simp add: errs1_def getcwd_def)

lemma errs1_u_error: "errs1 (u_error msg)"
  by (simp add: u_error_def errs1_raise)

lemma errs1_bind:
  assumes "errs1 p" and "\<And>x. errs1 (f x)"
  shows "errs1 (bind p f)"
  using assms unfolding errs1_def bind_def
  by (auto split: prod.splits sum.splits)

lemma errs1_seq_Nil: "errs1 (seq [])"
  by (simp add: errs1_return)

lemma errs1_seq_Cons: "errs1 p \<Longrightarrow> errs1 (seq ps) \<Longrightarrow> errs1 (seq (p # ps))"
  by (simp add: errs1_bind)

lemma errs1_seq: "(\<And>p. p \<in> set ps \<Longrightarrow> errs1 p) \<Longrightarrow> errs1 (seq ps)"
  by (induction ps) (simp_all add: errs1_return errs1_bind)

lemma errs1_if: "(c \<Longrightarrow> errs1 a) \<Longrightarrow> (\<not> c \<Longrightarrow> errs1 b) \<Longrightarrow> errs1 (if c then a else b)"
  by simp

lemma errs1_os_chdir: "errs1 (os_chdir e d)"
  by (auto simp: errs1_def os_chdir_def split: option.splits)

lemma errs1_u_docmd: "errs1 (u_docmd e cmd)"
  by (auto simp: errs1_def u_docmd_def split: option.splits)

lemma errs1_u_doscmd: "errs1 (u_doscmd e cmd)"
  by (auto simp: errs1_def u_doscmd_def split: option.splits)

lemma errs1_u_doscmd_nf: "errs1 (u_doscmd_nf e cmd)"
  by (auto simp: errs1_def u_doscmd_nf_def)

lemma errs1_u_docmdlines: "errs1 (u_docmdlines e cmd)"
  by (auto simp: errs1_def u_docmdlines_def split: sum.splits)

lemma errs1_u_verbose: "errs1 (u_verbose n msg)"
  by (simp add: u_verbose_def errs1_emit)

lemma errs1_u_warning: "errs1 (u_warning msg)"
  by (simp add: u_warning_def errs1_emit)

lemma errs1_ssdroot: "errs1 (u_determine_btrfs_ssdroot e here)"
  by (auto simp: errs1_def u_determine_btrfs_ssdroot_def split: sum.splits)

lemma errs1_write_file: "errs1 (write_file e path content msg)"
  by (auto simp: errs1_def write_file_def)

lemma errs1_docmd: "errs1 (docmd g e cmd)"
  unfolding docmd_def
  by (intro errs1_seq_Cons errs1_seq_Nil errs1_if errs1_emit errs1_return errs1_u_docmd)

lemma errs1_doscmd: "errs1 (doscmd g e cmd)"
  unfolding doscmd_def
  by (intro errs1_seq_Cons errs1_seq_Nil errs1_if errs1_emit errs1_return errs1_u_doscmd)

lemma errs1_dochdir: "errs1 (dochdir g e d)"
  unfolding dochdir_def
  by (intro errs1_seq_Cons errs1_seq_Nil errs1_if errs1_emit errs1_return errs1_bind
            errs1_os_chdir)
     (auto simp: errs1_return errs1_u_error split: option.splits)

lemma errs1_dochdir_opt: "errs1 (dochdir_opt g e d)"
  by (cases d) (simp_all add: dochdir_opt_def errs1_raise errs1_dochdir)

lemma errs1_do_fetch: "errs1 (do_fetch g e flavor wher)"
  unfolding do_fetch_def
  by (intro errs1_bind errs1_getcwd errs1_seq_Cons errs1_seq_Nil errs1_if errs1_docmd
            errs1_dochdir)

lemma errs1_fetch_in_volume: "errs1 (fetch_in_volume g e)"
  unfolding fetch_in_volume_def Let_def
  by (intro errs1_bind errs1_seq_Cons errs1_seq_Nil errs1_dochdir errs1_do_fetch
            errs1_u_docmdlines errs1_seq)
     (auto simp: errs1_do_fetch)

lemma errs1_do_configure_binutils: "errs1 (do_configure_binutils g e)"
  unfolding do_configure_binutils_def
  by (intro errs1_seq_Cons errs1_seq_Nil errs1_docmd errs1_doscmd errs1_dochdir)

lemma errs1_emit_rebuild_scripts: "errs1 (emit_rebuild_scripts g e flav)"
  unfolding emit_rebuild_scripts_def Let_def
  by (intro errs1_if errs1_emit errs1_seq_Cons errs1_seq_Nil errs1_write_file)

lemma errs1_pool_create: "errs1 (pool_create n)"
  by (auto simp: errs1_def pool_create_def split: if_splits)

lemma fails1_bind_left: "fails1 p \<Longrightarrow> fails1 (bind p f)"
  unfolding fails1_def bind_def
proof
  fix w
  assume "\<forall>w. \<exists>err w'. p w = (Inl err, w') \<and> exit_status err = 1"
  then obtain err w' where "p w = (Inl err, w')" "exit_status err = 1" by blast
  then show "\<exists>err w'. (case p w of (Inl err, w') \<Rightarrow> (Inl err, w') | (Inr x, w') \<Rightarrow> f x w')
                        = (Inl err, w') \<and> exit_status err = 1"
    by simp
qed

lemma fails1_bind_right:
  assumes "errs1 p" and "\<And>w x w'. p w = (Inr x, w') \<Longrightarrow> fails1 (f x)"
  shows "fails1 (bind p f)"
  unfolding fails1_def
proof
  fix w
  obtain r w1 where pw: "p w = (r, w1)" by (cases "p w")
  show "\<exists>err w'. bind p f w = (Inl err, w') \<and> exit_status err = 1"
  proof (cases r)
    case (Inl err)
    then show ?thesis using pw assms(1) by (auto simp: bind_def errs1_def)
  next
    case (Inr x)
    with pw have "fails1 (f x)" using assms(2) by blast
    then show ?thesis using pw Inr by (simp add: bind_def fails1_def)
  qed
qed

lemma fails1_seq_here: "fails1 p \<Longrightarrow> fails1 (seq (p # ps))"
  by (simp add: fails1_bind_left)

lemma fails1_seq_later: "errs1 p \<Longrightarrow> fails1 (seq ps) \<Longrightarrow> fails1 (seq (p # ps))"
  by (simp add: fails1_bind_right)

section \<open>Dry run and the action log\<close>

lemmas prog_defs = return_def raise_def bind_def emit_def u_error_def u_docmd_def u_doscmd_def os_chdir_def

lemma facade_dry:
  "facade (g\<lparr>flag_dryrun := True\<rparr>) e c w = (Inr (), w\<lparr>trace := trace w @ dry_events g c\<rparr>)"
  by (cases c) (simp_all add: docmd_def doscmd_def dochdir_def prog_defs)

lemma run_calls_dry:
  "run_calls (g\<lparr>flag_dryrun := True\<rparr>) e calls w =
     (Inr (), w\<lparr>trace := trace w @ concat (map (dry_events g) calls)\<rparr>)"
proof (induction calls arbitrary: w)
  case Nil
  show ?case by (simp add: run_calls_def return_def)
next
  case (Cons c calls)
  have "run_calls (g\<lparr>flag_dryrun := True\<rparr>) e (c # calls) w =
          run_calls (g\<lparr>flag_dryrun := True\<rparr>) e calls (w\<lparr>trace := trace w @ dry_events g c\<rparr>)"
    by (simp add: run_calls_def bind_def facade_dry)
  then show ?case by (simp add: Cons.IH)
qed

lemma dry_events_not_external: "ev \<in> set (dry_events g c) \<Longrightarrow> \<not> external ev"
  by (cases c) (auto split: if_splits)

lemma dry_events_logged: "flag_echo g \<Longrightarrow> logged (dry_events g c) = call_text c"
  by (cases c) (simp_all add: logged_def)

lemma logged_append: "logged (xs @ ys) = logged xs @ logged ys"
  by (simp add: logged_def)

lemma logged_concat_dry:
  "flag_echo g \<Longrightarrow> logged (concat (map (dry_events g) calls)) = concat (map call_text calls)"
  by (induction calls) (simp_all add: logged_append dry_events_logged, simp add: logged_def)

lemma facade_real:
  assumes "flag_echo g"
  shows "logged (trace (snd (facade (g\<lparr>flag_dryrun := False\<rparr>) e c w))) = logged (trace w) @ call_text c"
  using assms
  by (cases c) (auto simp: docmd_def doscmd_def dochdir_def prog_defs logged_def split: option.splits)

lemma run_calls_real:
  assumes "flag_echo g"
  shows "\<exists>k \<le> length calls.
           logged (trace (snd (run_calls (g\<lparr>flag_dryrun := False\<rparr>) e calls w)))
             = logged (trace w) @ concat (map call_text (take k calls))
         \<and> (fst (run_calls (g\<lparr>flag_dryrun := False\<rparr>) e calls w) = Inr () \<longrightarrow> k = length calls)"
proof (induction calls arbitrary: w)
  case Nil
  show ?case by (simp add: run_calls_def return_def)
next
  case (Cons c calls)
  let ?g = "g\<lparr>flag_dryrun := False\<rparr>"
  obtain r w1 where step: "facade ?g e c w = (r, w1)" by (cases "facade ?g e c w")
  have log1: "logged (trace w1) = logged (trace w) @ call_text c"
    using facade_real [OF assms, of e c w] step by simp
  show ?case
  proof (cases r)
    case (Inl err)
    then have "run_calls ?g e (c # calls) w = (Inl err, w1)"
      using step by (simp add: run_calls_def bind_def)
    then show ?thesis using log1 by (intro exI [of _ 1]) simp
  next
    case (Inr u)
    then have eq: "run_calls ?g e (c # calls) w = run_calls ?g e calls w1"
      using step by (simp add: run_calls_def bind_def)
    from Cons.IH [of w1] obtain k where k: "k \<le> length calls"
      "logged (trace (snd (run_calls ?g e calls w1))) = logged (trace w1) @ concat (map call_text (take k calls))"
      "fst (run_calls ?g e calls w1) = Inr () \<longrightarrow> k = length calls" by blast
    show ?thesis using k eq log1 by (intro exI [of _ "Suc k"]) simp
  qed
qed

text \<open>
  C5 (amended). In dry-run mode a sequence of facade calls always returns, leaves the
  working directory alone and adds no external effect (no process, no directory change).
  With echoing on, the action text of a real run of the same calls is a prefix of the
  dry-run text, and equal to it when the real run returns.
\<close>

theorem dryrun_log:
  "fst (run_calls (g\<lparr>flag_dryrun := True\<rparr>) e calls w) = Inr ()
   \<and> cwd (snd (run_calls (g\<lparr>flag_dryrun := True\<rparr>) e calls w)) = cwd w
   \<and> filter external (trace (snd (run_calls (g\<lparr>flag_dryrun := True\<rparr>) e calls w)))
       = filter external (trace w)
   \<and> (flag_echo g \<longrightarrow>
        prefix (logged (trace (snd (run_calls (g\<lparr>flag_dryrun := False\<rparr>) e' calls w))))
               (logged (trace (snd (run_calls (g\<lparr>flag_dryrun := True\<rparr>) e calls w)))))
   \<and> (flag_echo g \<and> fst (run_calls (g\<lparr>flag_dryrun := False\<rparr>) e' calls w) = Inr () \<longrightarrow>
        logged (trace (snd (run_calls (g\<lparr>flag_dryrun := False\<rparr>) e' calls w)))
          = logged (trace (snd (run_calls (g\<lparr>flag_dryrun := True\<rparr>) e calls w))))"
proof -
  have ext: "filter external (concat (map (dry_events g) calls)) = []"
    by (auto simp: filter_empty_conv dest: dry_events_not_external)
  have pre: "prefix (logged (trace (snd (run_calls (g\<lparr>flag_dryrun := False\<rparr>) e' calls w))))
               (logged (trace (snd (run_calls (g\<lparr>flag_dryrun := True\<rparr>) e calls w))))"
    and eq: "fst (run_calls (g\<lparr>flag_dryrun := False\<rparr>) e' calls w) = Inr () \<Longrightarrow>
        logged (trace (snd (run_calls (g\<lparr>flag_dryrun := False\<rparr>) e' calls w)))
          = logged (trace (snd (run_calls (g\<lparr>flag_dryrun := True\<rparr>) e calls w)))"
    if echo: "flag_echo g"
  proof -
    from run_calls_real [OF echo, of calls e' w] obtain k where k:
      "logged (trace (snd (run_calls (g\<lparr>flag_dryrun := False\<rparr>) e' calls w)))
             = logged (trace w) @ concat (map call_text (take k calls))"
      "fst (run_calls (g\<lparr>flag_dryrun := False\<rparr>) e' calls w) = Inr () \<longrightarrow> k = length calls"
      by blast
    have dry: "logged (trace (snd (run_calls (g\<lparr>flag_dryrun := True\<rparr>) e calls w)))
                 = logged (trace w) @ concat (map call_text calls)"
      by (simp add: run_calls_dry logged_append logged_concat_dry [OF echo])
    have "concat (map call_text calls)
            = concat (map call_text (take k calls)) @ concat (map call_text (drop k calls))"
      by (metis append_take_drop_id concat_append map_append)
    then show "prefix (logged (trace (snd (run_calls (g\<lparr>flag_dryrun := False\<rparr>) e' calls w))))
               (logged (trace (snd (run_calls (g\<lparr>flag_dryrun := True\<rparr>) e calls w))))"
      using k(1) dry by (simp add: prefix_def)
    show "logged (trace (snd (run_calls (g\<lparr>flag_dryrun := False\<rparr>) e' calls w)))
          = logged (trace (snd (run_calls (g\<lparr>flag_dryrun := True\<rparr>) e calls w)))"
      if "fst (run_calls (g\<lparr>flag_dryrun := False\<rparr>) e' calls w) = Inr ()"
      using k dry that by simp
  qed
  show ?thesis
    using pre eq by (simp add: run_calls_dry ext)
qed

theorem dryrun_log_witness:
  "flag_echo globals0
   \<and> fst (run_calls (globals0\<lparr>flag_dryrun := False\<rparr>) env_ok
            [Docmd ''ninja'', Dochdir ''..''] world0) = Inr ()
   \<and> logged (trace (snd (run_calls (globals0\<lparr>flag_dryrun := False\<rparr>) env_ok
                          [Docmd ''ninja'', Dochdir ''..''] world0)))
       = logged (trace (snd (run_calls (globals0\<lparr>flag_dryrun := True\<rparr>) env_ok
                          [Docmd ''ninja'', Dochdir ''..''] world0)))
   \<and> filter external (trace (snd (run_calls (globals0\<lparr>flag_dryrun := True\<rparr>) env_ok
                          [Docmd ''ninja'', Dochdir ''..''] world0))) = []"
proof -
  have echo: "flag_echo globals0"
    by (simp add: globals0_def)
  have ok: "fst (run_calls (globals0\<lparr>flag_dryrun := False\<rparr>) env_ok
                   [Docmd ''ninja'', Dochdir ''..''] world0) = Inr ()"
    by (simp add: run_calls_def docmd_def dochdir_def prog_defs globals0_def env_ok_def)
  have start: "filter external (trace world0) = []"
    by (simp add: world0_def)
  show ?thesis
    using echo ok start
      dryrun_log [of globals0 env_ok "[Docmd ''ninja'', Dochdir ''..'']" world0 env_ok]
    by simp
qed

text \<open>
  C5 as stated fails with echoing off (\<open>-q\<close>): in dry-run mode \<open>dochdir\<close> still writes
  its \<open>cd\<close> line, in a real run it writes nothing.
\<close>

theorem quiet_dryrun_log_differs:
  "logged (trace (snd (run_calls (globals0\<lparr>flag_echo := False, flag_dryrun := True\<rparr>) env_ok
                         [Dochdir ''llvm''] world0))) = ''cd llvm'' @ nl
   \<and> logged (trace (snd (run_calls (globals0\<lparr>flag_echo := False, flag_dryrun := False\<rparr>) env_ok
                         [Dochdir ''llvm''] world0))) = []
   \<and> fst (run_calls (globals0\<lparr>flag_echo := False, flag_dryrun := False\<rparr>) env_ok
            [Dochdir ''llvm''] world0) = Inr ()"
  by (simp add: run_calls_def dochdir_def prog_defs globals0_def env_ok_def world0_def logged_def)

section \<open>The -J flag\<close>

lemma apply_opt_J: "apply_opt e g (''-J'', arg) = return (g\<lparr>flag_parallel := True\<rparr>)"
  by (simp add: apply_opt_def)

lemma apply_opt_parallel:
  "flag_parallel g \<Longrightarrow> apply_opt e g oa w = (Inr g', w') \<Longrightarrow> flag_parallel g'"
  by (auto simp: apply_opt_def Let_def return_def bind_def emit_def usage_def raise_def
           split: if_splits)

lemma apply_opts_parallel:
  "flag_parallel g \<Longrightarrow> apply_opts e g optlist w = (Inr g', w') \<Longrightarrow> flag_parallel g'"
proof (induction optlist arbitrary: g w)
  case Nil
  then show ?case by (simp add: return_def)
next
  case (Cons oa optlist)
  then show ?case
    by (auto simp: bind_def split: prod.splits sum.splits dest: apply_opt_parallel)
qed

text \<open>No command line switches parallel execution off: the flag starts set and stays set.\<close>

lemma parse_args_parallel:
  assumes "parse_args globals0 e argv w = (Inr g, w')"
  shows "flag_parallel g"
proof -
  have p0: "flag_parallel globals0" by (simp add: globals0_def)
  from assms show ?thesis
    unfolding parse_args_def
    by (auto simp: bind_def return_def Let_def split: prod.splits sum.splits if_splits
             dest!: apply_opts_parallel [OF p0])
qed

text \<open>
  C1. The claim: passing \<open>-J\<close> makes the configuration commands run serially (the parallel
  flag is switched off). The code at \<open>-J -r demo-vol\<close>: argument parsing succeeds and
  the parallel flag is still set, because the \<open>-J\<close> branch assigns \<open>True\<close>.
\<close>

theorem serial_flag_leaves_parallel_on:
  "map_sum id flag_parallel
     (fst (parse_args globals0 env_ok [''-J'', ''-r'', ''demo-vol''] world0)) = Inr True"
  by code_simp

section \<open>A command line without the volume name\<close>

lemma usage_exit_usage: "usage_exit e w (usage e msg w)"
  unfolding usage_exit_def
  by (rule exI [of _ "(if msg \<noteq> [] then [Stderr (''error: '' @ msg @ nl)] else [])
                      @ [Stdout (usage_text (basename (argv0 e)) @ nl)]"])
     (simp add: usage_def Let_def bind_def emit_def return_def raise_def)

lemma usage_exit_after:
  assumes "usage_exit e (w\<lparr>trace := trace w @ evs\<rparr>) r" and "list_all (\<lambda>ev. \<not> external ev) evs"
  shows "usage_exit e w r"
proof -
  from assms(1) obtain evs' where r: "r = (Inl (SysExit 1), w\<lparr>trace := trace w @ evs @ evs'\<rparr>)"
    and q: "list_all (\<lambda>ev. \<not> external ev) evs'"
    and u: "Stdout (usage_text (basename (argv0 e)) @ nl) \<in> set evs'"
    by (auto simp: usage_exit_def)
  show ?thesis unfolding usage_exit_def
    using r q u assms(2) by (intro exI [of _ "evs @ evs'"]) simp
qed

lemma apply_opt_plain:
  assumes "fst oa \<noteq> ''-r''" and "fst oa \<noteq> ''-d''"
    and "\<not> (fst oa = ''-S'' \<and> snd oa \<noteq> ''git'' \<and> snd oa \<noteq> ''svn'' \<and> snd oa \<noteq> ''git-svn'')"
  shows "\<exists>g'. apply_opt e g oa w = (Inr g', w) \<and> flag_subvol g' = flag_subvol g"
  using assms unfolding apply_opt_def Let_def return_def
  by auto

lemma apply_opt_no_subvol:
  assumes "fst oa \<noteq> ''-r''" and "flag_subvol g = None"
  shows "usage_exit e w (apply_opt e g oa w)
         \<or> (\<exists>g' evs. apply_opt e g oa w = (Inr g', w\<lparr>trace := trace w @ evs\<rparr>)
                \<and> flag_subvol g' = None \<and> list_all (\<lambda>ev. \<not> external ev) evs)"
proof (cases "fst oa = ''-S'' \<and> snd oa \<noteq> ''git'' \<and> snd oa \<noteq> ''svn'' \<and> snd oa \<noteq> ''git-svn''")
  case True
  then have "apply_opt e g oa w = usage e (''illegal SCM flavor '' @ snd oa) w"
    by (simp add: apply_opt_def Let_def)
  then show ?thesis by (simp add: usage_exit_usage)
next
  case False
  show ?thesis
  proof (cases "fst oa = ''-d''")
    case True
    then have "apply_opt e g oa w = (Inr g, w\<lparr>trace := trace w @ [IncVerbosity]\<rparr>)"
      by (simp add: apply_opt_def Let_def bind_def emit_def return_def)
    then show ?thesis using assms(2) by (intro disjI2 exI [of _ g] exI [of _ "[IncVerbosity]"]) simp
  next
    case nd: False
    from apply_opt_plain [OF assms(1) nd False, of e g w] obtain g'
      where g': "apply_opt e g oa w = (Inr g', w)" "flag_subvol g' = flag_subvol g"
      by blast
    then show ?thesis using assms(2) by (intro disjI2 exI [of _ g'] exI [of _ "[]"]) simp
  qed
qed

lemma apply_opts_no_subvol:
  assumes "''-r'' \<notin> set (map fst optlist)" and "flag_subvol g = None"
  shows "usage_exit e w (apply_opts e g optlist w)
         \<or> (\<exists>g' evs. apply_opts e g optlist w = (Inr g', w\<lparr>trace := trace w @ evs\<rparr>)
                \<and> flag_subvol g' = None \<and> list_all (\<lambda>ev. \<not> external ev) evs)"
  using assms
proof (induction optlist arbitrary: g w)
  case Nil
  then show ?case by (intro disjI2 exI [of _ g] exI [of _ "[]"]) (simp add: return_def)
next
  case (Cons oa optlist)
  then have oa: "fst oa \<noteq> ''-r''" and rest: "''-r'' \<notin> set (map fst optlist)" by auto
  from apply_opt_no_subvol [OF oa Cons.prems(2), of e w]
  show ?case
  proof
    assume "usage_exit e w (apply_opt e g oa w)"
    then show ?thesis by (auto simp: usage_exit_def bind_def)
  next
    assume "\<exists>g' evs. apply_opt e g oa w = (Inr g', w\<lparr>trace := trace w @ evs\<rparr>)
                \<and> flag_subvol g' = None \<and> list_all (\<lambda>ev. \<not> external ev) evs"
    then obtain g1 evs where step: "apply_opt e g oa w = (Inr g1, w\<lparr>trace := trace w @ evs\<rparr>)"
      and g1: "flag_subvol g1 = None" and q: "list_all (\<lambda>ev. \<not> external ev) evs" by blast
    let ?w1 = "w\<lparr>trace := trace w @ evs\<rparr>"
    have eq: "apply_opts e g (oa # optlist) w = apply_opts e g1 optlist ?w1"
      using step by (simp add: bind_def)
    from Cons.IH [OF rest g1, of ?w1] show ?thesis
    proof
      assume "usage_exit e ?w1 (apply_opts e g1 optlist ?w1)"
      then have "usage_exit e w (apply_opts e g1 optlist ?w1)"
        using q by (rule usage_exit_after)
      then show ?thesis using eq by simp
    next
      assume "\<exists>g' evs'. apply_opts e g1 optlist ?w1 = (Inr g', ?w1\<lparr>trace := trace ?w1 @ evs'\<rparr>)
                \<and> flag_subvol g' = None \<and> list_all (\<lambda>ev. \<not> external ev) evs'"
      then obtain g2 evs' where
        "apply_opts e g1 optlist ?w1 = (Inr g2, ?w1\<lparr>trace := trace ?w1 @ evs'\<rparr>)"
        "flag_subvol g2 = None" "list_all (\<lambda>ev. \<not> external ev) evs'" by blast
      then show ?thesis using eq q
        by (intro disjI2 exI [of _ g2] exI [of _ "evs @ evs'"]) simp
    qed
  qed
qed

lemma parse_args_no_subvol:
  assumes "\<not> has_opt ''-r'' argv"
  shows "usage_exit e w (parse_args globals0 e argv w)"
proof (cases "getopt argv shortopts")
  case (Inl err)
  then have "parse_args globals0 e argv w = usage e err w"
    by (simp add: parse_args_def bind_def usage_def Let_def emit_def raise_def return_def)
  then show ?thesis using usage_exit_usage by metis
next
  case (Inr oa)
  obtain optlist args where oa: "oa = (optlist, args)" by (cases oa)
  with Inr assms have nor: "''-r'' \<notin> set (map fst optlist)"
    by (simp add: has_opt_def)
  have g0: "flag_subvol globals0 = None" by (simp add: globals0_def)
  from apply_opts_no_subvol [OF nor g0, of e w] show ?thesis
  proof
    assume "usage_exit e w (apply_opts e globals0 optlist w)"
    then show ?thesis using Inr oa
      by (auto simp: usage_exit_def parse_args_def bind_def return_def)
  next
    assume "\<exists>g' evs. apply_opts e globals0 optlist w = (Inr g', w\<lparr>trace := trace w @ evs\<rparr>)
                \<and> flag_subvol g' = None \<and> list_all (\<lambda>ev. \<not> external ev) evs"
    then obtain g1 evs where
      step: "apply_opts e globals0 optlist w = (Inr g1, w\<lparr>trace := trace w @ evs\<rparr>)"
      and g1: "flag_subvol g1 = None" and q: "list_all (\<lambda>ev. \<not> external ev) evs" by blast
    let ?w1 = "w\<lparr>trace := trace w @ evs\<rparr>"
    have "parse_args globals0 e argv w =
            (if args \<noteq> [] then usage e ''unknown extra args'' ?w1
             else usage e ''specify subvol name with -r'' ?w1)"
      using Inr oa step g1
      by (simp add: parse_args_def bind_def return_def is_set_def usage_def Let_def emit_def raise_def)
    then have "usage_exit e ?w1 (parse_args globals0 e argv w)"
      by (simp add: usage_exit_usage)
    then show ?thesis using q by (rule usage_exit_after)
  qed
qed

text \<open>
  C7. When \<open>getopt\<close> finds no \<open>-r\<close> on the command line (or rejects the command line),
  the whole script ends with \<open>sys.exit(1)\<close>; up to then it has printed the usage text,
  left the working directory alone and caused no external effect: no command, no
  directory change, no file write, no worker pool.
\<close>

theorem missing_subvol_is_usage_error:
  assumes "\<not> has_opt ''-r'' argv"
  shows "\<exists>evs. main globals0 e argv w = (Inl (SysExit 1), w\<lparr>trace := trace w @ evs\<rparr>)
           \<and> exit_status (SysExit 1) \<noteq> 0
           \<and> list_all (\<lambda>ev. \<not> external ev) evs
           \<and> Stdout (usage_text (basename (argv0 e)) @ nl) \<in> set evs"
  using parse_args_no_subvol [OF assms, of e w]
  by (auto simp: usage_exit_def main_def bind_def)

theorem missing_subvol_is_usage_error_witness:
  "\<not> has_opt ''-r'' [''-s'', ''demo-snap'', ''-D'']
   \<and> (\<exists>evs. main globals0 env_ok [''-s'', ''demo-snap'', ''-D''] world0
               = (Inl (SysExit 1), world0\<lparr>trace := trace world0 @ evs\<rparr>)
           \<and> list_all (\<lambda>ev. \<not> external ev) evs
           \<and> Stdout (usage_text (basename (argv0 env_ok)) @ nl) \<in> set evs)"
proof -
  have h: "\<not> has_opt ''-r'' [''-s'', ''demo-snap'', ''-D'']"
    by code_simp
  show ?thesis
    using h missing_subvol_is_usage_error [OF h, of env_ok world0] by simp
qed

section \<open>Bootstrap references\<close>





text \<open>On the script's own table the reference is not dangling, and resolution fails all the same.\<close>

lemma script_bootstrap_entry_is_fatal:
  "select_compiler_flavor globals0 ''bootstrap.reldb''
     = Inl (Fatal ''internal error -- bad ccflav setting bootstrap=build.opt'')"
  by (simp add: select_compiler_flavor_def bootstrap_tooldir_def rx_bootstrap_def globals0_def
                cmake_flavors_src_def)

section \<open>Snapshot mode and the missing key\<close>

lemma bootstrap_tooldir_status:
  "bootstrap_tooldir g flav = Inl err \<Longrightarrow> exit_status err = 1"
  by (auto simp: bootstrap_tooldir_def split: option.splits pyval.splits)

lemma select_dyld_library_path_status:
  "select_dyld_library_path g flav = Inl err \<Longrightarrow> exit_status err = 1"
  by (auto simp: select_dyld_library_path_def split: sum.splits option.splits if_splits
           dest: bootstrap_tooldir_status)

lemma select_compiler_flavor_status:
  "select_compiler_flavor g flav = Inl err \<Longrightarrow> exit_status err = 1"
  by (auto simp: select_compiler_flavor_def split: sum.splits option.splits if_splits
           dest: bootstrap_tooldir_status)

lemma select_cmake_type_status:
  "select_cmake_type g flav = Inl err \<Longrightarrow> exit_status err = 1"
  by (auto simp: select_cmake_type_def split: option.splits)

text \<open>A flavor whose dictionary has no key 2 never gets its cmake command.\<close>

lemma emit_cmake_cmd_script_fails:
  assumes "map_of (cmake_flavors g) flav = Some fd" and "map_of fd (KInt 2) = None"
  shows "\<exists>err. emit_cmake_cmd_script g e flav w = (Inl err, w) \<and> exit_status err = 1"
proof (cases "select_dyld_library_path g flav")
  case (Inl err)
  then show ?thesis using assms select_dyld_library_path_status [OF Inl]
    by (simp add: emit_cmake_cmd_script_def bind_def lift_def raise_def return_def)
next
  case dy: (Inr dyld)
  show ?thesis
  proof (cases "select_compiler_flavor g flav")
    case (Inl err)
    then show ?thesis using assms dy select_compiler_flavor_status [OF Inl]
      by (simp add: emit_cmake_cmd_script_def bind_def lift_def raise_def return_def)
  next
    case cc: (Inr ccomp)
    show ?thesis
    proof (cases "select_cmake_type g flav")
      case (Inl err)
      then show ?thesis using assms dy cc select_cmake_type_status [OF Inl]
        by (simp add: emit_cmake_cmd_script_def bind_def lift_def raise_def return_def)
    next
      case (Inr ct)
      then show ?thesis using assms dy cc
        by (simp add: emit_cmake_cmd_script_def bind_def lift_def raise_def return_def)
    qed
  qed
qed

lemma fails1_emit_cmake_cmd_script:
  assumes "map_of (cmake_flavors g) flav = Some fd" and "map_of fd (KInt 2) = None"
  shows "fails1 (emit_cmake_cmd_script g e flav)"
  unfolding fails1_def using emit_cmake_cmd_script_fails [OF assms] by blast

lemma fails1_setup_flavor:
  assumes "map_of (cmake_flavors g) flav = Some fd" and "map_of fd (KInt 2) = None"
  shows "fails1 (setup_flavor g e pool results flav)"
  unfolding setup_flavor_def
  by (intro fails1_bind_right errs1_docmd errs1_dochdir errs1_emit_rebuild_scripts
            fails1_bind_left fails1_emit_cmake_cmd_script [OF assms])

lemma fails1_do_setup_cmake:
  assumes "cmake_flavors g = (flav, fd) # rest" and "map_of fd (KInt 2) = None"
  shows "fails1 (do_setup_cmake g e)"
proof -
  have look: "map_of (cmake_flavors g) flav = Some fd"
    using assms(1) by simp
  have pool: "errs1 (if flag_parallel g
                     then bind (pool_create (length (cmake_flavors g))) (\<lambda>p. return (Some p))
                     else return None)"
    by (intro errs1_if errs1_bind errs1_pool_create errs1_return)
  have loop: "fails1 (setup_loop g e pool [] (map fst (cmake_flavors g)))" for pool
    using assms(1) by (simp add: fails1_bind_left fails1_setup_flavor [OF look assms(2)])
  show ?thesis
    unfolding do_setup_cmake_def
    by (intro fails1_bind_right pool fails1_bind_left loop)
qed

text \<open>
  Snapshot creation never gets past the first build configuration when that
  configuration's dictionary has no key 2: in every mode and every world.
\<close>

lemma fails1_do_snapshot_create:
  assumes "cmake_flavors g = (flav, fd) # rest" and "map_of fd (KInt 2) = None"
  shows "fails1 (do_snapshot_create g e)"
  unfolding do_snapshot_create_def
  by (intro fails1_seq_later fails1_seq_here errs1_if errs1_fetch_in_volume errs1_return
            errs1_docmd errs1_dochdir_opt errs1_do_configure_binutils
            fails1_do_setup_cmake [OF assms])

lemma errs1_usage: "errs1 (usage e msg)"
  unfolding usage_def Let_def
  by (intro errs1_bind errs1_if errs1_emit errs1_return errs1_raise) simp

lemma errs1_apply_opt: "errs1 (apply_opt e g oa)"
  unfolding apply_opt_def Let_def
  by (intro errs1_if errs1_bind errs1_emit errs1_return errs1_usage)

lemma errs1_apply_opts: "errs1 (apply_opts e g optlist)"
  by (induction optlist arbitrary: g) (simp_all add: errs1_return errs1_bind errs1_apply_opt)

lemma errs1_lift_re_sub: "errs1 (lift (re_sub e pat repl s))"
  by (auto simp: errs1_def lift_def re_sub_def raise_def return_def split: option.splits if_splits)

lemma errs1_validate_flavors: "errs1 (validate_flavors g)"
  unfolding validate_flavors_def
  by (intro errs1_seq) (auto intro!: errs1_seq errs1_if errs1_u_error errs1_return)

lemma errs1_parse_args: "errs1 (parse_args g0 e argv)"
  unfolding parse_args_def Let_def
  by (intro errs1_bind errs1_if errs1_usage errs1_return errs1_apply_opts errs1_u_docmdlines
            errs1_u_error errs1_lift_re_sub errs1_u_verbose errs1_validate_flavors
            errs1_getcwd errs1_ssdroot)
     (auto simp: errs1_usage errs1_return errs1_raise errs1_bind errs1_apply_opts
                 errs1_u_docmdlines errs1_u_error errs1_lift_re_sub errs1_u_verbose
                 errs1_validate_flavors errs1_getcwd errs1_ssdroot
           split: sum.splits list.splits prod.splits
           intro!: errs1_bind errs1_if)

lemma apply_opt_table:
  "apply_opt e g oa w = (Inr g', w') \<Longrightarrow> cmake_flavors g' = cmake_flavors g"
  by (auto simp: apply_opt_def Let_def return_def bind_def emit_def usage_def raise_def
           split: if_splits)

lemma apply_opts_table:
  "apply_opts e g optlist w = (Inr g', w') \<Longrightarrow> cmake_flavors g' = cmake_flavors g"
proof (induction optlist arbitrary: g w)
  case Nil
  then show ?case by (simp add: return_def)
next
  case (Cons oa optlist)
  then show ?case
    by (auto simp: bind_def split: prod.splits sum.splits dest: apply_opt_table)
qed

lemma parse_args_table:
  assumes "parse_args g0 e argv w = (Inr g, w')"
  shows "cmake_flavors g = cmake_flavors g0"
  using assms unfolding parse_args_def
  by (auto simp: bind_def return_def Let_def split: prod.splits sum.splits if_splits
           dest!: apply_opts_table)

text \<open>
  In snapshot mode the script always ends with exit status 1 when the first build
  configuration the table yields has no key 2.
\<close>

lemma snapshot_mode_aborts:
  assumes "cmake_flavors g0 = (flav, fd) # rest" and "map_of fd (KInt 2) = None"
    and "\<And>g w1. parse_args g0 e argv w = (Inr g, w1) \<Longrightarrow> is_set (flag_snapshot g)"
  shows "\<exists>err w'. main g0 e argv w = (Inl err, w') \<and> exit_status err = 1"
proof (cases "parse_args g0 e argv w")
  case (Pair r w1)
  show ?thesis
  proof (cases r)
    case (Inl err)
    then have "exit_status err = 1"
      using Pair errs1_parse_args [of g0 e argv] by (auto simp: errs1_def)
    then show ?thesis using Pair Inl by (simp add: main_def bind_def)
  next
    case (Inr g)
    have snap: "is_set (flag_snapshot g)"
      using assms(3) Pair Inr by blast
    have tbl: "cmake_flavors g = (flav, fd) # rest"
      using parse_args_table [of g0 e argv w g w1] Pair Inr assms(1) by simp
    have "fails1 (seq [emit SetLocale,
                      if is_set (flag_snapshot g)
                      then seq [do_snapshot_create g e, do_snapshot_build g e]
                      else do_subvol_create g e,
                      raise (SysExit 0)])"
      using snap
      by (intro fails1_seq_later fails1_seq_here errs1_emit)
         (simp add: fails1_bind_left fails1_do_snapshot_create [OF tbl assms(2)])
    then show ?thesis
      using Pair Inr by (simp add: main_def bind_def fails1_def)
  qed
qed

lemma getopt_demo:
  "getopt [''-r'', ''demo-vol'', ''-s'', ''demo-snap'', ''-D''] shortopts
     = Inr ([(''-r'', ''demo-vol''), (''-s'', ''demo-snap''), (''-D'', [])], [])"
  by code_simp

lemma apply_opts_demo:
  "apply_opts e g0 [(''-r'', ''demo-vol''), (''-s'', ''demo-snap''), (''-D'', [])] w
     = (Inr (g0\<lparr>flag_subvol := Some ''demo-vol'', flag_snapshot := Some ''demo-snap'',
                  flag_dryrun := True\<rparr>), w)"
  by (simp add: apply_opt_def bind_def return_def)

lemma parse_args_flags:
  assumes "parse_args g0 e argv w = (Inr g, w1)"
    and "getopt argv shortopts = Inr (optlist, args)"
    and "apply_opts e g0 optlist w = (Inr g1, w0)"
  shows "flag_snapshot g = flag_snapshot g1 \<and> flag_dryrun g = flag_dryrun g1
         \<and> flag_subvol g = flag_subvol g1 \<and> flag_do_fetch g = flag_do_fetch g1"
  using assms unfolding parse_args_def
  by (auto simp: bind_def return_def Let_def split: prod.splits sum.splits if_splits)

lemma parse_args_demo:
  assumes "parse_args g0 e [''-r'', ''demo-vol'', ''-s'', ''demo-snap'', ''-D''] w = (Inr g, w1)"
  shows "is_set (flag_snapshot g) \<and> flag_dryrun g"
  using parse_args_flags [OF assms getopt_demo apply_opts_demo]
  by (simp add: is_set_def)

lemma no_key_2: "(flav, fd) \<in> set cmake_flavors_src \<Longrightarrow> map_of fd (KInt 2) = None"
  unfolding cmake_flavors_src_def set_simps insert_iff empty_iff
  by (elim disjE) simp_all

text \<open>
  Whatever the order in which Python iterates the table, and whatever the world answers,
  the dry-run snapshot command line ends with exit status 1.
\<close>

lemma dryrun_snapshot_exit_status:
  assumes "set tbl = set cmake_flavors_src"
  shows "\<exists>err w'. main (globals0\<lparr>cmake_flavors := tbl\<rparr>) e
                     [''-r'', ''demo-vol'', ''-s'', ''demo-snap'', ''-D''] w = (Inl err, w')
                   \<and> exit_status err = 1"
proof -
  have "set cmake_flavors_src \<noteq> {}" by (simp add: cmake_flavors_src_def)
  then have "tbl \<noteq> []" using assms by auto
  then obtain flav fd rest where tbl: "tbl = (flav, fd) # rest"
    by (cases tbl) auto
  then have "(flav, fd) \<in> set cmake_flavors_src" using assms by auto
  then have k2: "map_of fd (KInt 2) = None" by (rule no_key_2)
  have t: "cmake_flavors (globals0\<lparr>cmake_flavors := tbl\<rparr>) = (flav, fd) # rest"
    using tbl by simp
  show ?thesis
  proof (rule snapshot_mode_aborts [OF t k2])
    fix g w1
    assume "parse_args (globals0\<lparr>cmake_flavors := tbl\<rparr>) e
              [''-r'', ''demo-vol'', ''-s'', ''demo-snap'', ''-D''] w = (Inr g, w1)"
    then show "is_set (flag_snapshot g)" using parse_args_demo by blast
  qed
qed

text \<open>
  C2. The claim: \<open>-r demo-vol -s demo-snap -D\<close> prints every action of snapshot
  creation and of all build variants, executes no external command and exits 0. The code
  at that command line, in a world where everything succeeds: it runs \<open>whoami\<close>,
  prints the actions up to the first build variant and then stops with the uncaught
  \<open>KeyError\<close> of \<open>tup[2]\<close>; nothing is printed for the other five variants.
\<close>

theorem dryrun_snapshot_aborts:
  "main globals0 env_ok [''-r'', ''demo-vol'', ''-s'', ''demo-snap'', ''-D''] world0
     = (Inl (KeyError (KInt 2)),
        \<lparr>cwd = ''/home/dev'',
         trace =
           [ExecLines ''whoami'',
            LibVerbose 2 ''llvm_rw_svn is: https://dev@llvm.org/svn/llvm-project'',
            SsdrootQuery ''/home/dev'',
            SetLocale,
            Stderr (''executing: snapshotutil.py mksnap demo-vol demo-snap'' @ nl),
            Stderr (''cd /ssd'' @ nl),
            Stderr (''cd demo-snap'' @ nl),
            Stderr (''executing: mkdir binutils-build'' @ nl),
            Stderr (''cd binutils-build'' @ nl),
            Stderr (''executing: ../binutils/configure --enable-gold --enable-plugins --disable-werror'' @ nl),
            Stderr (''cd ..'' @ nl),
            PoolCreate 6,
            Stderr (''executing: mkdir build.opt'' @ nl),
            Stderr (''cd build.opt'' @ nl),
            Stdout (''+++ archiving clean + build cmds'' @ nl)]\<rparr>)"
  by code_simp

section \<open>The early marker\<close>

lemma map_of_drop_tag:
  "k \<noteq> t \<Longrightarrow> map_of (filter (\<lambda>(tag, v). tag \<noteq> t) fd) k = map_of fd k"
  by (induction fd) auto

lemma map_of_drop_early:
  "map_of (drop_early tbl) flav
     = map_option (filter (\<lambda>(tag, v). tag \<noteq> KStr ''early'')) (map_of tbl flav)"
  by (induction tbl) (auto simp: drop_early_def)

lemma keys_drop_early: "map fst (drop_early tbl) = map fst tbl"
  by (induction tbl) (auto simp: drop_early_def)

lemma length_drop_early: "length (drop_early tbl) = length tbl"
  by (simp add: drop_early_def)

lemma bootstrap_tooldir_drop_early:
  "bootstrap_tooldir (g\<lparr>cmake_flavors := drop_early (cmake_flavors g)\<rparr>) flav
     = bootstrap_tooldir g flav"
  by (auto simp: bootstrap_tooldir_def map_of_drop_early map_of_drop_tag
           split: option.splits pyval.splits)

lemma select_dyld_library_path_drop_early:
  "select_dyld_library_path (g\<lparr>cmake_flavors := drop_early (cmake_flavors g)\<rparr>) flav
     = select_dyld_library_path g flav"
  by (simp add: select_dyld_library_path_def bootstrap_tooldir_drop_early)

lemma select_compiler_flavor_drop_early:
  "select_compiler_flavor (g\<lparr>cmake_flavors := drop_early (cmake_flavors g)\<rparr>) flav
     = select_compiler_flavor g flav"
  by (simp add: select_compiler_flavor_def bootstrap_tooldir_drop_early map_of_drop_early
                map_of_drop_tag split: option.splits)

lemma select_cmake_type_drop_early:
  "select_cmake_type (g\<lparr>cmake_flavors := drop_early (cmake_flavors g)\<rparr>) flav
     = select_cmake_type g flav"
  by (simp add: select_cmake_type_def map_of_drop_early map_of_drop_tag split: option.splits)

lemma emit_cmake_cmd_script_drop_early:
  "emit_cmake_cmd_script (g\<lparr>cmake_flavors := drop_early (cmake_flavors g)\<rparr>) e flav
     = emit_cmake_cmd_script g e flav"
proof (cases "map_of (cmake_flavors g) flav")
  case None
  then show ?thesis
    by (simp add: emit_cmake_cmd_script_def map_of_drop_early lift_def bind_raise)
next
  case (Some fd)
  then show ?thesis
    by (simp add: emit_cmake_cmd_script_def map_of_drop_early map_of_drop_tag
                  select_dyld_library_path_drop_early select_compiler_flavor_drop_early
                  select_cmake_type_drop_early lift_def bind_return)
qed

lemma facade_drop_early:
  "docmd (g\<lparr>cmake_flavors := t\<rparr>) e cmd = docmd g e cmd"
  "doscmd (g\<lparr>cmake_flavors := t\<rparr>) e cmd = doscmd g e cmd"
  "dochdir (g\<lparr>cmake_flavors := t\<rparr>) e d = dochdir g e d"
  by (simp_all add: docmd_def doscmd_def dochdir_def)

lemma emit_rebuild_scripts_drop_early:
  "emit_rebuild_scripts (g\<lparr>cmake_flavors := t\<rparr>) e flav = emit_rebuild_scripts g e flav"
  by (simp add: emit_rebuild_scripts_def)

lemma setup_flavor_drop_early:
  "setup_flavor (g\<lparr>cmake_flavors := drop_early (cmake_flavors g)\<rparr>) e pool results flav
     = setup_flavor g e pool results flav"
  by (simp add: setup_flavor_def facade_drop_early emit_rebuild_scripts_drop_early
                emit_cmake_cmd_script_drop_early Let_def cong: if_cong)

lemma setup_loop_drop_early:
  "setup_loop (g\<lparr>cmake_flavors := drop_early (cmake_flavors g)\<rparr>) e pool results flavs
     = setup_loop g e pool results flavs"
  by (induction flavs arbitrary: results) (simp_all add: setup_flavor_drop_early)

text \<open>
  C4. The claim: at snapshot creation exactly the entries that carry the \<open>early\<close> marker
  are configured, the others are deferred. The code: \<open>do_setup_cmake\<close> loops over every
  key of the table and never reads the marker; removing it from every entry changes
  nothing in what \<open>do_setup_cmake\<close> does, in any world.
\<close>

theorem early_marker_is_ignored:
  "do_setup_cmake (g\<lparr>cmake_flavors := drop_early (cmake_flavors g)\<rparr>) e = do_setup_cmake g e"
  by (simp add: do_setup_cmake_def setup_loop_drop_early keys_drop_early length_drop_early)

section \<open>Waiting for the worker pool\<close>

lemma wait_events_0: "wait_events idx 0 = []"
  by (simp add: wait_events_def)

lemma wait_events_Suc:
  "wait_events idx (Suc n)
     = [LibVerbose 1 (''waiting on result '' @ show_nat idx), GetResult idx 600]
       @ wait_events (Suc idx) n"
  by (simp add: wait_events_def upt_rec)

text \<open>A job returns the flag 0 or the flag 1, and never raises.\<close>

lemma run_cmake_flag:
  "fst (run_cmake e builddir cmd ww) = Inr 0 \<or> fst (run_cmake e builddir cmd ww) = Inr 1"
  by (simp add: run_cmake_def bind_def os_chdir_def u_warning_def u_doscmd_nf_def emit_def
                return_def split: option.splits)

lemma result_get_ready:
  assumes "result_ready e idx t"
  shows "result_get e idx r t w
           = (Inr (if job_failed e r then 1 else 0), w\<lparr>trace := trace w @ [GetResult idx t]\<rparr>)"
  using assms run_cmake_flag [of e "ar_builddir r" "ar_cmd r" "ar_world r"]
  by (auto simp: result_get_def job_failed_def)

lemma result_get_late:
  assumes "\<not> result_ready e idx t"
  shows "result_get e idx r t w = (Inl TimeoutError, w\<lparr>trace := trace w @ [GetResult idx t]\<rparr>)"
  using assms by (simp add: result_get_def)

lemma wait_results_all:
  assumes "\<forall>k < length rs. result_ready e (idx + k) 600"
  shows "wait_results e idx rc rs w
           = (Inr (if \<exists>r \<in> set rs. job_failed e r then 1 else rc),
              w\<lparr>trace := trace w @ wait_events idx (length rs)\<rparr>)"
  using assms
proof (induction rs arbitrary: idx rc w)
  case Nil
  then show ?case by (simp add: return_def wait_events_0)
next
  case (Cons r rs)
  from Cons.prems have here: "result_ready e idx 600" by force
  from Cons.prems have rest: "\<forall>k < length rs. result_ready e (Suc idx + k) 600" by force
  show ?case
    by (simp add: bind_def u_verbose_def emit_def result_get_ready [OF here]
                  Cons.IH [OF rest] wait_events_Suc)
qed

lemma wait_results_returns:
  assumes "wait_results e idx rc rs w = (Inr rc', w')"
  shows "\<forall>k < length rs. result_ready e (idx + k) 600"
  using assms
proof (induction rs arbitrary: idx rc w)
  case Nil
  then show ?case by simp
next
  case (Cons r rs)
  have here: "result_ready e idx 600"
  proof (rule ccontr)
    assume "\<not> result_ready e idx 600"
    then show False
      using Cons.prems by (simp add: bind_def u_verbose_def emit_def result_get_late)
  qed
  from Cons.prems obtain rc1 w1 where "wait_results e (Suc idx) rc1 rs w1 = (Inr rc', w')"
    by (simp add: bind_def u_verbose_def emit_def result_get_ready [OF here])
  then have rest: "\<forall>k < length rs. result_ready e (Suc idx + k) 600"
    by (rule Cons.IH)
  show ?case
  proof (intro allI impI)
    fix k assume "k < length (r # rs)"
    then show "result_ready e (idx + k) 600"
      using here rest by (cases k) auto
  qed
qed

lemma wait_results_error:
  assumes "wait_results e idx rc rs w = (Inl err, w')"
  shows "err = TimeoutError"
  using assms
proof (induction rs arbitrary: idx rc w)
  case Nil
  then show ?case by (simp add: return_def)
next
  case (Cons r rs)
  show ?case
  proof (cases "result_ready e idx 600")
    case True
    from Cons.prems obtain rc1 w1 where "wait_results e (Suc idx) rc1 rs w1 = (Inl err, w')"
      by (simp add: bind_def u_verbose_def emit_def result_get_ready [OF True])
    then show ?thesis by (rule Cons.IH)
  next
    case False
    then show ?thesis
      using Cons.prems by (simp add: bind_def u_verbose_def emit_def result_get_late)
  qed
qed

lemma emits_result_get: "P (GetResult idx t) \<Longrightarrow> emits P (result_get e idx r t)"
  by (auto simp: emits_def result_get_def)

lemma emits_wait_results:
  assumes "\<And>n msg. P (LibVerbose n msg)" and "\<And>k. P (GetResult k 600)"
  shows "emits P (wait_results e idx rc rs)"
  by (induction rs arbitrary: idx rc)
     (simp_all add: emits_return emits_bind emits_u_verbose emits_result_get assms)

lemma emits_await_results:
  assumes "\<And>n msg. P (LibVerbose n msg)" and "\<And>k. P (GetResult k 600)"
  shows "emits P (await_results e rs)"
  unfolding await_results_def
  by (intro emits_bind emits_wait_results assms) (simp add: emits_u_error emits_return)

text \<open>
  The wait phase on its own, for any list of handles: each \<open>get\<close> is bounded by
  600; when every result arrives in time, all of them are waited for and the error
  "one or more cmake cmds failed" is raised exactly when some job's flag is not 0; that
  error is never raised before every result has been collected.
\<close>

lemma await_results_fail_late:
  "((\<forall>k < length rs. result_ready e k 600) \<longrightarrow>
      await_results e rs w
        = (if \<exists>r \<in> set rs. job_failed e r
           then Inl (Fatal ''one or more cmake cmds failed'') else Inr (),
           w\<lparr>trace := trace w @ wait_events 0 (length rs)\<rparr>))
   \<and> (fst (await_results e rs w) = Inl (Fatal ''one or more cmake cmds failed'') \<longrightarrow>
        trace (snd (await_results e rs w)) = trace w @ wait_events 0 (length rs)
        \<and> (\<exists>r \<in> set rs. job_failed e r))
   \<and> (\<exists>evs. trace (snd (await_results e rs w)) = trace w @ evs
            \<and> list_all (\<lambda>ev. \<forall>k t. ev = GetResult k t \<longrightarrow> t = 600) evs)"
proof -
  have all: "await_results e rs w
        = (if \<exists>r \<in> set rs. job_failed e r
           then Inl (Fatal ''one or more cmake cmds failed'') else Inr (),
           w\<lparr>trace := trace w @ wait_events 0 (length rs)\<rparr>)"
    if ready: "\<forall>k < length rs. result_ready e k 600"
  proof -
    from ready have "\<forall>k < length rs. result_ready e (0 + k) 600" by simp
    from wait_results_all [OF this, of 0 w] show ?thesis
      by (simp add: await_results_def bind_def u_error_def raise_def return_def)
  qed
  have late: "trace (snd (await_results e rs w)) = trace w @ wait_events 0 (length rs)
        \<and> (\<exists>r \<in> set rs. job_failed e r)"
    if agg: "fst (await_results e rs w) = Inl (Fatal ''one or more cmake cmds failed'')"
  proof -
    obtain r1 w1 where wr: "wait_results e 0 0 rs w = (r1, w1)"
      by (cases "wait_results e 0 0 rs w")
    have "\<exists>rc. r1 = Inr rc"
    proof (cases r1)
      case (Inl err)
      then have "fst (await_results e rs w) = Inl err"
        using wr by (simp add: await_results_def bind_def)
      moreover have "err = TimeoutError"
        using wr Inl wait_results_error by blast
      ultimately show ?thesis using agg by simp
    next
      case (Inr rc)
      then show ?thesis by blast
    qed
    then obtain rc where "wait_results e 0 0 rs w = (Inr rc, w1)" using wr by blast
    then have "\<forall>k < length rs. result_ready e (0 + k) 600"
      by (rule wait_results_returns)
    then have "\<forall>k < length rs. result_ready e k 600" by simp
    from all [OF this] agg show ?thesis
      by (auto split: if_splits)
  qed
  have "emits (\<lambda>ev. \<forall>k t. ev = GetResult k t \<longrightarrow> t = 600) (await_results e rs)"
    by (rule emits_await_results) simp_all
  then have bound: "\<exists>evs. trace (snd (await_results e rs w)) = trace w @ evs
            \<and> list_all (\<lambda>ev. \<forall>k t. ev = GetResult k t \<longrightarrow> t = 600) evs"
    by (rule emitsD)
  show ?thesis
    using all late bound by blast
qed

section \<open>What the runner hands to the pool\<close>

lemma emits_bind_value:
  assumes "emits P p" and "\<And>w x w'. p w = (Inr x, w') \<Longrightarrow> emits P (f x)"
  shows "emits P (bind p f)"
proof (rule emitsI)
  fix w
  obtain r w1 where pw: "p w = (r, w1)" by (cases "p w")
  from emitsD [OF assms(1), of w] pw obtain evs
    where evs: "trace w1 = trace w @ evs" "list_all P evs" by auto
  show "\<exists>evs. trace (snd (bind p f w)) = trace w @ evs \<and> list_all P evs"
  proof (cases r)
    case (Inl err)
    then show ?thesis using pw evs by (auto simp: bind_def)
  next
    case (Inr x)
    then have "emits P (f x)" using pw assms(2) by blast
    from emitsD [OF this, of w1] obtain evs'
      where "trace (snd (f x w1)) = trace w1 @ evs'" "list_all P evs'" by auto
    then show ?thesis using Inr pw evs
      by (intro exI [of _ "evs @ evs'"]) (simp add: bind_def)
  qed
qed

lemma emits_bind_fails:
  assumes "emits P p" and "fails1 p"
  shows "emits P (bind p f)"
proof (rule emits_bind_value [OF assms(1)])
  fix w x w'
  assume "p w = (Inr x, w')"
  then have False using assms(2) by (auto simp: fails1_def dest: spec [of _ w])
  then show "emits P (f x)" ..
qed

text \<open>What returns from the check of the tags is a legal table.\<close>

lemma seq_map_returns:
  assumes "seq (map f xs) w = (Inr (), w')" and "x \<in> set xs"
  shows "\<exists>w1 w2. f x w1 = (Inr (), w2)"
  using assms
proof (induction xs arbitrary: w)
  case Nil
  then show ?case by simp
next
  case (Cons y ys)
  from Cons.prems(1) obtain w1 where y: "f y w = (Inr (), w1)"
    and rest: "seq (map f ys) w1 = (Inr (), w')"
    by (auto simp: bind_def split: prod.splits sum.splits)
  show ?case
  proof (cases "x = y")
    case True
    then show ?thesis using y by blast
  next
    case False
    then have "x \<in> set ys" using Cons.prems(2) by simp
    with rest show ?thesis by (rule Cons.IH)
  qed
qed

lemma validate_flavors_legal:
  assumes "validate_flavors g w = (Inr (), w')"
  shows "legal_table (cmake_flavors g)"
proof -
  have "map_of legal_tags subtag \<noteq> None"
    if td: "(tag, d) \<in> set (cmake_flavors g)" and sv: "(subtag, v) \<in> set d"
    for tag d subtag v
  proof -
    let ?inner = "\<lambda>tag. \<lambda>(subtag, v).
                     if map_of legal_tags subtag = None
                     then u_error (''internal error: cmake_flavors entry '' @ tag
                                   @ '' has unknown tag '' @ key_str subtag)
                     else return ()"
    from seq_map_returns [OF assms [unfolded validate_flavors_def] td]
    obtain w1 w2 where "seq (map (?inner tag) d) w1 = (Inr (), w2)" by auto
    from seq_map_returns [OF this sv]
    obtain w3 w4 where "?inner tag (subtag, v) w3 = (Inr (), w4)" by blast
    then show ?thesis
      by (auto simp: u_error_def raise_def split: if_splits)
  qed
  then show ?thesis
    by (auto simp: legal_table_def list_all_iff)
qed

lemma parse_args_legal:
  assumes "parse_args g0 e argv w = (Inr g, w')"
  shows "legal_table (cmake_flavors g)"
  using assms unfolding parse_args_def
  by (auto simp: bind_def return_def Let_def split: prod.splits sum.splits if_splits
           dest!: validate_flavors_legal)

lemma legal_table_no_key_2:
  assumes "legal_table tbl" and "map_of tbl flav = Some fd"
  shows "map_of fd (KInt 2) = None"
proof (rule ccontr)
  assume "map_of fd (KInt 2) \<noteq> None"
  then obtain v where "map_of fd (KInt 2) = Some v" by auto
  then have "(KInt 2, v) \<in> set fd" by (rule map_of_SomeD)
  moreover have "(flav, fd) \<in> set tbl" using assms(2) by (rule map_of_SomeD)
  ultimately have "map_of legal_tags (KInt 2) \<noteq> None"
    using assms(1) by (auto simp: legal_table_def list_all_iff)
  then show False by (simp add: legal_tags_def)
qed

text \<open>With a legal table no flavor ever gets its cmake command.\<close>

lemma fails1_emit_cmake_cmd_script_legal:
  assumes "legal_table (cmake_flavors g)"
  shows "fails1 (emit_cmake_cmd_script g e flav)"
proof (cases "map_of (cmake_flavors g) flav")
  case None
  then show ?thesis
    by (simp add: fails1_def emit_cmake_cmd_script_def lift_def bind_def raise_def)
next
  case (Some fd)
  then show ?thesis
    using legal_table_no_key_2 [OF assms Some] by (rule fails1_emit_cmake_cmd_script)
qed

lemma emits_no_job_emit_cmake: "emits (\<lambda>ev. \<not> pool_job ev) (emit_cmake_cmd_script g e flav)"
  unfolding emit_cmake_cmd_script_def Let_def
  by (intro emits_bind emits_lift emits_if emits_emit emits_write_file emits_return) simp_all

lemma emits_no_job_rebuild: "emits (\<lambda>ev. \<not> pool_job ev) (emit_rebuild_scripts g e flav)"
  unfolding emit_rebuild_scripts_def Let_def
  by (intro emits_if emits_emit emits_seq_Cons emits_seq_Nil emits_write_file) simp_all

lemma emits_no_job_docmd: "emits (\<lambda>ev. \<not> pool_job ev) (docmd g e cmd)"
  by (rule emits_docmd) simp_all

lemma emits_no_job_doscmd: "emits (\<lambda>ev. \<not> pool_job ev) (doscmd g e cmd)"
  by (rule emits_doscmd) simp_all

lemma emits_no_job_dochdir: "emits (\<lambda>ev. \<not> pool_job ev) (dochdir g e d)"
  by (rule emits_dochdir) simp_all

lemma emits_no_job_dochdir_opt: "emits (\<lambda>ev. \<not> pool_job ev) (dochdir_opt g e d)"
  by (rule emits_dochdir_opt) simp_all

lemmas emits_no_job =
  emits_seq_Cons emits_seq_Nil emits_if emits_return emits_raise emits_getcwd
  emits_no_job_docmd emits_no_job_doscmd emits_no_job_dochdir emits_no_job_dochdir_opt

lemma emits_no_job_setup_flavor:
  assumes "legal_table (cmake_flavors g)"
  shows "emits (\<lambda>ev. \<not> pool_job ev) (setup_flavor g e pool results flav)"
  unfolding setup_flavor_def
  by (intro emits_bind emits_no_job_docmd emits_no_job_dochdir emits_no_job_rebuild
            emits_bind_fails emits_no_job_emit_cmake fails1_emit_cmake_cmd_script_legal assms)

lemma fails1_setup_flavor_legal:
  assumes "legal_table (cmake_flavors g)"
  shows "fails1 (setup_flavor g e pool results flav)"
  unfolding setup_flavor_def
  by (intro fails1_bind_right errs1_docmd errs1_dochdir errs1_emit_rebuild_scripts
            fails1_bind_left fails1_emit_cmake_cmd_script_legal assms)

lemma emits_no_job_setup_loop:
  assumes "legal_table (cmake_flavors g)"
  shows "emits (\<lambda>ev. \<not> pool_job ev) (setup_loop g e pool results flavs)"
  by (induction flavs arbitrary: results)
     (simp_all add: emits_return emits_bind emits_no_job_setup_flavor assms)

text \<open>The loop over the flavors hands nothing to the pool: if it returns, the list is empty.\<close>

lemma setup_loop_dispatches_nothing:
  assumes "legal_table (cmake_flavors g)" and "setup_loop g e pool [] flavs w = (Inr rs, w')"
  shows "rs = []"
proof (cases flavs)
  case Nil
  then show ?thesis using assms(2) by (simp add: return_def)
next
  case (Cons flav rest)
  have "fails1 (setup_loop g e pool [] (flav # rest))"
    by (simp add: fails1_bind_left fails1_setup_flavor_legal assms(1))
  then have False using assms(2) Cons by (auto simp: fails1_def dest: spec [of _ w])
  then show ?thesis ..
qed

lemma emits_no_job_do_setup_cmake:
  assumes "legal_table (cmake_flavors g)"
  shows "emits (\<lambda>ev. \<not> pool_job ev) (do_setup_cmake g e)"
  unfolding do_setup_cmake_def
proof (rule emits_bind)
  show "emits (\<lambda>ev. \<not> pool_job ev)
          (if flag_parallel g
           then bind (pool_create (length (cmake_flavors g))) (\<lambda>p. return (Some p))
           else return None)"
    by (intro emits_if emits_bind emits_return) (simp add: emits_def pool_create_def)
next
  fix pool
  show "emits (\<lambda>ev. \<not> pool_job ev)
          (bind (setup_loop g e pool [] (map fst (cmake_flavors g)))
             (\<lambda>results. await_results e results))"
  proof (rule emits_bind_value [OF emits_no_job_setup_loop [OF assms]])
    fix w rs w'
    assume "setup_loop g e pool [] (map fst (cmake_flavors g)) w = (Inr rs, w')"
    with assms have "rs = []" by (rule setup_loop_dispatches_nothing)
    then show "emits (\<lambda>ev. \<not> pool_job ev) (await_results e rs)"
      by (simp add: await_results_def bind_return emits_return)
  qed
qed

lemma emits_no_job_do_fetch: "emits (\<lambda>ev. \<not> pool_job ev) (do_fetch g e flavor wher)"
  unfolding do_fetch_def
  by (intro emits_bind emits_no_job)

lemma emits_no_job_fetch_in_volume: "emits (\<lambda>ev. \<not> pool_job ev) (fetch_in_volume g e)"
  unfolding fetch_in_volume_def Let_def
  by (intro emits_bind emits_no_job emits_no_job_do_fetch emits_u_docmdlines emits_seq_map)
     simp_all

lemma emits_no_job_do_subvol_create: "emits (\<lambda>ev. \<not> pool_job ev) (do_subvol_create g e)"
  unfolding do_subvol_create_def Let_def
  by (intro emits_bind emits_no_job)

lemma emits_no_job_do_snapshot_build: "emits (\<lambda>ev. \<not> pool_job ev) (do_snapshot_build g e)"
  unfolding do_snapshot_build_def
  by (intro emits_no_job emits_u_verbose) simp_all

lemma emits_no_job_do_snapshot_create:
  assumes "legal_table (cmake_flavors g)"
  shows "emits (\<lambda>ev. \<not> pool_job ev) (do_snapshot_create g e)"
  unfolding do_snapshot_create_def do_configure_binutils_def
  by (intro emits_no_job emits_no_job_fetch_in_volume emits_no_job_do_setup_cmake assms)

lemma emits_no_job_usage: "emits (\<lambda>ev. \<not> pool_job ev) (usage e msg)"
  unfolding usage_def Let_def
  by (intro emits_bind emits_if emits_emit emits_return emits_raise) simp_all

lemma emits_no_job_apply_opt: "emits (\<lambda>ev. \<not> pool_job ev) (apply_opt e g oa)"
  unfolding apply_opt_def Let_def
  by (intro emits_if emits_bind emits_emit emits_return emits_no_job_usage) simp_all

lemma emits_no_job_apply_opts: "emits (\<lambda>ev. \<not> pool_job ev) (apply_opts e g optlist)"
  by (induction optlist arbitrary: g)
     (simp_all add: emits_return emits_bind emits_no_job_apply_opt)

lemma emits_no_job_validate: "emits (\<lambda>ev. \<not> pool_job ev) (validate_flavors g)"
  unfolding validate_flavors_def
  by (intro emits_seq) (auto intro!: emits_seq emits_if emits_u_error emits_return)

lemma emits_no_job_parse_args: "emits (\<lambda>ev. \<not> pool_job ev) (parse_args g0 e argv)"
  unfolding parse_args_def Let_def
  by (intro emits_bind emits_if emits_no_job_usage emits_return emits_no_job_apply_opts
            emits_u_docmdlines emits_u_error emits_lift emits_u_verbose emits_no_job_validate
            emits_getcwd emits_ssdroot)
     (auto simp: emits_no_job_usage emits_return emits_raise emits_bind emits_no_job_apply_opts
                 emits_u_docmdlines emits_u_error emits_lift emits_u_verbose
                 emits_no_job_validate emits_getcwd emits_ssdroot
           split: sum.splits list.splits prod.splits
           intro!: emits_bind emits_if)

lemma emits_no_job_main: "emits (\<lambda>ev. \<not> pool_job ev) (main g0 e argv)"
  unfolding main_def
proof (rule emits_bind_value [OF emits_no_job_parse_args])
  fix w g w'
  assume "parse_args g0 e argv w = (Inr g, w')"
  then have legal: "legal_table (cmake_flavors g)" by (rule parse_args_legal)
  show "emits (\<lambda>ev. \<not> pool_job ev)
          (seq [emit SetLocale,
                if is_set (flag_snapshot g)
                then seq [do_snapshot_create g e, do_snapshot_build g e]
                else do_subvol_create g e,
                raise (SysExit 0)])"
    by (intro emits_no_job emits_emit emits_no_job_do_snapshot_create legal
              emits_no_job_do_snapshot_build emits_no_job_do_subvol_create) simp
qed

lemma getopt_parallel_snapshot:
  "getopt [''-r'', ''demo-vol'', ''-s'', ''demo-snap''] shortopts
     = Inr ([(''-r'', ''demo-vol''), (''-s'', ''demo-snap'')], [])"
  by code_simp

lemma apply_opts_parallel_snapshot:
  "apply_opts e g0 [(''-r'', ''demo-vol''), (''-s'', ''demo-snap'')] w
     = (Inr (g0\<lparr>flag_subvol := Some ''demo-vol'', flag_snapshot := Some ''demo-snap''\<rparr>), w)"
  by (simp add: apply_opt_def bind_def return_def)

lemma parse_args_parallel_snapshot:
  assumes "parse_args g0 e [''-r'', ''demo-vol'', ''-s'', ''demo-snap''] w = (Inr g, w1)"
  shows "is_set (flag_snapshot g)"
  using parse_args_flags [OF assms getopt_parallel_snapshot apply_opts_parallel_snapshot]
  by (simp add: is_set_def)

text \<open>
  The command line \<open>-r demo-vol -s demo-snap\<close> ends with exit status 1, whatever the world
  answers.
\<close>

lemma parallel_snapshot_exit_status:
  "\<exists>err w'. main globals0 e [''-r'', ''demo-vol'', ''-s'', ''demo-snap''] w = (Inl err, w')
            \<and> exit_status err = 1"
proof -
  obtain flav fd rest where tbl: "cmake_flavors globals0 = (flav, fd) # rest"
    by (simp add: globals0_def cmake_flavors_src_def)
  then have "(flav, fd) \<in> set cmake_flavors_src"
    by (simp add: globals0_def) (metis list.set_intros(1))
  then have k2: "map_of fd (KInt 2) = None" by (rule no_key_2)
  show ?thesis
  proof (rule snapshot_mode_aborts [OF tbl k2])
    fix g w1
    assume "parse_args globals0 e [''-r'', ''demo-vol'', ''-s'', ''demo-snap''] w = (Inr g, w1)"
    then show "is_set (flag_snapshot g)" by (rule parse_args_parallel_snapshot)
  qed
qed

lemma parallel_snapshot_flags:
  "(case parse_args globals0 env_ok [''-r'', ''demo-vol'', ''-s'', ''demo-snap''] world0 of
      (Inr g, w1) \<Rightarrow> flag_parallel g \<and> \<not> flag_dryrun g \<and> is_set (flag_snapshot g)
    | (Inl err, w1) \<Rightarrow> False)"
  by code_simp

text \<open>
  C6. The claim: with parallel execution on and dry-run off the runner waits for every
  dispatched configuration result, at most 600 per result, collects a flag for each and
  reports one aggregate fatal error after all of them when some invocation failed. The
  code: no run of the script, whatever the initial table, the world, the command line and
  the start state, ever hands a command to the pool (\<open>pool.apply_async\<close>) or waits for a
  result (\<open>r.get\<close>). The table that passes the check of its tags has no key 2, so
  \<open>tup[2]\<close> in \<open>emit_cmake_cmd_script\<close> ends the loop of \<open>do_setup_cmake\<close> in its first
  iteration, before the dispatch. At \<open>-r demo-vol -s demo-snap\<close> parallel execution is on,
  dry-run is off and snapshot mode is chosen, and the run ends with exit status 1 in every
  world.
\<close>

theorem parallel_run_never_dispatches:
  "(\<exists>evs. trace (snd (main g0 e argv w)) = trace w @ evs
          \<and> list_all (\<lambda>ev. \<not> pool_job ev) evs)
   \<and> (case parse_args globals0 env_ok [''-r'', ''demo-vol'', ''-s'', ''demo-snap''] world0 of
         (Inr g, w1) \<Rightarrow> flag_parallel g \<and> \<not> flag_dryrun g \<and> is_set (flag_snapshot g)
       | (Inl err, w1) \<Rightarrow> False)
   \<and> (\<exists>err w'. main globals0 e' [''-r'', ''demo-vol'', ''-s'', ''demo-snap''] w0 = (Inl err, w')
                \<and> exit_status err = 1)"
  using emitsD [OF emits_no_job_main, of g0 e argv w] parallel_snapshot_flags
        parallel_snapshot_exit_status [of e' w0]
  by blast

section \<open>The working directory after volume provisioning\<close>

lemma keeps_cwd_return: "keeps_cwd (return x)"
  by (simp add: keeps_cwd_def return_def)

lemma keeps_cwd_raise: "keeps_cwd (raise err)"
  by (simp add: keeps_cwd_def raise_def)

lemma keeps_cwd_emit: "keeps_cwd (emit ev)"
  by (simp add: keeps_cwd_def emit_def)

lemma keeps_cwd_getcwd: "keeps_cwd getcwd"
  by (simp add: keeps_cwd_def getcwd_def)

lemma keeps_cwd_bind:
  assumes "keeps_cwd p" and "\<And>x. keeps_cwd (f x)"
  shows "keeps_cwd (bind p f)"
  unfolding keeps_cwd_def
proof
  fix w
  obtain r w1 where pw: "p w = (r, w1)" by (cases "p w")
  then have c1: "cwd w1 = cwd w" using assms(1) by (auto simp: keeps_cwd_def dest: spec [of _ w])
  show "cwd (snd (bind p f w)) = cwd w"
  proof (cases r)
    case (Inl err)
    then show ?thesis using pw c1 by (simp add: bind_def)
  next
    case (Inr x)
    have "cwd (snd (f x w1)) = cwd w1" using assms(2) by (simp add: keeps_cwd_def)
    then show ?thesis using pw c1 Inr by (simp add: bind_def)
  qed
qed

lemma keeps_cwd_seq_Nil: "keeps_cwd (seq [])"
  by (simp add: keeps_cwd_return)

lemma keeps_cwd_seq_Cons: "keeps_cwd p \<Longrightarrow> keeps_cwd (seq ps) \<Longrightarrow> keeps_cwd (seq (p # ps))"
  by (simp add: keeps_cwd_bind)

lemma keeps_cwd_if:
  "(c \<Longrightarrow> keeps_cwd a) \<Longrightarrow> (\<not> c \<Longrightarrow> keeps_cwd b) \<Longrightarrow> keeps_cwd (if c then a else b)"
  by simp

lemma keeps_cwd_docmd: "keeps_cwd (docmd g e cmd)"
  by (simp add: keeps_cwd_def docmd_def bind_def return_def emit_def u_docmd_def
           split: option.splits)

lemma keeps_cwd_doscmd: "keeps_cwd (doscmd g e cmd)"
  by (simp add: keeps_cwd_def doscmd_def bind_def return_def emit_def u_doscmd_def
           split: option.splits)

lemma keeps_cwd_dochdir: "flag_dryrun g \<Longrightarrow> keeps_cwd (dochdir g e d)"
  by (simp add: keeps_cwd_def dochdir_def bind_def return_def emit_def)

lemma keeps_cwd_dochdir_opt: "flag_dryrun g \<Longrightarrow> keeps_cwd (dochdir_opt g e d)"
  by (cases d) (simp_all add: dochdir_opt_def keeps_cwd_raise keeps_cwd_dochdir)

lemma keeps_cwd_do_subvol_create:
  assumes "flag_dryrun g"
  shows "keeps_cwd (do_subvol_create g e)"
  unfolding do_subvol_create_def Let_def
  by (intro keeps_cwd_bind keeps_cwd_getcwd keeps_cwd_seq_Cons keeps_cwd_seq_Nil keeps_cwd_if
            keeps_cwd_docmd keeps_cwd_doscmd keeps_cwd_return
            keeps_cwd_dochdir [OF assms] keeps_cwd_dochdir_opt [OF assms])

lemma seq_last:
  assumes "seq ps w = (Inr (), w')" and "ps \<noteq> []"
  shows "\<exists>w1. last ps w1 = (Inr (), w')"
  using assms
proof (induction ps arbitrary: w)
  case Nil
  then show ?case by simp
next
  case (Cons p ps)
  show ?case
  proof (cases "ps = []")
    case True
    then show ?thesis using Cons.prems(1)
      by (auto simp: bind_def return_def split: prod.splits sum.splits)
  next
    case False
    from Cons.prems(1) obtain w1 where "seq ps w1 = (Inr (), w')"
      by (auto simp: bind_def split: prod.splits sum.splits)
    from Cons.IH [OF this False] show ?thesis using False by simp
  qed
qed

lemma dochdir_abs:
  assumes "dochdir g e d w1 = (Inr (), w')" and "\<not> flag_dryrun g" and "is_abs d"
  shows "cwd w' = d"
  using assms
  by (auto simp: dochdir_def bind_def return_def emit_def os_chdir_def u_error_def raise_def
                 path_join_def
           split: option.splits if_splits)

lemma bind_getcwd: "bind getcwd f w = f (cwd w) w"
  by (simp add: bind_def getcwd_def)

lemma returns_return: "returns (return ())"
  by (simp add: returns_def return_def)

lemma returns_emit: "returns (emit ev)"
  by (simp add: returns_def emit_def)

lemma returns_seq_Nil: "returns (seq [])"
  by (simp add: returns_return)

lemma returns_seq_Cons:
  assumes "returns p" and "returns (seq ps)"
  shows "returns (seq (p # ps))"
  unfolding returns_def
proof
  fix w
  from assms(1) obtain w1 where "p w = (Inr (), w1)" by (auto simp: returns_def)
  moreover from assms(2) obtain w2 where "seq ps w1 = (Inr (), w2)" by (auto simp: returns_def)
  ultimately show "\<exists>w'. seq (p # ps) w = (Inr (), w')" by (simp add: bind_def)
qed

lemma returns_if: "(c \<Longrightarrow> returns a) \<Longrightarrow> (\<not> c \<Longrightarrow> returns b) \<Longrightarrow> returns (if c then a else b)"
  by simp

lemma returns_docmd_ok: "returns (docmd g env_ok cmd)"
  by (simp add: returns_def docmd_def bind_def return_def emit_def u_docmd_def env_ok_def)

lemma returns_doscmd_ok: "returns (doscmd g env_ok cmd)"
  by (simp add: returns_def doscmd_def bind_def return_def emit_def u_doscmd_def env_ok_def)

lemma returns_dochdir_ok: "returns (dochdir g env_ok d)"
  by (simp add: returns_def dochdir_def bind_def return_def emit_def os_chdir_def env_ok_def)

lemma returns_bind_getcwd: "(\<And>here. returns (f here)) \<Longrightarrow> returns (bind getcwd f)"
  by (simp add: returns_def bind_getcwd)

lemma returns_dochdir_opt_ok: "d = Some s \<Longrightarrow> returns (dochdir_opt g env_ok d)"
  by (simp add: dochdir_opt_def returns_dochdir_ok)

text \<open>In a world where everything succeeds, volume provisioning returns.\<close>

lemma returns_do_subvol_create_ok:
  assumes "ssdroot g = Some root" and "flag_subvol g = Some vol"
  shows "returns (do_subvol_create g env_ok)"
  unfolding do_subvol_create_def Let_def
  by (intro returns_bind_getcwd returns_seq_Cons returns_seq_Nil returns_if returns_docmd_ok
            returns_doscmd_ok returns_dochdir_ok returns_return
            returns_dochdir_opt_ok [OF assms(1)] returns_dochdir_opt_ok [OF assms(2)])

text \<open>The core of both directions: a provisioning run that returns ends where it began.\<close>

lemma subvol_create_cwd:
  assumes "do_subvol_create g e w = (Inr (), w')" and "is_abs (cwd w)"
  shows "cwd w' = cwd w"
proof (cases "flag_dryrun g")
  case True
  then have "cwd (snd (do_subvol_create g e w)) = cwd w"
    using keeps_cwd_do_subvol_create [of g e] by (simp add: keeps_cwd_def)
  then show ?thesis using assms(1) by simp
next
  case False
  have "\<exists>w1. dochdir g e (cwd w) w1 = (Inr (), w')"
    using assms(1)
    apply (simp only: do_subvol_create_def bind_getcwd Let_def)
    apply (drule seq_last)
     apply simp
    apply (simp del: seq.simps)
    done
  then obtain w1 where "dochdir g e (cwd w) w1 = (Inr (), w')" by blast
  then show ?thesis using False assms(2) by (rule dochdir_abs)
qed

text \<open>
  C9 (amended). When volume provisioning returns, the working directory is the one the
  operation was entered with: it records \<open>os.getcwd()\<close> first and its last step
  changes back to it. (The working directory is an absolute path, as \<open>os.getcwd()\<close>
  returns it.)
\<close>

theorem subvol_create_restores_cwd:
  assumes "do_subvol_create g e w = (Inr (), w')" and "is_abs (cwd w)"
  shows "cwd w' = cwd w"
  using assms by (rule subvol_create_cwd)

lemma subvol_run_ok:
  "\<exists>w'. do_subvol_create globals_vol env_ok world0 = (Inr (), w')"
proof -
  have "returns (do_subvol_create globals_vol env_ok)"
    by (rule returns_do_subvol_create_ok [of _ "''/ssd''" "''demo-vol''"])
       (simp_all add: globals_vol_def)
  then show ?thesis by (simp add: returns_def)
qed

theorem subvol_create_restores_cwd_witness:
  "do_subvol_create globals_vol env_ok world0
     = (Inr (), snd (do_subvol_create globals_vol env_ok world0))
   \<and> is_abs (cwd world0)
   \<and> cwd (snd (do_subvol_create globals_vol env_ok world0)) = cwd world0"
proof -
  have run: "do_subvol_create globals_vol env_ok world0
               = (Inr (), snd (do_subvol_create globals_vol env_ok world0))"
    using subvol_run_ok by auto
  have abs: "is_abs (cwd world0)"
    by (simp add: is_abs_def world0_def)
  show ?thesis
    using run abs subvol_create_restores_cwd [OF run abs] by simp
qed

text \<open>
  C9 as stated fails: a real (not dry-run) provisioning of \<open>demo-vol\<close> started in
  \<open>/home/dev\<close> returns with the working directory \<open>/home/dev\<close>, not a changed one.
\<close>

theorem subvol_create_cwd_unchanged:
  "fst (do_subvol_create globals_vol env_ok world0) = Inr ()
   \<and> \<not> flag_dryrun globals_vol
   \<and> cwd world0 = ''/home/dev''
   \<and> cwd (snd (do_subvol_create globals_vol env_ok world0)) = ''/home/dev''"
proof -
  obtain w' where run: "do_subvol_create globals_vol env_ok world0 = (Inr (), w')"
    using subvol_run_ok by blast
  have abs: "is_abs (cwd world0)"
    by (simp add: is_abs_def world0_def)
  have "cwd w' = cwd world0"
    using run abs by (rule subvol_create_cwd)
  then show ?thesis
    using run by (simp add: world0_def globals_vol_def globals0_def)
qed

section \<open>Refresh before snapshot\<close>

lemma emits_do_fetch_no_snapshot:
  "emits (\<lambda>ev. \<not> is_snapshot_event g ev) (do_fetch g e flavor wher)"
  unfolding do_fetch_def
  by (intro emits_bind emits_getcwd emits_seq_Cons emits_seq_Nil emits_if emits_docmd
            emits_dochdir)
     (simp_all add: is_snapshot_event_def snap_cmd_def)

lemma emits_fetch_in_volume_no_snapshot:
  "emits (\<lambda>ev. \<not> is_snapshot_event g ev) (fetch_in_volume g e)"
  unfolding fetch_in_volume_def Let_def
  by (intro emits_bind emits_seq_Cons emits_seq_Nil emits_dochdir emits_do_fetch_no_snapshot
            emits_u_docmdlines emits_seq_map)
     (simp_all add: is_snapshot_event_def snap_cmd_def)

lemma docmd_trace: "trace (snd (docmd g e cmd w)) = trace w @ docmd_events g cmd"
  by (simp add: docmd_def docmd_events_def bind_def return_def emit_def u_docmd_def
           split: option.splits)

lemma refresh_event_log:
  "refresh_event (Stderr (''executing: '' @ cmd @ nl)) = (cmd \<in> set update_cmds)"
  by (auto simp: image_iff)

lemma refresh_event_cd: "\<not> refresh_event (Stderr (''cd '' @ d @ nl))"
  by (simp add: update_cmds_def)

lemma snap_cmd_no_update: "snap_cmd g \<notin> set update_cmds"
  by (simp add: snap_cmd_def update_cmds_def)

text \<open>Nothing that follows the refresh in \<open>do_snapshot_create\<close> is an event of a refresh.\<close>

lemma no_refresh_docmd:
  assumes "cmd \<notin> set update_cmds"
  shows "emits (\<lambda>ev. \<not> refresh_event ev) (docmd g e cmd)"
proof (rule emits_docmd)
  show "\<not> refresh_event (Stderr (''executing: '' @ cmd @ nl))"
    unfolding refresh_event_log by (rule assms)
  show "\<not> refresh_event (Exec cmd)"
    using assms by simp
qed

lemma no_refresh_doscmd:
  assumes "cmd \<notin> set update_cmds"
  shows "emits (\<lambda>ev. \<not> refresh_event ev) (doscmd g e cmd)"
proof (rule emits_doscmd)
  show "\<not> refresh_event (Stderr (''executing: '' @ cmd @ nl))"
    unfolding refresh_event_log by (rule assms)
  show "\<not> refresh_event (ExecS cmd False)"
    by simp
qed

lemma no_refresh_dochdir: "emits (\<lambda>ev. \<not> refresh_event ev) (dochdir g e d)"
proof (rule emits_dochdir)
  show "\<not> refresh_event (Stderr (''cd '' @ d @ nl))"
    by (rule refresh_event_cd)
  show "\<not> refresh_event (Chdir d)"
    by simp
qed

lemma no_refresh_dochdir_opt: "emits (\<lambda>ev. \<not> refresh_event ev) (dochdir_opt g e d)"
  by (cases d) (simp_all add: dochdir_opt_def emits_raise no_refresh_dochdir)

lemma no_refresh_do_configure_binutils:
  "emits (\<lambda>ev. \<not> refresh_event ev) (do_configure_binutils g e)"
  unfolding do_configure_binutils_def
  by (intro emits_seq_Cons emits_seq_Nil no_refresh_docmd no_refresh_doscmd no_refresh_dochdir)
     (simp_all add: update_cmds_def)

lemma no_refresh_emit_rebuild_scripts:
  "emits (\<lambda>ev. \<not> refresh_event ev) (emit_rebuild_scripts g e flav)"
  unfolding emit_rebuild_scripts_def Let_def
  by (intro emits_if emits_emit emits_seq_Cons emits_seq_Nil emits_write_file) simp_all

lemma no_refresh_emit_cmake_cmd_script:
  "emits (\<lambda>ev. \<not> refresh_event ev) (emit_cmake_cmd_script g e flav)"
  unfolding emit_cmake_cmd_script_def Let_def
  by (intro emits_bind emits_lift emits_if emits_emit emits_write_file emits_return) simp_all

text \<open>The cmake command is none of the update commands: it is longer than each of them.\<close>

lemma cmake_cmd_long:
  assumes "emit_cmake_cmd_script g e flav w = (Inr c, w')"
  shows "17 < length c"
  using assms unfolding emit_cmake_cmd_script_def Let_def
  by (auto simp: bind_def lift_def return_def raise_def emit_def write_file_def
           split: sum.splits option.splits if_splits prod.splits)

lemma cmake_cmd_no_update:
  assumes "emit_cmake_cmd_script g e flav w = (Inr c, w')"
  shows "c \<notin> set update_cmds"
  using cmake_cmd_long [OF assms] by (auto simp: update_cmds_def)

lemma no_refresh_setup_flavor:
  "emits (\<lambda>ev. \<not> refresh_event ev) (setup_flavor g e pool results flav)"
proof -
  have mk: "emits (\<lambda>ev. \<not> refresh_event ev) (docmd g e (''mkdir build.'' @ flav))"
    by (rule no_refresh_docmd) (simp add: update_cmds_def)
  have run: "emits (\<lambda>ev. \<not> refresh_event ev)
          (if flag_parallel g \<and> \<not> flag_dryrun g
           then bind (u_verbose 0 (''...kicking off cmake for '' @ flav @ '' in parallel...''))
                  (\<lambda>_. let builddir = fmt (ssdroot g) @ ''/'' @ fmt (flag_snapshot g)
                                       @ ''/build.'' @ flav
                        in case pool of
                             None \<Rightarrow> raise AttributeError
                           | Some p \<Rightarrow> bind (apply_async p builddir c)
                                        (\<lambda>r. return (results @ [r])))
           else bind (doscmd g e c) (\<lambda>_. return results))"
    if c: "c \<notin> set update_cmds" for c
  proof (cases pool)
    case None
    then show ?thesis
      by (intro emits_if emits_bind emits_u_verbose emits_return no_refresh_doscmd c)
         (simp_all add: emits_raise)
  next
    case (Some p)
    have "emits (\<lambda>ev. \<not> refresh_event ev) (apply_async p builddir c)" for builddir
      by (simp add: emits_def apply_async_def)
    then show ?thesis using Some
      by (intro emits_if emits_bind emits_u_verbose emits_return no_refresh_doscmd c)
         (simp_all add: emits_bind emits_return)
  qed
  have tail: "emits (\<lambda>ev. \<not> refresh_event ev)
          (bind (if flag_parallel g \<and> \<not> flag_dryrun g
           then bind (u_verbose 0 (''...kicking off cmake for '' @ flav @ '' in parallel...''))
                  (\<lambda>_. let builddir = fmt (ssdroot g) @ ''/'' @ fmt (flag_snapshot g)
                                       @ ''/build.'' @ flav
                        in case pool of
                             None \<Rightarrow> raise AttributeError
                           | Some p \<Rightarrow> bind (apply_async p builddir c)
                                        (\<lambda>r. return (results @ [r])))
           else bind (doscmd g e c) (\<lambda>_. return results))
            (\<lambda>results'. bind (dochdir g e ''..'') (\<lambda>_. return results')))"
    if "emit_cmake_cmd_script g e flav w = (Inr c, w')" for w c w'
    by (intro emits_bind no_refresh_dochdir emits_return run cmake_cmd_no_update [OF that])
  show ?thesis
    unfolding setup_flavor_def
    by (rule emits_bind [OF mk], rule emits_bind [OF no_refresh_dochdir],
        rule emits_bind [OF no_refresh_emit_rebuild_scripts],
        rule emits_bind_value [OF no_refresh_emit_cmake_cmd_script], rule tail)
qed

lemma no_refresh_setup_loop:
  "emits (\<lambda>ev. \<not> refresh_event ev) (setup_loop g e pool results flavs)"
  by (induction flavs arbitrary: results)
     (simp_all add: emits_return emits_bind no_refresh_setup_flavor)

lemma no_refresh_do_setup_cmake: "emits (\<lambda>ev. \<not> refresh_event ev) (do_setup_cmake g e)"
  unfolding do_setup_cmake_def
  by (intro emits_bind emits_if emits_return no_refresh_setup_loop emits_await_results)
     (simp_all add: emits_def pool_create_def)

lemma docmd_events_no_refresh:
  assumes "cmd \<notin> set update_cmds"
  shows "list_all (\<lambda>ev. \<not> refresh_event ev) (docmd_events g cmd)"
proof -
  have a: "\<not> refresh_event (Stderr (''executing: '' @ cmd @ nl))"
    unfolding refresh_event_log by (rule assms)
  have b: "\<not> refresh_event (Exec cmd)"
    using assms by simp
  show ?thesis
    unfolding docmd_events_def using a b by (simp del: refresh_event.simps)
qed

text \<open>What follows the refresh in \<open>do_snapshot_create\<close>.\<close>

lemma snapshot_tail_trace:
  "\<exists>rest. trace (snd (seq [docmd g e (snap_cmd g),
                          dochdir_opt g e (ssdroot g),
                          dochdir_opt g e (flag_snapshot g),
                          do_configure_binutils g e,
                          do_setup_cmake g e] w))
           = trace w @ docmd_events g (snap_cmd g) @ rest
         \<and> list_all (\<lambda>ev. \<not> refresh_event ev) (docmd_events g (snap_cmd g) @ rest)"
proof -
  let ?k = "seq [dochdir_opt g e (ssdroot g), dochdir_opt g e (flag_snapshot g),
                 do_configure_binutils g e, do_setup_cmake g e]"
  have k: "emits (\<lambda>ev. \<not> refresh_event ev) ?k"
    by (intro emits_seq_Cons emits_seq_Nil no_refresh_dochdir_opt
              no_refresh_do_configure_binutils no_refresh_do_setup_cmake)
  have s: "list_all (\<lambda>ev. \<not> refresh_event ev) (docmd_events g (snap_cmd g))"
    by (rule docmd_events_no_refresh) (rule snap_cmd_no_update)
  obtain r w1 where d: "docmd g e (snap_cmd g) w = (r, w1)"
    by (cases "docmd g e (snap_cmd g) w")
  have t1: "trace w1 = trace w @ docmd_events g (snap_cmd g)"
    using docmd_trace [of g e "snap_cmd g" w] d by simp
  show ?thesis
  proof (cases r)
    case (Inl err)
    then show ?thesis using d t1 s by (simp add: bind_def)
  next
    case (Inr u)
    from emitsD [OF k, of w1] obtain evs
      where "trace (snd (?k w1)) = trace w1 @ evs" "list_all (\<lambda>ev. \<not> refresh_event ev) evs"
      by blast
    then show ?thesis using d Inr t1 s by (simp add: bind_def)
  qed
qed

text \<open>A refresh that returns has fetched binutils and, after that, listed the working copies.\<close>

lemma grows:
  assumes "emits P p" and "p w = (r, w')"
  shows "\<exists>evs. trace w' = trace w @ evs"
  using emitsD [OF assms(1), of w] assms(2) by auto

lemma seq_Cons_returns:
  assumes "seq (p # ps) w = (Inr (), w')"
  shows "\<exists>w1. p w = (Inr (), w1) \<and> seq ps w1 = (Inr (), w')"
  using assms by (auto simp: bind_def split: prod.splits sum.splits)

lemma grows_dochdir: "dochdir g e d w = (r, w') \<Longrightarrow> \<exists>evs. trace w' = trace w @ evs"
  by (rule grows [of "\<lambda>_. True"]) (rule emits_dochdir, simp_all)

lemma do_fetch_git_trace:
  assumes "do_fetch g e ''git'' wher w = (Inr (), w')"
  shows "\<exists>pre post. trace w' = trace w @ pre @ docmd_events g ''git fetch'' @ post"
proof -
  from assms
  have "seq [dochdir g e wher, docmd g e ''git fetch'', dochdir g e (cwd w)] w = (Inr (), w')"
    by (simp add: do_fetch_def bind_def getcwd_def del: seq.simps)
  then obtain w1 where a: "dochdir g e wher w = (Inr (), w1)"
    and r1: "seq [docmd g e ''git fetch'', dochdir g e (cwd w)] w1 = (Inr (), w')"
    by (blast dest: seq_Cons_returns)
  from r1 obtain w2 where b: "docmd g e ''git fetch'' w1 = (Inr (), w2)"
    and r2: "seq [dochdir g e (cwd w)] w2 = (Inr (), w')"
    by (blast dest: seq_Cons_returns)
  from r2 obtain w3 where c: "dochdir g e (cwd w) w2 = (Inr (), w3)"
    and r3: "seq [] w3 = (Inr (), w')"
    by (blast dest: seq_Cons_returns)
  from r3 have w3: "w3 = w'" by (simp add: return_def)
  from grows_dochdir [OF a] obtain pre where 1: "trace w1 = trace w @ pre" by blast
  from docmd_trace [of g e "''git fetch''" w1] b
  have 2: "trace w2 = trace w1 @ docmd_events g ''git fetch''" by simp
  from grows_dochdir [OF c] w3 obtain post where 3: "trace w' = trace w2 @ post" by blast
  show ?thesis using 1 2 3 by (intro exI [of _ pre] exI [of _ post]) simp
qed

lemma fetch_in_volume_trace:
  assumes "fetch_in_volume g e w = (Inr (), w')"
  shows "\<exists>pre mid post. trace w' = trace w @ pre @ docmd_events g ''git fetch'' @ mid
                                     @ [ExecLines (find_cmd g)] @ post"
proof -
  let ?top = "fmt (ssdroot g) @ ''/'' @ fmt (flag_subvol g)"
  let ?loop = "\<lambda>lines. seq (map (\<lambda>line. do_fetch g e (flag_scm_flavor g) (strip line)) lines)"
  from assms
  have "seq [dochdir g e ?top, do_fetch g e ''git'' ''binutils'', dochdir g e ''llvm'',
             bind (u_docmdlines e (find_cmd g)) ?loop, dochdir g e ?top] w = (Inr (), w')"
    by (simp add: fetch_in_volume_def Let_def find_cmd_def del: seq.simps)
  then obtain w1 where a: "dochdir g e ?top w = (Inr (), w1)"
    and r1: "seq [do_fetch g e ''git'' ''binutils'', dochdir g e ''llvm'',
                  bind (u_docmdlines e (find_cmd g)) ?loop, dochdir g e ?top] w1 = (Inr (), w')"
    by (blast dest: seq_Cons_returns)
  from r1 obtain w2 where b: "do_fetch g e ''git'' ''binutils'' w1 = (Inr (), w2)"
    and r2: "seq [dochdir g e ''llvm'', bind (u_docmdlines e (find_cmd g)) ?loop,
                  dochdir g e ?top] w2 = (Inr (), w')"
    by (blast dest: seq_Cons_returns)
  from r2 obtain w3 where c: "dochdir g e ''llvm'' w2 = (Inr (), w3)"
    and r3: "seq [bind (u_docmdlines e (find_cmd g)) ?loop, dochdir g e ?top] w3 = (Inr (), w')"
    by (blast dest: seq_Cons_returns)
  from r3 obtain w4 where d: "bind (u_docmdlines e (find_cmd g)) ?loop w3 = (Inr (), w4)"
    and r4: "seq [dochdir g e ?top] w4 = (Inr (), w')"
    by (blast dest: seq_Cons_returns)
  from d obtain lines where l: "?loop lines (w3\<lparr>trace := trace w3 @ [ExecLines (find_cmd g)]\<rparr>)
                                  = (Inr (), w4)"
    by (auto simp: bind_def u_docmdlines_def split: sum.splits)
  have "emits (\<lambda>_. True) (?loop lines)"
    by (intro emits_seq_map emits_mono [OF emits_do_fetch_no_snapshot]) simp
  from grows [OF this l] obtain evs4
    where 4: "trace w4 = trace w3 @ [ExecLines (find_cmd g)] @ evs4" by auto
  have "emits (\<lambda>_. True) (seq [dochdir g e ?top])"
    by (intro emits_seq_Cons emits_seq_Nil emits_dochdir) simp_all
  from grows [OF this r4] obtain evs5 where 5: "trace w' = trace w4 @ evs5" by blast
  from grows_dochdir [OF a] obtain evs1 where 1: "trace w1 = trace w @ evs1" by blast
  from do_fetch_git_trace [OF b] obtain pre post
    where 2: "trace w2 = trace w1 @ pre @ docmd_events g ''git fetch'' @ post" by blast
  from grows_dochdir [OF c] obtain evs3 where 3: "trace w3 = trace w2 @ evs3" by blast
  have "trace w' = trace w @ (evs1 @ pre) @ docmd_events g ''git fetch'' @ (post @ evs3)
                     @ [ExecLines (find_cmd g)] @ (evs4 @ evs5)"
    using 1 2 3 4 5 by simp
  then show ?thesis by blast
qed

lemma refresh_events_of_refresh:
  "refresh_event (ExecLines (find_cmd g))
   \<and> list_all refresh_event (docmd_events g ''git fetch'')"
  by (simp add: find_cmd_def docmd_events_def update_cmds_def)

text \<open>
  C8. With the refresh flag set: no event of the refresh is the snapshot command; a
  refresh that ends the run ends snapshot creation there, with no snapshot command; a
  refresh that returns has fetched binutils and listed the working copies, the snapshot
  command is the very next thing in the trace, and no event of a refresh follows it. With
  the flag unset: the snapshot command is the first thing snapshot creation does, and
  the run contains no event of a refresh at all.
\<close>

theorem refresh_precedes_snapshot:
  "(flag_do_fetch g \<longrightarrow>
      (\<exists>evs. trace (snd (fetch_in_volume g e w)) = trace w @ evs
             \<and> list_all (\<lambda>ev. \<not> is_snapshot_event g ev) evs)
      \<and> (\<forall>err w1. fetch_in_volume g e w = (Inl err, w1) \<longrightarrow>
            do_snapshot_create g e w = (Inl err, w1))
      \<and> (\<forall>w1. fetch_in_volume g e w = (Inr (), w1) \<longrightarrow>
            (\<exists>pre mid post. trace w1 = trace w @ pre @ docmd_events g ''git fetch'' @ mid
                                          @ [ExecLines (find_cmd g)] @ post)
            \<and> refresh_event (ExecLines (find_cmd g))
            \<and> list_all refresh_event (docmd_events g ''git fetch'')
            \<and> (\<exists>rest. trace (snd (do_snapshot_create g e w))
                        = trace w1 @ docmd_events g (snap_cmd g) @ rest
                      \<and> list_all (\<lambda>ev. \<not> refresh_event ev)
                                 (docmd_events g (snap_cmd g) @ rest))))
   \<and> (\<not> flag_do_fetch g \<longrightarrow>
        (\<exists>rest. trace (snd (do_snapshot_create g e w))
                  = trace w @ docmd_events g (snap_cmd g) @ rest
                \<and> list_all (\<lambda>ev. \<not> refresh_event ev) (docmd_events g (snap_cmd g) @ rest)))"
proof -
  have a: "\<exists>evs. trace (snd (fetch_in_volume g e w)) = trace w @ evs
             \<and> list_all (\<lambda>ev. \<not> is_snapshot_event g ev) evs"
    using emits_fetch_in_volume_no_snapshot by (rule emitsD)
  have b: "do_snapshot_create g e w = (Inl err, w1)"
    if "flag_do_fetch g" and "fetch_in_volume g e w = (Inl err, w1)" for err w1
    using that by (simp add: do_snapshot_create_def bind_def)
  have c: "\<exists>rest. trace (snd (do_snapshot_create g e w))
                    = trace w1 @ docmd_events g (snap_cmd g) @ rest
                  \<and> list_all (\<lambda>ev. \<not> refresh_event ev) (docmd_events g (snap_cmd g) @ rest)"
    if "flag_do_fetch g" and "fetch_in_volume g e w = (Inr (), w1)" for w1
  proof -
    have "do_snapshot_create g e w
            = seq [docmd g e (snap_cmd g), dochdir_opt g e (ssdroot g),
                   dochdir_opt g e (flag_snapshot g), do_configure_binutils g e,
                   do_setup_cmake g e] w1"
      using that by (simp add: do_snapshot_create_def bind_def snap_cmd_def)
    then show ?thesis using snapshot_tail_trace [of g e w1] by simp
  qed
  have d: "\<exists>rest. trace (snd (do_snapshot_create g e w))
                    = trace w @ docmd_events g (snap_cmd g) @ rest
                  \<and> list_all (\<lambda>ev. \<not> refresh_event ev) (docmd_events g (snap_cmd g) @ rest)"
    if "\<not> flag_do_fetch g"
  proof -
    have "do_snapshot_create g e w
            = seq [docmd g e (snap_cmd g), dochdir_opt g e (ssdroot g),
                   dochdir_opt g e (flag_snapshot g), do_configure_binutils g e,
                   do_setup_cmake g e] w"
      using that by (simp add: do_snapshot_create_def bind_def return_def snap_cmd_def)
    then show ?thesis using snapshot_tail_trace [of g e w] by simp
  qed
  have f: "\<exists>pre mid post. trace w1 = trace w @ pre @ docmd_events g ''git fetch'' @ mid
                                       @ [ExecLines (find_cmd g)] @ post"
    if "fetch_in_volume g e w = (Inr (), w1)" for w1
    using that by (rule fetch_in_volume_trace)
  note r = refresh_events_of_refresh [of g]
  show ?thesis
    using a b c d f r by blast
qed

lemma returns_seq: "(\<And>p. p \<in> set ps \<Longrightarrow> returns p) \<Longrightarrow> returns (seq ps)"
proof (induction ps)
  case Nil
  show ?case by (rule returns_seq_Nil)
next
  case (Cons p ps)
  show ?case
    by (rule returns_seq_Cons) (simp_all add: Cons)
qed

lemma returns_bind_docmdlines_ok:
  "(\<And>lines. returns (f lines)) \<Longrightarrow> returns (bind (u_docmdlines env_ok cmd) f)"
  by (simp add: returns_def bind_def u_docmdlines_def env_ok_def)

lemma returns_do_fetch_ok: "returns (do_fetch g env_ok flavor wher)"
  unfolding do_fetch_def
  by (intro returns_bind_getcwd returns_seq_Cons returns_seq_Nil returns_if returns_docmd_ok
            returns_dochdir_ok)

lemma returns_fetch_in_volume_ok: "returns (fetch_in_volume g env_ok)"
  unfolding fetch_in_volume_def Let_def
  by (intro returns_seq_Cons returns_seq_Nil returns_dochdir_ok returns_do_fetch_ok
            returns_bind_docmdlines_ok returns_seq)
     (auto simp: returns_do_fetch_ok)

lemma refresh_demo_events:
  "docmd_events globals_refresh ''git fetch''
     = [Stderr (''executing: git fetch'' @ nl), Exec ''git fetch'']
   \<and> find_cmd globals_refresh = ''find . -depth -name .git -print''
   \<and> docmd_events globals_refresh (snap_cmd globals_refresh)
       = [Stderr (''executing: snapshotutil.py mksnap demo-vol demo-snap'' @ nl),
          Exec ''snapshotutil.py mksnap demo-vol demo-snap'']
   \<and> docmd_events (globals_refresh\<lparr>flag_do_fetch := False\<rparr>)
         (snap_cmd (globals_refresh\<lparr>flag_do_fetch := False\<rparr>))
       = [Stderr (''executing: snapshotutil.py mksnap demo-vol demo-snap'' @ nl),
          Exec ''snapshotutil.py mksnap demo-vol demo-snap'']"
  by (simp add: docmd_events_def find_cmd_def snap_cmd_def globals_refresh_def globals0_def
                fmt_def)

theorem refresh_precedes_snapshot_witness:
  "flag_do_fetch globals_refresh
   \<and> fetch_in_volume globals_refresh env_ok world0
       = (Inr (), snd (fetch_in_volume globals_refresh env_ok world0))
   \<and> (\<exists>pre mid post.
         trace (snd (fetch_in_volume globals_refresh env_ok world0))
           = trace world0 @ pre @ [Stderr (''executing: git fetch'' @ nl), Exec ''git fetch'']
             @ mid @ [ExecLines ''find . -depth -name .git -print''] @ post)
   \<and> (\<exists>rest. trace (snd (do_snapshot_create globals_refresh env_ok world0))
               = trace (snd (fetch_in_volume globals_refresh env_ok world0))
                 @ [Stderr (''executing: snapshotutil.py mksnap demo-vol demo-snap'' @ nl),
                    Exec ''snapshotutil.py mksnap demo-vol demo-snap'']
                 @ rest
             \<and> list_all (\<lambda>ev. \<not> refresh_event ev) rest)
   \<and> \<not> flag_do_fetch (globals_refresh\<lparr>flag_do_fetch := False\<rparr>)
   \<and> (\<exists>rest. trace (snd (do_snapshot_create (globals_refresh\<lparr>flag_do_fetch := False\<rparr>)
                               env_ok world0))
               = trace world0
                 @ [Stderr (''executing: snapshotutil.py mksnap demo-vol demo-snap'' @ nl),
                    Exec ''snapshotutil.py mksnap demo-vol demo-snap'']
                 @ rest
             \<and> list_all (\<lambda>ev. \<not> refresh_event ev) rest)"
proof -
  have f: "flag_do_fetch globals_refresh"
    by (simp add: globals_refresh_def)
  have nf: "\<not> flag_do_fetch (globals_refresh\<lparr>flag_do_fetch := False\<rparr>)"
    by simp
  have run: "fetch_in_volume globals_refresh env_ok world0
               = (Inr (), snd (fetch_in_volume globals_refresh env_ok world0))"
  proof -
    obtain w' where "fetch_in_volume globals_refresh env_ok world0 = (Inr (), w')"
      using returns_fetch_in_volume_ok [of globals_refresh] by (auto simp: returns_def)
    then show ?thesis by simp
  qed
  note ev = refresh_demo_events
  from f run refresh_precedes_snapshot [of globals_refresh env_ok world0]
  have 1: "\<exists>pre mid post.
         trace (snd (fetch_in_volume globals_refresh env_ok world0))
           = trace world0 @ pre @ docmd_events globals_refresh ''git fetch''
             @ mid @ [ExecLines (find_cmd globals_refresh)] @ post"
    and 2: "\<exists>rest. trace (snd (do_snapshot_create globals_refresh env_ok world0))
               = trace (snd (fetch_in_volume globals_refresh env_ok world0))
                 @ docmd_events globals_refresh (snap_cmd globals_refresh) @ rest
             \<and> list_all (\<lambda>ev. \<not> refresh_event ev)
                   (docmd_events globals_refresh (snap_cmd globals_refresh) @ rest)"
    by (blast+)
  from nf refresh_precedes_snapshot [of "globals_refresh\<lparr>flag_do_fetch := False\<rparr>" env_ok world0]
  have 3: "\<exists>rest. trace (snd (do_snapshot_create (globals_refresh\<lparr>flag_do_fetch := False\<rparr>)
                               env_ok world0))
               = trace world0
                 @ docmd_events (globals_refresh\<lparr>flag_do_fetch := False\<rparr>)
                     (snap_cmd (globals_refresh\<lparr>flag_do_fetch := False\<rparr>)) @ rest
             \<and> list_all (\<lambda>ev. \<not> refresh_event ev)
                   (docmd_events (globals_refresh\<lparr>flag_do_fetch := False\<rparr>)
                     (snap_cmd (globals_refresh\<lparr>flag_do_fetch := False\<rparr>)) @ rest)"
    by blast
  from 1 have e1: "\<exists>pre mid post.
         trace (snd (fetch_in_volume globals_refresh env_ok world0))
           = trace world0 @ pre @ [Stderr (''executing: git fetch'' @ nl), Exec ''git fetch'']
             @ mid @ [ExecLines ''find . -depth -name .git -print''] @ post"
    unfolding ev [THEN conjunct1] ev [THEN conjunct2, THEN conjunct1] .
  from 2 have e2: "\<exists>rest. trace (snd (do_snapshot_create globals_refresh env_ok world0))
               = trace (snd (fetch_in_volume globals_refresh env_ok world0))
                 @ [Stderr (''executing: snapshotutil.py mksnap demo-vol demo-snap'' @ nl),
                    Exec ''snapshotutil.py mksnap demo-vol demo-snap'']
                 @ rest
             \<and> list_all (\<lambda>ev. \<not> refresh_event ev) rest"
    unfolding ev [THEN conjunct2, THEN conjunct2, THEN conjunct1] list_all_append by blast
  from 3 have e3: "\<exists>rest. trace (snd (do_snapshot_create (globals_refresh\<lparr>flag_do_fetch := False\<rparr>)
                               env_ok world0))
               = trace world0
                 @ [Stderr (''executing: snapshotutil.py mksnap demo-vol demo-snap'' @ nl),
                    Exec ''snapshotutil.py mksnap demo-vol demo-snap'']
                 @ rest
             \<and> list_all (\<lambda>ev. \<not> refresh_event ev) rest"
    unfolding ev [THEN conjunct2, THEN conjunct2, THEN conjunct2] list_all_append by blast
  show ?thesis
    using f nf run e1 e2 e3 by blast
qed

section \<open>The checkout method of each repository\<close>

lemma mustD:
  "must Q p \<Longrightarrow> p w = (Inr (), w') \<Longrightarrow> \<exists>evs ev. trace w' = trace w @ evs \<and> ev \<in> set evs \<and> Q ev"
  unfolding must_def by blast

lemma must_seq_here:
  assumes "must Q p" and "emits (\<lambda>_. True) (seq ps)"
  shows "must Q (seq (p # ps))"
  unfolding must_def
proof (intro allI impI)
  fix w w'
  assume run: "seq (p # ps) w = (Inr (), w')"
  then obtain w1 where p: "p w = (Inr (), w1)" and rest: "seq ps w1 = (Inr (), w')"
    by (auto simp: bind_def split: prod.splits sum.splits)
  from mustD [OF assms(1) p] obtain evs ev
    where evs: "trace w1 = trace w @ evs" "ev \<in> set evs" "Q ev" by blast
  from emitsD [OF assms(2), of w1] rest obtain evs' where "trace w' = trace w1 @ evs'"
    by auto
  then show "\<exists>evs. trace w' = trace w @ evs \<and> (\<exists>ev \<in> set evs. Q ev)"
    using evs by (intro exI [of _ "evs @ evs'"]) auto
qed

lemma must_seq_later:
  assumes "emits (\<lambda>_. True) p" and "must Q (seq ps)"
  shows "must Q (seq (p # ps))"
  unfolding must_def
proof (intro allI impI)
  fix w w'
  assume run: "seq (p # ps) w = (Inr (), w')"
  then obtain w1 where p: "p w = (Inr (), w1)" and rest: "seq ps w1 = (Inr (), w')"
    by (auto simp: bind_def split: prod.splits sum.splits)
  from emitsD [OF assms(1), of w] p obtain evs where e1: "trace w1 = trace w @ evs"
    by auto
  from mustD [OF assms(2) rest] obtain evs' ev
    where "trace w' = trace w1 @ evs'" "ev \<in> set evs'" "Q ev" by blast
  then show "\<exists>evs. trace w' = trace w @ evs \<and> (\<exists>ev \<in> set evs. Q ev)"
    using e1 by (intro exI [of _ "evs @ evs'"]) auto
qed

lemma must_at:
  assumes "must Q (ps ! i)" and "i < length ps" and "list_all (emits (\<lambda>_. True)) ps"
  shows "must Q (seq ps)"
  using assms
proof (induction ps arbitrary: i)
  case Nil
  then show ?case by simp
next
  case (Cons p ps)
  from Cons.prems(3) have ep: "emits (\<lambda>_. True) p" and eps: "list_all (emits (\<lambda>_. True)) ps"
    by simp_all
  have erest: "emits (\<lambda>_. True) (seq ps)"
    using eps by (intro emits_seq) (simp add: list_all_iff)
  show ?case
  proof (cases i)
    case 0
    then have "must Q p" using Cons.prems(1) by simp
    then show ?thesis using erest by (rule must_seq_here)
  next
    case (Suc j)
    then have "must Q (ps ! j)" "j < length ps" using Cons.prems(1,2) by simp_all
    then have "must Q (seq ps)" using eps by (rule Cons.IH)
    with ep show ?thesis by (rule must_seq_later)
  qed
qed

lemma must_bind_getcwd: "(\<And>here. must Q (f here)) \<Longrightarrow> must Q (bind getcwd f)"
  by (simp add: must_def bind_def getcwd_def)

lemma must_issue:
  assumes "flag_echo g \<or> \<not> flag_dryrun g"
  shows "must (issue_of cmd) (doscmd g e cmd)"
  unfolding must_def
proof (intro allI impI)
  fix w w'
  assume run: "doscmd g e cmd w = (Inr (), w')"
  let ?evs = "(if flag_echo g then [Stderr (''executing: '' @ cmd @ nl)] else [])
              @ (if flag_dryrun g then [] else [ExecS cmd False])"
  have "trace w' = trace w @ ?evs"
    using run
    by (auto simp: doscmd_def bind_def return_def emit_def u_doscmd_def
             split: option.splits if_splits)
  moreover have "\<exists>ev \<in> set ?evs. issue_of cmd ev"
    using assms by (auto simp: issue_of_def)
  ultimately show "\<exists>evs. trace w' = trace w @ evs \<and> (\<exists>ev \<in> set evs. issue_of cmd ev)"
    by blast
qed

lemma avoids_return: "avoids c (return x)"
  by (simp add: avoids_def emits_return)

lemma avoids_if:
  "(b \<Longrightarrow> avoids c p1) \<Longrightarrow> (\<not> b \<Longrightarrow> avoids c p2) \<Longrightarrow> avoids c (if b then p1 else p2)"
  by simp

lemma avoids_seq_Nil: "avoids c (seq [])"
  by (simp add: avoids_def emits_return)

lemma avoids_seq_Cons: "avoids c p \<Longrightarrow> avoids c (seq ps) \<Longrightarrow> avoids c (seq (p # ps))"
  unfolding avoids_def by (rule emits_seq_Cons)

lemma avoids_bind_getcwd: "(\<And>here. avoids c (f here)) \<Longrightarrow> avoids c (bind getcwd f)"
  unfolding avoids_def by (intro emits_bind emits_getcwd)

lemma avoids_docmd: "cmd \<noteq> c \<Longrightarrow> avoids c (docmd g e cmd)"
  unfolding avoids_def by (rule emits_docmd) (simp_all add: issue_of_def)

lemma avoids_doscmd: "cmd \<noteq> c \<Longrightarrow> avoids c (doscmd g e cmd)"
  unfolding avoids_def by (rule emits_doscmd) (simp_all add: issue_of_def)

lemma avoids_dochdir: "avoids c (dochdir g e d)"
  unfolding avoids_def by (rule emits_dochdir) (simp_all add: issue_of_def)

lemma avoids_dochdir_opt: "avoids c (dochdir_opt g e d)"
  unfolding avoids_def by (rule emits_dochdir_opt) (simp_all add: issue_of_def)

lemmas cmd_defs = llvm_svn_def llvm_clone_def clang_svn_def clang_clone_def tools_svn_def
  tools_clone_def llgo_svn_def llgo_clone_def rt_svn_def rt_clone_def

lemma do_subvol_create_steps:
  "do_subvol_create g e = bind getcwd (\<lambda>here. seq (subvol_steps g e here))"
  unfolding do_subvol_create_def subvol_steps_def checkout_def cmd_defs Let_def
  by (simp only: append_assoc)

lemma length_subvol_steps: "length (subvol_steps g e here) = 13"
  by (simp add: subvol_steps_def)

lemma emits_any_docmd: "emits (\<lambda>_. True) (docmd g e cmd)"
  by (rule emits_docmd) simp_all

lemma emits_any_doscmd: "emits (\<lambda>_. True) (doscmd g e cmd)"
  by (rule emits_doscmd) simp_all

lemma emits_any_dochdir: "emits (\<lambda>_. True) (dochdir g e d)"
  by (rule emits_dochdir) simp_all

lemma emits_any_dochdir_opt: "emits (\<lambda>_. True) (dochdir_opt g e d)"
  by (rule emits_dochdir_opt) simp_all

lemma emits_any_checkout: "emits (\<lambda>_. True) (checkout g e use_svn svn_cmd git_cmd dir trunk)"
  unfolding checkout_def
  by (intro emits_if emits_seq_Cons emits_seq_Nil emits_return emits_any_doscmd
            emits_any_dochdir)

lemma emits_any_steps: "list_all (emits (\<lambda>_. True)) (subvol_steps g e here)"
  unfolding subvol_steps_def list_all_Cons_iff list_all_Nil_iff
  by (intro conjI TrueI emits_if emits_seq_Cons emits_seq_Nil emits_return emits_any_docmd
            emits_any_doscmd emits_any_dochdir emits_any_dochdir_opt emits_any_checkout)

lemma must_subvol:
  assumes "\<And>here. must Q (subvol_steps g e here ! i)" and "i < 13"
  shows "must Q (do_subvol_create g e)"
  unfolding do_subvol_create_steps
  by (rule must_bind_getcwd, rule must_at [where i = i])
     (simp_all add: assms length_subvol_steps emits_any_steps)

lemma must_checkout_svn:
  "use_svn \<Longrightarrow> flag_echo g \<or> \<not> flag_dryrun g \<Longrightarrow>
     must (issue_of svn_cmd) (checkout g e use_svn svn_cmd git_cmd dir trunk)"
  by (simp add: checkout_def must_issue)

lemma must_checkout_git:
  assumes "\<not> use_svn" and "flag_echo g \<or> \<not> flag_dryrun g"
  shows "must (issue_of git_cmd) (checkout g e use_svn svn_cmd git_cmd dir trunk)"
  unfolding checkout_def if_not_P [OF assms(1)]
  by (rule must_seq_here [OF must_issue [OF assms(2)]])
     (intro emits_if emits_seq_Cons emits_seq_Nil emits_return emits_any_doscmd
            emits_any_dochdir)

text \<open>The optional blocks: a directory change, then the checkout.\<close>

lemma must_optional:
  assumes "must Q p"
  shows "must Q (seq [dochdir g e d, p])"
  by (intro must_seq_later must_seq_here emits_any_dochdir emits_seq_Nil assms)

lemma avoids_checkout:
  assumes "use_svn \<Longrightarrow> svn_cmd \<noteq> c" and "\<not> use_svn \<Longrightarrow> git_cmd \<noteq> c"
    and "is_checkout_cmd c"
  shows "avoids c (checkout g e use_svn svn_cmd git_cmd dir trunk)"
proof -
  have b1: "''git svn init '' @ llvm_git_on_svn @ trunk @ ''--username='' @ fmt (flag_user g) \<noteq> c"
    using assms(3) by (auto simp: is_checkout_cmd_def)
  have b2: "''git config svn-remote.svn.fetch :refs/remotes/origin/master'' \<noteq> c"
    using assms(3) by (auto simp: is_checkout_cmd_def)
  have b3: "''git svn rebase -l'' \<noteq> c"
    using assms(3) by (auto simp: is_checkout_cmd_def)
  show ?thesis
    unfolding checkout_def
    by (intro avoids_if avoids_seq_Cons avoids_seq_Nil avoids_return avoids_dochdir
              avoids_doscmd assms(1,2) b1 b2 b3)
qed

lemma avoids_subvol:
  assumes "\<And>here. list_all (avoids c) (subvol_steps g e here)"
  shows "avoids c (do_subvol_create g e)"
proof -
  have "emits (\<lambda>ev. \<not> issue_of c ev) (seq (subvol_steps g e here))" for here
  proof (rule emits_seq)
    fix p
    assume "p \<in> set (subvol_steps g e here)"
    then show "emits (\<lambda>ev. \<not> issue_of c ev) p"
      using assms [of here] by (simp add: avoids_def list_all_iff)
  qed
  then show ?thesis
    unfolding do_subvol_create_steps avoids_def
    by (intro emits_bind emits_getcwd)
qed

lemma llvm_svn_neq_tools_svn: "llvm_svn g \<noteq> tools_svn"
proof -
  have "last (llvm_svn g) = CHR ''m''" by (simp add: llvm_svn_def)
  moreover have "last tools_svn = CHR ''a''" by (simp add: tools_svn_def llvm_ro_svn_def)
  ultimately show ?thesis by auto
qed

lemma llvm_svn_neq_llgo_svn: "llvm_svn g \<noteq> llgo_svn"
proof -
  have "last (llvm_svn g) = CHR ''m''" by (simp add: llvm_svn_def)
  moreover have "last llgo_svn = CHR ''o''" by (simp add: llgo_svn_def llvm_ro_svn_def)
  ultimately show ?thesis by auto
qed

lemmas url_defs = llvm_ro_svn_def llvm_git_def clang_git_def clang_tools_git_def
  compiler_rt_git_def llgo_git_def binutils_git_def

lemma is_checkout_cmds:
  "is_checkout_cmd (llvm_svn g)" "is_checkout_cmd llvm_clone"
  "is_checkout_cmd clang_svn" "is_checkout_cmd clang_clone"
  "is_checkout_cmd tools_svn" "is_checkout_cmd tools_clone"
  "is_checkout_cmd llgo_svn" "is_checkout_cmd llgo_clone"
  "is_checkout_cmd rt_svn" "is_checkout_cmd rt_clone"
  by (simp_all add: is_checkout_cmd_def cmd_defs)

text \<open>What each flavor rules out, and what it issues.\<close>

lemma avoids_tools_clone:
  assumes "flag_scm_flavor g = ''git''"
  shows "avoids tools_clone (do_subvol_create g e)"
proof (rule avoids_subvol)
  fix here
  show "list_all (avoids tools_clone) (subvol_steps g e here)"
    unfolding subvol_steps_def list_all_Cons_iff list_all_Nil_iff
    by (intro conjI TrueI avoids_if avoids_seq_Cons avoids_seq_Nil avoids_return avoids_docmd
              avoids_doscmd avoids_dochdir avoids_dochdir_opt avoids_checkout
              is_checkout_cmds llvm_svn_neq_tools_svn llvm_svn_neq_llgo_svn
              llvm_svn_neq_tools_svn [symmetric] llvm_svn_neq_llgo_svn [symmetric])
       (simp_all add: assms cmd_defs url_defs)
qed

lemma avoids_tools_svn:
  assumes "flag_scm_flavor g \<noteq> ''git''"
  shows "avoids tools_svn (do_subvol_create g e)"
proof (rule avoids_subvol)
  fix here
  show "list_all (avoids tools_svn) (subvol_steps g e here)"
    unfolding subvol_steps_def list_all_Cons_iff list_all_Nil_iff
    by (intro conjI TrueI avoids_if avoids_seq_Cons avoids_seq_Nil avoids_return avoids_docmd
              avoids_doscmd avoids_dochdir avoids_dochdir_opt avoids_checkout
              is_checkout_cmds llvm_svn_neq_tools_svn llvm_svn_neq_llgo_svn
              llvm_svn_neq_tools_svn [symmetric] llvm_svn_neq_llgo_svn [symmetric])
       (simp_all add: assms cmd_defs url_defs)
qed

lemma avoids_llgo_clone:
  assumes "flag_scm_flavor g = ''git''"
  shows "avoids llgo_clone (do_subvol_create g e)"
proof (rule avoids_subvol)
  fix here
  show "list_all (avoids llgo_clone) (subvol_steps g e here)"
    unfolding subvol_steps_def list_all_Cons_iff list_all_Nil_iff
    by (intro conjI TrueI avoids_if avoids_seq_Cons avoids_seq_Nil avoids_return avoids_docmd
              avoids_doscmd avoids_dochdir avoids_dochdir_opt avoids_checkout
              is_checkout_cmds llvm_svn_neq_tools_svn llvm_svn_neq_llgo_svn
              llvm_svn_neq_tools_svn [symmetric] llvm_svn_neq_llgo_svn [symmetric])
       (simp_all add: assms cmd_defs url_defs)
qed

lemma avoids_llgo_svn:
  assumes "flag_scm_flavor g \<noteq> ''git''"
  shows "avoids llgo_svn (do_subvol_create g e)"
proof (rule avoids_subvol)
  fix here
  show "list_all (avoids llgo_svn) (subvol_steps g e here)"
    unfolding subvol_steps_def list_all_Cons_iff list_all_Nil_iff
    by (intro conjI TrueI avoids_if avoids_seq_Cons avoids_seq_Nil avoids_return avoids_docmd
              avoids_doscmd avoids_dochdir avoids_dochdir_opt avoids_checkout
              is_checkout_cmds llvm_svn_neq_tools_svn llvm_svn_neq_llgo_svn
              llvm_svn_neq_tools_svn [symmetric] llvm_svn_neq_llgo_svn [symmetric])
       (simp_all add: assms cmd_defs url_defs)
qed

lemma avoids_llvm_clone:
  assumes "flag_scm_flavor g = ''svn''"
  shows "avoids llvm_clone (do_subvol_create g e)"
proof (rule avoids_subvol)
  fix here
  show "list_all (avoids llvm_clone) (subvol_steps g e here)"
    unfolding subvol_steps_def list_all_Cons_iff list_all_Nil_iff
    by (intro conjI TrueI avoids_if avoids_seq_Cons avoids_seq_Nil avoids_return avoids_docmd
              avoids_doscmd avoids_dochdir avoids_dochdir_opt avoids_checkout
              is_checkout_cmds llvm_svn_neq_tools_svn llvm_svn_neq_llgo_svn
              llvm_svn_neq_tools_svn [symmetric] llvm_svn_neq_llgo_svn [symmetric])
       (simp_all add: assms cmd_defs url_defs)
qed

lemma avoids_llvm_svn:
  assumes "flag_scm_flavor g \<noteq> ''svn''"
  shows "avoids (llvm_svn g) (do_subvol_create g e)"
proof (rule avoids_subvol)
  fix here
  show "list_all (avoids (llvm_svn g)) (subvol_steps g e here)"
    unfolding subvol_steps_def list_all_Cons_iff list_all_Nil_iff
    by (intro conjI TrueI avoids_if avoids_seq_Cons avoids_seq_Nil avoids_return avoids_docmd
              avoids_doscmd avoids_dochdir avoids_dochdir_opt avoids_checkout
              is_checkout_cmds llvm_svn_neq_tools_svn llvm_svn_neq_llgo_svn
              llvm_svn_neq_tools_svn [symmetric] llvm_svn_neq_llgo_svn [symmetric])
       (simp_all add: assms cmd_defs url_defs)
qed

lemma avoids_clang_clone:
  assumes "flag_scm_flavor g = ''svn''"
  shows "avoids clang_clone (do_subvol_create g e)"
proof (rule avoids_subvol)
  fix here
  show "list_all (avoids clang_clone) (subvol_steps g e here)"
    unfolding subvol_steps_def list_all_Cons_iff list_all_Nil_iff
    by (intro conjI TrueI avoids_if avoids_seq_Cons avoids_seq_Nil avoids_return avoids_docmd
              avoids_doscmd avoids_dochdir avoids_dochdir_opt avoids_checkout
              is_checkout_cmds llvm_svn_neq_tools_svn llvm_svn_neq_llgo_svn
              llvm_svn_neq_tools_svn [symmetric] llvm_svn_neq_llgo_svn [symmetric])
       (simp_all add: assms cmd_defs url_defs)
qed

lemma avoids_clang_svn:
  assumes "flag_scm_flavor g \<noteq> ''svn''"
  shows "avoids clang_svn (do_subvol_create g e)"
proof (rule avoids_subvol)
  fix here
  show "list_all (avoids clang_svn) (subvol_steps g e here)"
    unfolding subvol_steps_def list_all_Cons_iff list_all_Nil_iff
    by (intro conjI TrueI avoids_if avoids_seq_Cons avoids_seq_Nil avoids_return avoids_docmd
              avoids_doscmd avoids_dochdir avoids_dochdir_opt avoids_checkout
              is_checkout_cmds llvm_svn_neq_tools_svn llvm_svn_neq_llgo_svn
              llvm_svn_neq_tools_svn [symmetric] llvm_svn_neq_llgo_svn [symmetric])
       (simp_all add: assms cmd_defs url_defs)
qed

lemma avoids_rt_clone:
  assumes "flag_scm_flavor g = ''svn''"
  shows "avoids rt_clone (do_subvol_create g e)"
proof (rule avoids_subvol)
  fix here
  show "list_all (avoids rt_clone) (subvol_steps g e here)"
    unfolding subvol_steps_def list_all_Cons_iff list_all_Nil_iff
    by (intro conjI TrueI avoids_if avoids_seq_Cons avoids_seq_Nil avoids_return avoids_docmd
              avoids_doscmd avoids_dochdir avoids_dochdir_opt avoids_checkout
              is_checkout_cmds llvm_svn_neq_tools_svn llvm_svn_neq_llgo_svn
              llvm_svn_neq_tools_svn [symmetric] llvm_svn_neq_llgo_svn [symmetric])
       (simp_all add: assms cmd_defs url_defs)
qed

lemma avoids_rt_svn:
  assumes "flag_scm_flavor g \<noteq> ''svn''"
  shows "avoids rt_svn (do_subvol_create g e)"
proof (rule avoids_subvol)
  fix here
  show "list_all (avoids rt_svn) (subvol_steps g e here)"
    unfolding subvol_steps_def list_all_Cons_iff list_all_Nil_iff
    by (intro conjI TrueI avoids_if avoids_seq_Cons avoids_seq_Nil avoids_return avoids_docmd
              avoids_doscmd avoids_dochdir avoids_dochdir_opt avoids_checkout
              is_checkout_cmds llvm_svn_neq_tools_svn llvm_svn_neq_llgo_svn
              llvm_svn_neq_tools_svn [symmetric] llvm_svn_neq_llgo_svn [symmetric])
       (simp_all add: assms cmd_defs url_defs)
qed

lemma must_tools_svn:
  assumes "flag_include_tools g" and "flag_scm_flavor g = ''git''" and "flag_echo g \<or> \<not> flag_dryrun g"
  shows "must (issue_of tools_svn) (do_subvol_create g e)"
proof (rule must_subvol [where i = 6])
  fix here
  show "must (issue_of tools_svn) (subvol_steps g e here ! 6)"
    unfolding subvol_steps_def using assms
    by (simp del: seq.simps add: must_optional must_checkout_svn)
qed simp

lemma must_tools_clone:
  assumes "flag_include_tools g" and "flag_scm_flavor g \<noteq> ''git''" and "flag_echo g \<or> \<not> flag_dryrun g"
  shows "must (issue_of tools_clone) (do_subvol_create g e)"
proof (rule must_subvol [where i = 6])
  fix here
  show "must (issue_of tools_clone) (subvol_steps g e here ! 6)"
    unfolding subvol_steps_def using assms
    by (simp del: seq.simps add: must_optional must_checkout_git)
qed simp

lemma must_llgo_svn:
  assumes "flag_include_llgo g" and "flag_scm_flavor g = ''git''" and "flag_echo g \<or> \<not> flag_dryrun g"
  shows "must (issue_of llgo_svn) (do_subvol_create g e)"
proof (rule must_subvol [where i = 7])
  fix here
  show "must (issue_of llgo_svn) (subvol_steps g e here ! 7)"
    unfolding subvol_steps_def using assms
    by (simp del: seq.simps add: must_optional must_checkout_svn)
qed simp

lemma must_llgo_clone:
  assumes "flag_include_llgo g" and "flag_scm_flavor g \<noteq> ''git''" and "flag_echo g \<or> \<not> flag_dryrun g"
  shows "must (issue_of llgo_clone) (do_subvol_create g e)"
proof (rule must_subvol [where i = 7])
  fix here
  show "must (issue_of llgo_clone) (subvol_steps g e here ! 7)"
    unfolding subvol_steps_def using assms
    by (simp del: seq.simps add: must_optional must_checkout_git)
qed simp

lemma must_llvm_svn:
  assumes "flag_scm_flavor g = ''svn''" and "flag_echo g \<or> \<not> flag_dryrun g"
  shows "must (issue_of (llvm_svn g)) (do_subvol_create g e)"
proof (rule must_subvol [where i = 3])
  fix here
  show "must (issue_of (llvm_svn g)) (subvol_steps g e here ! 3)"
    unfolding subvol_steps_def using assms
    by (simp del: seq.simps add: must_checkout_svn)
qed simp

lemma must_llvm_clone:
  assumes "flag_scm_flavor g \<noteq> ''svn''" and "flag_echo g \<or> \<not> flag_dryrun g"
  shows "must (issue_of llvm_clone) (do_subvol_create g e)"
proof (rule must_subvol [where i = 3])
  fix here
  show "must (issue_of llvm_clone) (subvol_steps g e here ! 3)"
    unfolding subvol_steps_def using assms
    by (simp del: seq.simps add: must_checkout_git)
qed simp

lemma must_clang_svn:
  assumes "flag_scm_flavor g = ''svn''" and "flag_echo g \<or> \<not> flag_dryrun g"
  shows "must (issue_of clang_svn) (do_subvol_create g e)"
proof (rule must_subvol [where i = 5])
  fix here
  show "must (issue_of clang_svn) (subvol_steps g e here ! 5)"
    unfolding subvol_steps_def using assms
    by (simp del: seq.simps add: must_checkout_svn)
qed simp

lemma must_clang_clone:
  assumes "flag_scm_flavor g \<noteq> ''svn''" and "flag_echo g \<or> \<not> flag_dryrun g"
  shows "must (issue_of clang_clone) (do_subvol_create g e)"
proof (rule must_subvol [where i = 5])
  fix here
  show "must (issue_of clang_clone) (subvol_steps g e here ! 5)"
    unfolding subvol_steps_def using assms
    by (simp del: seq.simps add: must_checkout_git)
qed simp

lemma must_rt_svn:
  assumes "flag_scm_flavor g = ''svn''" and "flag_echo g \<or> \<not> flag_dryrun g"
  shows "must (issue_of rt_svn) (do_subvol_create g e)"
proof (rule must_subvol [where i = 9])
  fix here
  show "must (issue_of rt_svn) (subvol_steps g e here ! 9)"
    unfolding subvol_steps_def using assms
    by (simp del: seq.simps add: must_checkout_svn)
qed simp

lemma must_rt_clone:
  assumes "flag_scm_flavor g \<noteq> ''svn''" and "flag_echo g \<or> \<not> flag_dryrun g"
  shows "must (issue_of rt_clone) (do_subvol_create g e)"
proof (rule must_subvol [where i = 9])
  fix here
  show "must (issue_of rt_clone) (subvol_steps g e here ! 9)"
    unfolding subvol_steps_def using assms
    by (simp del: seq.simps add: must_checkout_git)
qed simp

lemma chosenI:
  assumes "must (issue_of a) p" and "avoids b p" and "p w = (Inr (), w')"
  shows "chosen a b (new_events w w')"
proof -
  from mustD [OF assms(1,3)] obtain evs ev
    where evs: "trace w' = trace w @ evs" "ev \<in> set evs" "issue_of a ev" by blast
  from assms(2) have "emits (\<lambda>ev. \<not> issue_of b ev) p" by (simp add: avoids_def)
  from emitsD [OF this, of w] assms(3) obtain evs'
    where evs': "trace w' = trace w @ evs'" "list_all (\<lambda>ev. \<not> issue_of b ev) evs'" by auto
  from evs(1) evs'(1) have "evs' = evs" by simp
  then show ?thesis
    using evs evs' by (auto simp: chosen_def new_events_def list_all_iff)
qed

text \<open>
  C10. In a provisioning run that returns and shows its actions (echo on, or not a dry
  run): the optional extra-tools and llgo repositories are checked out with \<open>svn co\<close>
  from the read-only mirror exactly when the flavor is \<open>git\<close>, and cloned with git
  otherwise; the main, frontend and runtime repositories are checked out with
  \<open>svn co\<close> exactly when the flavor is \<open>svn\<close>, and cloned with git otherwise.
\<close>

theorem checkout_method_by_flavor:
  assumes "do_subvol_create g e w = (Inr (), w')" and "flag_echo g \<or> \<not> flag_dryrun g"
  shows "(flag_include_tools g \<longrightarrow>
            (if flag_scm_flavor g = ''git'' then chosen tools_svn tools_clone (new_events w w')
             else chosen tools_clone tools_svn (new_events w w')))
       \<and> (flag_include_llgo g \<longrightarrow>
            (if flag_scm_flavor g = ''git'' then chosen llgo_svn llgo_clone (new_events w w')
             else chosen llgo_clone llgo_svn (new_events w w')))
       \<and> (if flag_scm_flavor g = ''svn'' then chosen (llvm_svn g) llvm_clone (new_events w w')
          else chosen llvm_clone (llvm_svn g) (new_events w w'))
       \<and> (if flag_scm_flavor g = ''svn'' then chosen clang_svn clang_clone (new_events w w')
          else chosen clang_clone clang_svn (new_events w w'))
       \<and> (if flag_scm_flavor g = ''svn'' then chosen rt_svn rt_clone (new_events w w')
          else chosen rt_clone rt_svn (new_events w w'))"
proof -
  note run = assms(1) and vis = assms(2)
  have tools: "chosen tools_svn tools_clone (new_events w w')"
    if "flag_include_tools g" "flag_scm_flavor g = ''git''"
    using must_tools_svn [OF that vis] avoids_tools_clone [OF that(2)] run by (rule chosenI)
  have tools': "chosen tools_clone tools_svn (new_events w w')"
    if "flag_include_tools g" "flag_scm_flavor g \<noteq> ''git''"
    using must_tools_clone [OF that vis] avoids_tools_svn [OF that(2)] run by (rule chosenI)
  have llgo: "chosen llgo_svn llgo_clone (new_events w w')"
    if "flag_include_llgo g" "flag_scm_flavor g = ''git''"
    using must_llgo_svn [OF that vis] avoids_llgo_clone [OF that(2)] run by (rule chosenI)
  have llgo': "chosen llgo_clone llgo_svn (new_events w w')"
    if "flag_include_llgo g" "flag_scm_flavor g \<noteq> ''git''"
    using must_llgo_clone [OF that vis] avoids_llgo_svn [OF that(2)] run by (rule chosenI)
  have llvm: "chosen (llvm_svn g) llvm_clone (new_events w w')"
    if "flag_scm_flavor g = ''svn''"
    using must_llvm_svn [OF that vis] avoids_llvm_clone [OF that] run by (rule chosenI)
  have llvm': "chosen llvm_clone (llvm_svn g) (new_events w w')"
    if "flag_scm_flavor g \<noteq> ''svn''"
    using must_llvm_clone [OF that vis] avoids_llvm_svn [OF that] run by (rule chosenI)
  have clang: "chosen clang_svn clang_clone (new_events w w')"
    if "flag_scm_flavor g = ''svn''"
    using must_clang_svn [OF that vis] avoids_clang_clone [OF that] run by (rule chosenI)
  have clang': "chosen clang_clone clang_svn (new_events w w')"
    if "flag_scm_flavor g \<noteq> ''svn''"
    using must_clang_clone [OF that vis] avoids_clang_svn [OF that] run by (rule chosenI)
  have rt: "chosen rt_svn rt_clone (new_events w w')"
    if "flag_scm_flavor g = ''svn''"
    using must_rt_svn [OF that vis] avoids_rt_clone [OF that] run by (rule chosenI)
  have rt': "chosen rt_clone rt_svn (new_events w w')"
    if "flag_scm_flavor g \<noteq> ''svn''"
    using must_rt_clone [OF that vis] avoids_rt_svn [OF that] run by (rule chosenI)
  show ?thesis
    using tools tools' llgo llgo' llvm llvm' clang clang' rt rt' by simp
qed

theorem checkout_method_by_flavor_witness:
  "do_subvol_create globals_git env_ok world0
     = (Inr (), snd (do_subvol_create globals_git env_ok world0))
   \<and> flag_echo globals_git
   \<and> flag_include_tools globals_git \<and> flag_include_llgo globals_git
   \<and> chosen tools_svn tools_clone
         (new_events world0 (snd (do_subvol_create globals_git env_ok world0)))
   \<and> chosen llgo_svn llgo_clone
         (new_events world0 (snd (do_subvol_create globals_git env_ok world0)))
   \<and> chosen llvm_clone (llvm_svn globals_git)
         (new_events world0 (snd (do_subvol_create globals_git env_ok world0)))
   \<and> chosen clang_clone clang_svn
         (new_events world0 (snd (do_subvol_create globals_git env_ok world0)))
   \<and> chosen rt_clone rt_svn
         (new_events world0 (snd (do_subvol_create globals_git env_ok world0)))"
proof -
  have "returns (do_subvol_create globals_git env_ok)"
    by (rule returns_do_subvol_create_ok [of _ "''/ssd''" "''demo-vol''"])
       (simp_all add: globals_git_def globals_vol_def)
  then obtain w' where "do_subvol_create globals_git env_ok world0 = (Inr (), w')"
    by (auto simp: returns_def)
  then have run: "do_subvol_create globals_git env_ok world0
                    = (Inr (), snd (do_subvol_create globals_git env_ok world0))"
    by simp
  have vis: "flag_echo globals_git \<or> \<not> flag_dryrun globals_git"
    by (simp add: globals_git_def globals_vol_def globals0_def)
  have flags: "flag_include_tools globals_git" "flag_include_llgo globals_git"
    "flag_scm_flavor globals_git = ''git''"
    by (simp_all add: globals_git_def globals_vol_def globals0_def)
  have echo: "flag_echo globals_git"
    by (simp add: globals_git_def globals_vol_def globals0_def)
  show ?thesis
    using run echo flags checkout_method_by_flavor [OF run vis]
    by simp
qed

end
